(* ===== verification/Serv_Prelude.thy ===== *)
theory Serv_Prelude
  imports Main "HOL-Library.Word"
begin

unbundle bit_operations_syntax

text \<open>
  The vocabulary shared by the component theories: Go's integer and byte types, the two
  views of a byte sequence (a Go \<open>string\<close> is a HOL \<open>string\<close>, a \<open>[]byte\<close> is a list of
  \<open>8 word\<close>), the errors that the packages under \<^verbatim>\<open>src/\<close> raise or pass on, and the
  generic interface \<open>codec\<close> of an encoder with a decoder that returns the bytes it did not
  consume. The collection \<open>codec_simps\<close> gathers the decoding equations of every codec of
  the development.
\<close>

section \<open>Machine types and byte sequences\<close>

type_synonym u8 = "8 word"
type_synonym u32 = "32 word"
type_synonym u64 = "64 word"
type_synonym bytes = "u8 list"

named_theorems codec_simps \<open>decoding what an encoder wrote\<close>
named_theorems marshal_defs \<open>definitions of the packet encoders\<close>
named_theorems unmarshal_defs \<open>definitions of the packet decoders\<close>

text \<open>The conversions \<open>[]byte(s)\<close> and \<open>string(b)\<close> of Go keep every byte.\<close>

definition bytes_of :: "string \<Rightarrow> bytes" where
  "bytes_of s = map (\<lambda>c. word_of_nat (of_char c)) s"

definition string_of :: "bytes \<Rightarrow> string" where
  "string_of b = map (\<lambda>w. char_of (unat w)) b"

lemma of_char_less_256 [simp]: "(of_char c :: nat) < 256"
  using of_char_mod_256 [of c, where 'a = nat] mod_less_divisor [of 256 "of_char c :: nat"]
  by simp

lemma length_bytes_of [simp]: "length (bytes_of s) = length s"
  by (simp add: bytes_of_def)

lemma length_string_of [simp]: "length (string_of b) = length b"
  by (simp add: string_of_def)

lemma char_of_unat_of_char [simp]: "char_of (unat (word_of_nat (of_char c) :: u8)) = c"
  by (simp add: unat_of_nat)

lemma string_of_bytes_of [simp]: "string_of (bytes_of s) = s"
  by (simp add: string_of_def bytes_of_def comp_def)

lemma bytes_of_string_of [simp]: "bytes_of (string_of b) = b"
proof -
  have "word_of_nat (of_char (char_of (unat w) :: char)) = w" for w :: u8
    using unsigned_less [of w, where 'a = nat] by (simp add: of_char_of)
  then show ?thesis by (simp add: string_of_def bytes_of_def comp_def)
qed

lemma bytes_of_append [simp]: "bytes_of (s @ t) = bytes_of s @ bytes_of t"
  by (simp add: bytes_of_def)

lemma string_of_append [simp]: "string_of (a @ b) = string_of a @ string_of b"
  by (simp add: string_of_def)

lemma bytes_of_Nil [simp]: "bytes_of [] = []"
  by (simp add: bytes_of_def)

lemma string_of_Nil [simp]: "string_of [] = []"
  by (simp add: string_of_def)

lemma bytes_of_inj [simp]: "bytes_of s = bytes_of t \<longleftrightarrow> s = t"
  by (metis string_of_bytes_of)

text \<open>The length of a Go string or slice, as the \<open>uint32\<close> the protocol writes for it.\<close>

lemma unat_word_of_nat_u32 [simp]: "n < 2 ^ 32 \<Longrightarrow> unat (word_of_nat n :: u32) = n"
  by (simp add: unat_of_nat)

section \<open>Decimal numbers\<close>

text \<open>
  \<open>strconv.Itoa\<close> and the verb \<open>%d\<close> of \<open>fmt\<close> print a number in decimal; distinct numbers
  print differently. \<open>pad_left\<close> and \<open>pad_right\<close> are the widths of \<open>fmt\<close> verbs.
\<close>

fun itoa :: "nat \<Rightarrow> string" where
  "itoa n = (if n < 10 then [char_of (48 + n)] else itoa (n div 10) @ [char_of (48 + n mod 10)])"

declare itoa.simps [simp del]

definition itoa_int :: "int \<Rightarrow> string" where
  "itoa_int i = (if i < 0 then CHR ''-'' # itoa (nat (- i)) else itoa (nat i))"

definition pad_left :: "nat \<Rightarrow> char \<Rightarrow> string \<Rightarrow> string" where
  "pad_left w c s = replicate (w - length s) c @ s"

definition pad_right :: "nat \<Rightarrow> string \<Rightarrow> string" where
  "pad_right w s = s @ replicate (w - length s) CHR '' ''"

fun atoi_acc :: "nat \<Rightarrow> string \<Rightarrow> nat" where
  "atoi_acc a [] = a"
| "atoi_acc a (c # cs) = atoi_acc (10 * a + (of_char c - 48)) cs"

lemma atoi_acc_append: "atoi_acc a (s @ t) = atoi_acc (atoi_acc a s) t"
  by (induction s arbitrary: a) auto

lemma digit_value: "d < 10 \<Longrightarrow> (of_char (char_of (48 + d) :: char) :: nat) - 48 = d"
  by (simp add: of_char_of)

lemma atoi_itoa: "atoi_acc 0 (itoa n) = n"
proof (induction n rule: itoa.induct)
  case (1 n)
  show ?case
  proof (cases "n < 10")
    case True
    then show ?thesis by (simp add: itoa.simps [of n] digit_value)
  next
    case False
    then have "atoi_acc 0 (itoa n) = 10 * (n div 10) + n mod 10"
      using "1.IH" by (simp add: itoa.simps [of n] atoi_acc_append digit_value)
    then show ?thesis by simp
  qed
qed

lemma itoa_inj [simp]: "itoa m = itoa n \<longleftrightarrow> m = n"
  by (metis atoi_itoa)

lemma itoa_not_Nil [simp]: "itoa n \<noteq> []"
  by (simp add: itoa.simps [of n])

section \<open>Errors\<close>

text \<open>
  \<open>syscall.Errno\<close> is a number with the text that the platform's table gives it; the
  constants below are the Linux values that the sources name. The other errors are the
  sentinel values and error types of the packages \<open>io\<close>, \<open>os\<close> and \<open>sftp\<close>; an error made by
  \<open>errors.New\<close> or \<open>fmt.Errorf\<close> is \<open>ErrorString\<close> with its text; the last three are the error
  types of the package \<open>dataprovider\<close>. \<open>PathError\<close> and
  \<open>LinkError\<close> wrap another error, as \<open>*os.PathError\<close> and \<open>*os.LinkError\<close> do.
\<close>

datatype errno = Errno (errno_num: nat) (errno_text: string)

definition EPERM :: errno where "EPERM = Errno 1 ''operation not permitted''"
definition ENOENT :: errno where "ENOENT = Errno 2 ''no such file or directory''"
definition EBADF :: errno where "EBADF = Errno 9 ''bad file descriptor''"
definition EEXIST :: errno where "EEXIST = Errno 17 ''file exists''"
definition ENOTDIR :: errno where "ENOTDIR = Errno 20 ''not a directory''"
definition EISDIR :: errno where "EISDIR = Errno 21 ''is a directory''"
definition EINVAL :: errno where "EINVAL = Errno 22 ''invalid argument''"
definition EBUSY :: errno where "EBUSY = Errno 16 ''device or resource busy''"
definition ENOTEMPTY :: errno where "ENOTEMPTY = Errno 39 ''directory not empty''"
definition ELOOP :: errno where "ELOOP = Errno 40 ''too many levels of symbolic links''"

lemmas errno_defs = EPERM_def ENOENT_def EBADF_def EEXIST_def ENOTDIR_def EISDIR_def
  EINVAL_def EBUSY_def ENOTEMPTY_def ELOOP_def

datatype goerr =
    ErrShortPacket
  | ErrLongPacket
  | ErrUnknownExtendedPacket
  | IoEOF
  | IoUnexpectedEOF
  | SysErrno errno
  | PathError (perr_op: string) (perr_path: string) (perr_err: goerr)
  | LinkError (lerr_op: string) (lerr_old: string) (lerr_new: string) (lerr_err: goerr)
  | Fxerr u32
  | ErrorString string
  | ValidationError string
  | MethodDisabledError string
  | RecordNotFoundError string

text \<open>
  \<open>os.IsNotExist\<close> looks through one wrapper and compares with \<open>ENOENT\<close>.
\<close>

definition underlyingError :: "goerr \<Rightarrow> goerr" where
  "underlyingError e = (case e of PathError _ _ e' \<Rightarrow> e' | LinkError _ _ _ e' \<Rightarrow> e' | _ \<Rightarrow> e)"

definition os_IsNotExist :: "goerr \<Rightarrow> bool" where
  "os_IsNotExist e =
     (case underlyingError e of SysErrno n \<Rightarrow> errno_num n = errno_num ENOENT | _ \<Rightarrow> False)"

lemma IsNotExist_ENOENT [simp]: "os_IsNotExist (SysErrno ENOENT)"
  by (simp add: os_IsNotExist_def underlyingError_def)

lemma IsNotExist_path_ENOENT [simp]: "os_IsNotExist (PathError opn p (SysErrno ENOENT))"
  by (simp add: os_IsNotExist_def underlyingError_def)

lemma IsNotExist_Fxerr [simp]: "\<not> os_IsNotExist (Fxerr n)"
  by (simp add: os_IsNotExist_def underlyingError_def)

lemma IsNotExist_ErrorString [simp]: "\<not> os_IsNotExist (ErrorString s)"
  by (simp add: os_IsNotExist_def underlyingError_def)

text \<open>The value of an operation that returns, raises an error, or panics.\<close>

datatype 'a outcome = Value 'a | Fail goerr | Panic

section \<open>The interface of an encoder and its decoder\<close>

text \<open>
  A codec writes a value in front of the bytes that follow it and reads it back, leaving
  those bytes; \<open>valid\<close> says for which values the encoding is faithful (a length field may
  overflow). Everything a client needs of the wire format follows: encodings are injective,
  no encoding is a proper prefix of another, and a sequence of encodings decodes element by
  element.
\<close>

locale codec =
  fixes enc :: "'a \<Rightarrow> bytes"
    and dec :: "bytes \<Rightarrow> goerr + 'a \<times> bytes"
    and valid :: "'a \<Rightarrow> bool"
  assumes dec_enc: "valid x \<Longrightarrow> dec (enc x @ rest) = Inr (x, rest)"
begin

lemma dec_enc_all: "valid x \<Longrightarrow> dec (enc x) = Inr (x, [])"
  using dec_enc [of x "[]"] by simp

lemma enc_cancel:
  assumes "valid x" and "valid y" and "enc x @ r = enc y @ s"
  shows "x = y \<and> r = s"
proof -
  have "Inr (x, r) = (dec (enc x @ r))" using assms(1) by (simp add: dec_enc)
  also have "\<dots> = Inr (y, s)" using assms(2,3) by (simp add: dec_enc)
  finally show ?thesis by simp
qed

lemma enc_inj: "valid x \<Longrightarrow> valid y \<Longrightarrow> enc x = enc y \<Longrightarrow> x = y"
  using enc_cancel [of x y "[]" "[]"] by simp

lemma enc_prefix_free: "valid x \<Longrightarrow> valid y \<Longrightarrow> enc x = enc y @ s \<Longrightarrow> s = [] \<and> x = y"
  using enc_cancel [of x y "[]" s] by simp

lemma concat_enc_inj:
  assumes "list_all valid xs" and "list_all valid ys" and "length xs = length ys"
    and "concat (map enc xs) @ r = concat (map enc ys) @ s"
  shows "xs = ys \<and> r = s"
  using assms(3,1,2,4)
proof (induction xs ys rule: list_induct2)
  case Nil
  then show ?case by simp
next
  case (Cons x xs y ys)
  then have "enc x @ (concat (map enc xs) @ r) = enc y @ (concat (map enc ys) @ s)"
    by simp
  with Cons.prems have "x = y \<and> concat (map enc xs) @ r = concat (map enc ys) @ s"
    by (intro enc_cancel) simp_all
  with Cons show ?case by simp
qed

end

end
