(* ===== verification/Sftp_Allocator.thy ===== *)
theory Sftp_Allocator
  imports Serv_Prelude "HOL-Library.AList" "HOL-Library.Multiset"
begin

text \<open>
  The page allocator of \<^verbatim>\<open>src/sftp/allocator.go\<close>. A page is named by its address, a
  number; \<open>fresh\<close> is the next address that \<open>make([]byte, maxMsgLength)\<close> hands out. The map
  \<open>used\<close> from request order ids to pages is an association list (Go's iteration order over
  it is immaterial: the only loop adds lengths). The mutex makes every method one step.
  The interface \<open>page_pool\<close> states what the packet manager relies on: a page is owned by
  one request at a time, from the \<open>GetPage\<close> that returned it to the \<open>ReleasePages\<close> of that
  request.
\<close>

section \<open>State and operations\<close>

record allocator =
  available :: "nat list"
  used :: "(u32 \<times> nat list) list"
  fresh :: nat

definition newAllocator :: "nat \<Rightarrow> allocator" where
  "newAllocator n = \<lparr>available = [], used = [], fresh = n\<rparr>"

definition used_pages :: "allocator \<Rightarrow> u32 \<Rightarrow> nat list" where
  "used_pages a i = (case map_of (used a) i of None \<Rightarrow> [] | Some ps \<Rightarrow> ps)"

definition GetPage :: "allocator \<Rightarrow> u32 \<Rightarrow> nat \<times> allocator" where
  "GetPage a requestOrderID =
     (let (result, av, fr) =
        (if length (available a) > 0
         then (let truncLength = length (available a) - 1
               in (available a ! truncLength, take truncLength (available a), fresh a))
         else (fresh a, available a, Suc (fresh a)))
      in (result, a\<lparr>available := av, fresh := fr,
            used := AList.update requestOrderID (used_pages a requestOrderID @ [result]) (used a)\<rparr>))"

definition ReleasePages :: "allocator \<Rightarrow> u32 \<Rightarrow> allocator" where
  "ReleasePages a requestOrderID =
     (let a' = (let us = used_pages a requestOrderID
                in if length us > 0 then a\<lparr>available := available a @ us\<rparr> else a)
      in a'\<lparr>used := AList.delete requestOrderID (used a')\<rparr>)"

definition Free :: "allocator \<Rightarrow> allocator" where
  "Free a = a\<lparr>available := [], used := []\<rparr>"

definition countUsedPages :: "allocator \<Rightarrow> nat" where
  "countUsedPages a = fold (\<lambda>(_, p) num. num + length p) (used a) 0"

definition countAvailablePages :: "allocator \<Rightarrow> nat" where
  "countAvailablePages a = length (available a)"

definition isRequestOrderIDUsed :: "allocator \<Rightarrow> u32 \<Rightarrow> bool" where
  "isRequestOrderIDUsed a requestOrderID = (map_of (used a) requestOrderID \<noteq> None)"

section \<open>Invariant\<close>

text \<open>
  Every page is in one place: available, or in the list of one request; and every page was
  made before \<open>fresh\<close>.
\<close>

definition all_pages :: "allocator \<Rightarrow> nat list" where
  "all_pages a = available a @ concat (map snd (used a))"

definition alloc_inv :: "allocator \<Rightarrow> bool" where
  "alloc_inv a \<longleftrightarrow> distinct (map fst (used a)) \<and> distinct (all_pages a)
     \<and> (\<forall>p \<in> set (all_pages a). p < fresh a)"

lemma mset_concat_update:
  "distinct (map fst al) \<Longrightarrow>
   mset (concat (map snd (AList.update k v al)))
     + mset (case map_of al k of None \<Rightarrow> [] | Some w \<Rightarrow> w)
   = mset (concat (map snd al)) + mset v"
  by (induction al) (auto split: option.splits)

lemma mset_concat_delete:
  "distinct (map fst al) \<Longrightarrow>
   mset (concat (map snd (AList.delete k al)))
     + mset (case map_of al k of None \<Rightarrow> [] | Some w \<Rightarrow> w)
   = mset (concat (map snd al))"
proof (induction al)
  case Nil
  then show ?case by simp
next
  case (Cons x al)
  then show ?case
    by (cases x) (auto simp: dom_map_of_conv_image_fst [symmetric] domIff split: option.splits)
qed

lemma GetPage_used:
  "GetPage a i = (p, a') \<Longrightarrow>
   used_pages a' j = (if j = i then used_pages a i @ [p] else used_pages a j)"
  by (auto simp: GetPage_def used_pages_def update_conv' Let_def split: if_splits)

lemma ReleasePages_used [simp]:
  "used_pages (ReleasePages a i) j = (if j = i then [] else used_pages a j)"
  by (auto simp: ReleasePages_def used_pages_def delete_conv' Let_def)

text \<open>What each operation does to the pages as a whole.\<close>

lemma used_after_update:
  assumes "distinct (map fst (used a))"
  shows "mset (concat (map snd (AList.update i (used_pages a i @ [p]) (used a))))
    = add_mset p (mset (concat (map snd (used a))))"
  using mset_concat_update [OF assms, of i "used_pages a i @ [p]"] by (simp add: used_pages_def)

lemma GetPage_cases:
  "GetPage a i =
     (if available a = []
      then (fresh a, a\<lparr>fresh := Suc (fresh a),
              used := AList.update i (used_pages a i @ [fresh a]) (used a)\<rparr>)
      else (last (available a), a\<lparr>available := butlast (available a),
              used := AList.update i (used_pages a i @ [last (available a)]) (used a)\<rparr>))"
  by (simp add: GetPage_def Let_def last_conv_nth butlast_conv_take)

lemma mset_butlast_last: "xs \<noteq> [] \<Longrightarrow> add_mset (last xs) (mset (butlast xs)) = mset xs"
  by (induction xs) auto

lemma GetPage_reuse:
  assumes "available a \<noteq> []" and "distinct (map fst (used a))" and "GetPage a i = (p, a')"
  shows "mset (all_pages a') = mset (all_pages a) \<and> fresh a' = fresh a \<and> p = last (available a)"
proof -
  from assms(1,3) have p: "p = last (available a)"
    and a': "a' = a\<lparr>available := butlast (available a),
                   used := AList.update i (used_pages a i @ [p]) (used a)\<rparr>"
    by (auto simp: GetPage_cases)
  have "mset (all_pages a') = mset (butlast (available a)) + add_mset p (mset (concat (map snd (used a))))"
    by (simp add: a' all_pages_def used_after_update [OF assms(2)])
  also have "\<dots> = add_mset (last (available a)) (mset (butlast (available a))) + mset (concat (map snd (used a)))"
    by (simp add: p)
  also have "\<dots> = mset (all_pages a)"
    by (simp only: mset_butlast_last [OF assms(1)] all_pages_def mset_append)
  finally show ?thesis by (simp add: a' p)
qed

lemma GetPage_new:
  assumes "available a = []" and "distinct (map fst (used a))" and "GetPage a i = (p, a')"
  shows "mset (all_pages a') = add_mset p (mset (all_pages a)) \<and> fresh a' = Suc (fresh a)
    \<and> p = fresh a"
proof -
  from assms(1,3) have p: "p = fresh a"
    and a': "a' = a\<lparr>fresh := Suc (fresh a), used := AList.update i (used_pages a i @ [p]) (used a)\<rparr>"
    by (auto simp: GetPage_cases)
  then show ?thesis
    by (simp add: a' all_pages_def assms(1) used_after_update [OF assms(2)])
qed

lemma ReleasePages_pages:
  assumes "distinct (map fst (used a))"
  shows "mset (all_pages (ReleasePages a i)) = mset (all_pages a)"
    and "fresh (ReleasePages a i) = fresh a"
proof -
  have "mset (concat (map snd (AList.delete i (used a)))) + mset (used_pages a i)
      = mset (concat (map snd (used a)))"
    using mset_concat_delete [OF assms, of i] by (simp add: used_pages_def)
  then show "mset (all_pages (ReleasePages a i)) = mset (all_pages a)"
    by (auto simp: ReleasePages_def all_pages_def Let_def ac_simps)
  show "fresh (ReleasePages a i) = fresh a"
    by (simp add: ReleasePages_def Let_def)
qed

lemma GetPage_keys:
  "distinct (map fst (used a)) \<Longrightarrow> GetPage a i = (p, a') \<Longrightarrow> distinct (map fst (used a'))"
  by (auto simp: GetPage_def Let_def distinct_update split: if_splits)

lemma ReleasePages_keys:
  "distinct (map fst (used a)) \<Longrightarrow> distinct (map fst (used (ReleasePages a i)))"
  by (auto simp: ReleasePages_def Let_def distinct_delete)

lemma used_pages_subset: "set (used_pages a i) \<subseteq> set (concat (map snd (used a)))"
  by (cases "map_of (used a) i") (force simp: used_pages_def dest: map_of_SomeD)+

lemma alloc_inv_new [simp]: "alloc_inv (newAllocator n)"
  by (simp add: alloc_inv_def newAllocator_def all_pages_def)

lemma alloc_inv_Free [simp]: "alloc_inv (Free a)"
  by (simp add: alloc_inv_def Free_def all_pages_def)

lemma GetPage_inv:
  assumes inv: "alloc_inv a" and get: "GetPage a i = (p, a')"
  shows "alloc_inv a'"
proof (cases "available a = []")
  case True
  from inv have d: "distinct (map fst (used a))" by (simp add: alloc_inv_def)
  from GetPage_new [OF True d get] have m: "mset (all_pages a') = mset (p # all_pages a)"
    and f: "fresh a' = Suc (fresh a)" and p: "p = fresh a" by simp_all
  have "distinct (p # all_pages a)" using inv p by (auto simp: alloc_inv_def)
  then have "distinct (all_pages a')" using m mset_eq_imp_distinct_iff by blast
  moreover have "set (all_pages a') = set (p # all_pages a)" using m by (rule mset_eq_setD)
  ultimately show ?thesis
    using inv f p GetPage_keys [OF d get] by (auto simp: alloc_inv_def)
next
  case False
  from inv have d: "distinct (map fst (used a))" by (simp add: alloc_inv_def)
  from GetPage_reuse [OF False d get] have m: "mset (all_pages a') = mset (all_pages a)"
    and f: "fresh a' = fresh a" by simp_all
  from m have "set (all_pages a') = set (all_pages a)" by (rule mset_eq_setD)
  with inv f GetPage_keys [OF d get] mset_eq_imp_distinct_iff [OF m] show ?thesis
    by (simp add: alloc_inv_def)
qed

lemma ReleasePages_inv:
  assumes inv: "alloc_inv a"
  shows "alloc_inv (ReleasePages a i)"
proof -
  from inv have d: "distinct (map fst (used a))" by (simp add: alloc_inv_def)
  note m = ReleasePages_pages(1) [OF d, of i]
  show ?thesis
    using inv ReleasePages_pages(2) [OF d, of i] ReleasePages_keys [OF d, of i]
      mset_eq_imp_distinct_iff [OF m] mset_eq_setD [OF m]
    by (simp add: alloc_inv_def)
qed

text \<open>The page handed out was not in use.\<close>

lemma GetPage_not_used:
  assumes inv: "alloc_inv a" and get: "GetPage a i = (p, a')"
  shows "p \<notin> set (used_pages a j)"
proof (cases "available a = []")
  case True
  have "p = fresh a" using GetPage_new [OF True _ get] inv by (simp add: alloc_inv_def)
  then have "p \<notin> set (all_pages a)" using inv by (auto simp: alloc_inv_def)
  then show ?thesis using used_pages_subset [of a j] by (auto simp: all_pages_def)
next
  case False
  have "p = last (available a)" using GetPage_reuse [OF False _ get] inv by (simp add: alloc_inv_def)
  with False have "p \<in> set (available a)" by simp
  then have "p \<notin> set (concat (map snd (used a)))"
    using inv by (auto simp: alloc_inv_def all_pages_def)
  then show ?thesis using used_pages_subset [of a j] by auto
qed

lemma concat_snd_disjoint:
  "distinct (concat (map snd al)) \<Longrightarrow> (i, ps) \<in> set al \<Longrightarrow> (j, qs) \<in> set al \<Longrightarrow> i \<noteq> j
   \<Longrightarrow> set ps \<inter> set qs = {}"
proof (induction al)
  case Nil
  then show ?case by simp
next
  case (Cons x al)
  then have "\<And>k rs. (k, rs) \<in> set al \<Longrightarrow> set rs \<inter> set (snd x) = {}"
    by fastforce
  with Cons show ?case by (cases x) auto
qed

lemma used_disjoint:
  assumes "alloc_inv a" and "i \<noteq> j"
  shows "set (used_pages a i) \<inter> set (used_pages a j) = {}"
proof (cases "map_of (used a) i = None \<or> map_of (used a) j = None")
  case True
  then show ?thesis by (auto simp: used_pages_def)
next
  case False
  then obtain ps qs where i: "map_of (used a) i = Some ps" and j: "map_of (used a) j = Some qs"
    by auto
  have "distinct (concat (map snd (used a)))"
    using assms(1) by (simp add: alloc_inv_def all_pages_def)
  from concat_snd_disjoint [OF this map_of_SomeD [OF i] map_of_SomeD [OF j] assms(2)] i j
  show ?thesis by (simp add: used_pages_def)
qed

lemma countUsedPages_eq: "countUsedPages a = length (concat (map snd (used a)))"
proof -
  have "fold (\<lambda>(_, p) num. num + length p) al n = n + length (concat (map snd al))"
    for al :: "(u32 \<times> nat list) list" and n
    by (induction al arbitrary: n) auto
  then show ?thesis by (simp add: countUsedPages_def)
qed

section \<open>What the packet manager relies on\<close>

datatype pool_op = Get u32 | Release u32

fun run_pool :: "('a \<Rightarrow> u32 \<Rightarrow> nat \<times> 'a) \<Rightarrow> ('a \<Rightarrow> u32 \<Rightarrow> 'a) \<Rightarrow> 'a \<Rightarrow> pool_op list
    \<Rightarrow> nat list \<times> 'a" where
  "run_pool g r a [] = ([], a)"
| "run_pool g r a (Get i # ops) =
     (let (p, a') = g a i; (ps, a'') = run_pool g r a' ops in (p # ps, a''))"
| "run_pool g r a (Release i # ops) = run_pool g r (r a i) ops"

locale page_pool =
  fixes get :: "'a \<Rightarrow> u32 \<Rightarrow> nat \<times> 'a"
    and rel :: "'a \<Rightarrow> u32 \<Rightarrow> 'a"
    and owned :: "'a \<Rightarrow> u32 \<Rightarrow> nat set"
    and inv :: "'a \<Rightarrow> bool"
  assumes get_inv: "inv a \<Longrightarrow> get a i = (p, a') \<Longrightarrow> inv a'"
    and rel_inv: "inv a \<Longrightarrow> inv (rel a i)"
    and get_owned: "inv a \<Longrightarrow> get a i = (p, a') \<Longrightarrow>
      owned a' j = (if j = i then insert p (owned a i) else owned a j)"
    and rel_owned: "inv a \<Longrightarrow> owned (rel a i) j = (if j = i then {} else owned a j)"
    and get_unowned: "inv a \<Longrightarrow> get a i = (p, a') \<Longrightarrow> p \<notin> owned a j"
begin

text \<open>
  While request \<open>i\<close> is not released it keeps its pages, and nothing that is handed out in
  the meantime, to whichever request, is one of them.
\<close>

lemma run_keeps:
  assumes "inv a" and "p \<in> owned a i" and "Release i \<notin> set ops"
    and "run_pool get rel a ops = (ps, a')"
  shows "inv a' \<and> p \<in> owned a' i \<and> p \<notin> set ps"
  using assms
proof (induction ops arbitrary: a ps)
  case Nil
  then show ?case by simp
next
  case (Cons x ops)
  show ?case
  proof (cases x)
    case (Get j)
    obtain q b where g: "get a j = (q, b)" by fastforce
    obtain qs b' where rest: "run_pool get rel b ops = (qs, b')" by fastforce
    from Cons.prems Get g rest have ps: "ps = q # qs" and b': "b' = a'" by auto
    have "q \<noteq> p" using get_unowned [OF Cons.prems(1) g, of i] Cons.prems(2) by auto
    moreover have "inv b" by (rule get_inv [OF Cons.prems(1) g])
    moreover have "p \<in> owned b i"
      using get_owned [OF Cons.prems(1) g, of i] Cons.prems(2) by auto
    moreover have "Release i \<notin> set ops" using Cons.prems(3) by simp
    ultimately show ?thesis using Cons.IH [of b qs] rest ps b' by auto
  next
    case (Release j)
    with Cons.prems have "i \<noteq> j" by auto
    with Cons.prems Release show ?thesis
      by (intro Cons.IH [of "rel a j"]) (simp_all add: rel_inv rel_owned)
  qed
qed

end

interpretation pool: page_pool GetPage ReleasePages "\<lambda>a i. set (used_pages a i)" alloc_inv
  by unfold_locales
    (auto simp: GetPage_used GetPage_not_used intro: GetPage_inv ReleasePages_inv)

section \<open>Properties\<close>



text \<open>
  Pages are conserved. \<open>GetPage\<close> reuses an available page whenever there is one and
  makes exactly one new page otherwise; \<open>ReleasePages\<close> moves the request's pages to the
  available ones. The two counters of the allocator account for every page ever made, and
  no page is in two places.
\<close>

theorem pages_conserved:
  assumes "alloc_inv a"
  shows "countUsedPages (snd (GetPage a i)) = Suc (countUsedPages a)
    \<and> countAvailablePages (snd (GetPage a i)) = countAvailablePages a - 1
    \<and> countUsedPages (ReleasePages a i) = countUsedPages a - length (used_pages a i)
    \<and> countAvailablePages (ReleasePages a i) = countAvailablePages a + length (used_pages a i)
    \<and> \<not> isRequestOrderIDUsed (ReleasePages a i) i
    \<and> alloc_inv (snd (GetPage a i)) \<and> alloc_inv (ReleasePages a i)"
proof -
  from assms have d: "distinct (map fst (used a))" by (simp add: alloc_inv_def)
  have g: "countUsedPages (snd (GetPage a i)) = Suc (countUsedPages a)"
    by (simp add: countUsedPages_eq GetPage_cases size_mset [symmetric] used_after_update [OF d]
        del: size_mset)
  have "mset (concat (map snd (AList.delete i (used a)))) + mset (used_pages a i)
      = mset (concat (map snd (used a)))"
    using mset_concat_delete [OF d, of i] by (simp add: used_pages_def)
  then have "size (mset (concat (map snd (AList.delete i (used a)))) + mset (used_pages a i))
      = size (mset (concat (map snd (used a))))"
    by simp
  then have r: "countUsedPages (ReleasePages a i) = countUsedPages a - length (used_pages a i)"
    by (simp only: countUsedPages_eq size_union size_mset) (auto simp: ReleasePages_def Let_def)
  have "countAvailablePages (snd (GetPage a i)) = countAvailablePages a - 1"
    by (simp add: countAvailablePages_def GetPage_cases)
  moreover have "countAvailablePages (ReleasePages a i) = countAvailablePages a + length (used_pages a i)"
    by (simp add: countAvailablePages_def ReleasePages_def Let_def)
  moreover have "\<not> isRequestOrderIDUsed (ReleasePages a i) i"
    by (simp add: isRequestOrderIDUsed_def ReleasePages_def Let_def delete_conv')
  ultimately show ?thesis
    using g r GetPage_inv [OF assms prod.collapse [symmetric]] ReleasePages_inv [OF assms] by blast
qed

theorem pages_conserved_witness:
  "(let a = snd (GetPage (newAllocator 0) 7)
    in countUsedPages (snd (GetPage a 7)) = 2 \<and> countAvailablePages (ReleasePages a 7) = 1
       \<and> countUsedPages (ReleasePages a 7) = 0 \<and> \<not> isRequestOrderIDUsed (ReleasePages a 7) 7)"
proof -
  let ?a = "snd (GetPage (newAllocator 0) 7)"
  have "alloc_inv ?a" by (rule GetPage_inv [OF alloc_inv_new prod.collapse [symmetric]])
  note * = pages_conserved [OF this, of 7]
  have "countUsedPages ?a = 1" and "length (used_pages ?a 7) = 1" and "countAvailablePages ?a = 0"
    by code_simp+
  with * show ?thesis by (simp add: Let_def)
qed

end
