(* ===== verification/Sftp_Wire.thy ===== *)
theory Sftp_Wire
  imports Sftp_Allocator
begin

unbundle bit_operations_syntax

text \<open>
  The wire primitives of \<^verbatim>\<open>src/sftp/packet.go\<close>: big-endian integers, length-prefixed
  strings, extension pairs, and the framing of packets (\<open>sendPacket\<close>, \<open>recvPacket\<close>). The
  \<open>marshal\<close> functions append to the bytes they are given, as the source does. The unsafe
  \<open>unmarshal\<close> functions return None where the source's index expression panics; the safe
  ones return the error \<open>errShortPacket\<close>. Each primitive is an instance of the interface
  \<open>codec\<close>.
\<close>

section \<open>Integers and strings\<close>

definition PutUint32 :: "u32 \<Rightarrow> bytes" where
  "PutUint32 v = [ucast (drop_bit 24 v), ucast (drop_bit 16 v), ucast (drop_bit 8 v), ucast v]"

definition marshalUint32 :: "bytes \<Rightarrow> u32 \<Rightarrow> bytes" where
  "marshalUint32 b v =
     b @ [ucast (drop_bit 24 v), ucast (drop_bit 16 v), ucast (drop_bit 8 v), ucast v]"

definition marshalUint64 :: "bytes \<Rightarrow> u64 \<Rightarrow> bytes" where
  "marshalUint64 b v = marshalUint32 (marshalUint32 b (ucast (drop_bit 32 v))) (ucast v)"

definition marshalString :: "bytes \<Rightarrow> string \<Rightarrow> bytes" where
  "marshalString b v = marshalUint32 b (word_of_nat (length v)) @ bytes_of v"

definition unmarshalUint32 :: "bytes \<Rightarrow> (u32 \<times> bytes) option" where
  "unmarshalUint32 b =
     (if length b < 4 then None
      else Some (ucast (b ! 3) OR push_bit 8 (ucast (b ! 2)) OR push_bit 16 (ucast (b ! 1))
                   OR push_bit 24 (ucast (b ! 0)), drop 4 b))"

definition unmarshalUint32Safe :: "bytes \<Rightarrow> goerr + u32 \<times> bytes" where
  "unmarshalUint32Safe b =
     (if length b < 4 then Inl ErrShortPacket else Inr (the (unmarshalUint32 b)))"

definition unmarshalUint64 :: "bytes \<Rightarrow> (u64 \<times> bytes) option" where
  "unmarshalUint64 b =
     (case unmarshalUint32 b of None \<Rightarrow> None
      | Some (h, b) \<Rightarrow>
        (case unmarshalUint32 b of None \<Rightarrow> None
         | Some (l, b) \<Rightarrow> Some (push_bit 32 (ucast h) OR ucast l, b)))"

definition unmarshalUint64Safe :: "bytes \<Rightarrow> goerr + u64 \<times> bytes" where
  "unmarshalUint64Safe b =
     (if length b < 8 then Inl ErrShortPacket else Inr (the (unmarshalUint64 b)))"

definition unmarshalString :: "bytes \<Rightarrow> (string \<times> bytes) option" where
  "unmarshalString b =
     (case unmarshalUint32 b of None \<Rightarrow> None
      | Some (n, b) \<Rightarrow>
        if unat n > length b then None else Some (string_of (take (unat n) b), drop (unat n) b))"

definition unmarshalStringSafe :: "bytes \<Rightarrow> goerr + string \<times> bytes" where
  "unmarshalStringSafe b =
     (case unmarshalUint32Safe b of Inl e \<Rightarrow> Inl e
      | Inr (n, b) \<Rightarrow>
        if unat n > length b then Inl ErrShortPacket
        else Inr (string_of (take (unat n) b), drop (unat n) b))"

record extensionPair =
  ep_Name :: string
  ep_Data :: string

text \<open>A failing field leaves the zero value; the second field is read only after the first.\<close>

definition unmarshalExtensionPair :: "bytes \<Rightarrow> goerr + extensionPair \<times> bytes" where
  "unmarshalExtensionPair b =
     (case unmarshalStringSafe b of Inl e \<Rightarrow> Inl e
      | Inr (n, b) \<Rightarrow>
        (case unmarshalStringSafe b of Inl e \<Rightarrow> Inl e
         | Inr (d, b) \<Rightarrow> Inr (\<lparr>ep_Name = n, ep_Data = d\<rparr>, b)))"

definition marshalExtensionPair :: "bytes \<Rightarrow> extensionPair \<Rightarrow> bytes" where
  "marshalExtensionPair b e = marshalString (marshalString b (ep_Name e)) (ep_Data e)"

section \<open>Reading back what was written\<close>

lemma be32_bits:
  fixes v :: u32
  shows "ucast (ucast v :: u8) OR push_bit 8 (ucast (ucast (drop_bit 8 v) :: u8))
     OR push_bit 16 (ucast (ucast (drop_bit 16 v) :: u8))
     OR push_bit 24 (ucast (ucast (drop_bit 24 v) :: u8)) = v"
proof (rule bit_word_eqI)
  fix n
  assume "n < LENGTH(32)"
  then show "bit (ucast (ucast v :: u8) OR push_bit 8 (ucast (ucast (drop_bit 8 v) :: u8))
     OR push_bit 16 (ucast (ucast (drop_bit 16 v) :: u8))
     OR push_bit 24 (ucast (ucast (drop_bit 24 v) :: u8)) :: u32) n = bit v n"
    by (cases "n < 24"; cases "n < 16") (auto simp: bit_simps)
qed

lemma be64_bits:
  fixes v :: u64
  shows "push_bit 32 (ucast (ucast (drop_bit 32 v) :: u32)) OR ucast (ucast v :: u32) = v"
proof (rule bit_word_eqI)
  fix n
  assume "n < LENGTH(64)"
  then show "bit (push_bit 32 (ucast (ucast (drop_bit 32 v) :: u32)) OR ucast (ucast v :: u32) :: u64) n
     = bit v n"
    by (cases "n < 32") (auto simp: bit_simps)
qed

lemma length_PutUint32 [simp]: "length (PutUint32 v) = 4"
  by (simp add: PutUint32_def)

lemma marshalUint32_append [codec_simps]: "marshalUint32 b v = b @ PutUint32 v"
  by (simp add: marshalUint32_def PutUint32_def)

lemma length_marshalUint32 [simp]: "length (marshalUint32 b v) = length b + 4"
  by (simp add: marshalUint32_def)

lemma length_marshalUint64 [simp]: "length (marshalUint64 b v) = length b + 8"
  by (simp add: marshalUint64_def)

lemma length_marshalString [simp]: "length (marshalString b v) = length b + 4 + length v"
  by (simp add: marshalString_def)

text \<open>What the appending encoders add, as functions of the value alone.\<close>

definition PutUint64 :: "u64 \<Rightarrow> bytes" where
  "PutUint64 v = PutUint32 (ucast (drop_bit 32 v)) @ PutUint32 (ucast v)"

definition PutString :: "string \<Rightarrow> bytes" where
  "PutString v = PutUint32 (word_of_nat (length v)) @ bytes_of v"

definition PutExtensionPair :: "extensionPair \<Rightarrow> bytes" where
  "PutExtensionPair e = PutString (ep_Name e) @ PutString (ep_Data e)"

lemma length_PutUint64 [simp]: "length (PutUint64 v) = 8"
  by (simp add: PutUint64_def)

lemma length_PutString [simp]: "length (PutString s) = length s + 4"
  by (simp add: PutString_def)

lemma marshalUint64_append [codec_simps]: "marshalUint64 b v = b @ PutUint64 v"
  by (simp add: marshalUint64_def marshalUint32_append PutUint64_def)

lemma marshalString_append [codec_simps]: "marshalString b v = b @ PutString v"
  by (simp add: marshalString_def marshalUint32_append PutString_def)

lemma marshalExtensionPair_append [codec_simps]: "marshalExtensionPair b e = b @ PutExtensionPair e"
  by (simp add: marshalExtensionPair_def marshalString_append PutExtensionPair_def)

lemma unmarshalUint32_Put: "unmarshalUint32 (PutUint32 v @ rest) = Some (v, rest)"
proof -
  let ?b = "PutUint32 v @ rest"
  have "?b ! 0 = ucast (drop_bit 24 v)" "?b ! 1 = ucast (drop_bit 16 v)"
    "?b ! 2 = ucast (drop_bit 8 v)" "?b ! 3 = ucast v" "drop 4 ?b = rest" "\<not> length ?b < 4"
    by (simp_all add: PutUint32_def)
  then show ?thesis
    by (simp only: unmarshalUint32_def if_False be32_bits)
qed

lemma unmarshalUint32Safe_Put [codec_simps]:
  "unmarshalUint32Safe (PutUint32 v @ rest) = Inr (v, rest)"
  by (simp add: unmarshalUint32Safe_def unmarshalUint32_Put)

lemma unmarshalUint64Safe_Put [codec_simps]:
  "unmarshalUint64Safe (PutUint64 v @ rest) = Inr (v, rest)"
  by (simp add: unmarshalUint64Safe_def unmarshalUint64_def PutUint64_def
      unmarshalUint32_Put be64_bits)

text \<open>
  A string is faithfully encoded when its length fits the \<open>uint32\<close> in front of it.
\<close>

definition fits32 :: "'a list \<Rightarrow> bool" where
  "fits32 xs \<longleftrightarrow> length xs < 2 ^ 32"

lemma unmarshalStringSafe_Put [codec_simps]:
  "fits32 s \<Longrightarrow> unmarshalStringSafe (PutString s @ rest) = Inr (s, rest)"
  by (simp add: unmarshalStringSafe_def PutString_def unmarshalUint32Safe_Put fits32_def)

interpretation uint32: codec PutUint32 unmarshalUint32Safe "\<lambda>_. True"
  by unfold_locales (rule unmarshalUint32Safe_Put)

interpretation uint64: codec PutUint64 unmarshalUint64Safe "\<lambda>_. True"
  by unfold_locales (rule unmarshalUint64Safe_Put)

interpretation str: codec PutString unmarshalStringSafe fits32
  by unfold_locales (rule unmarshalStringSafe_Put)

definition fits_pair :: "extensionPair \<Rightarrow> bool" where
  "fits_pair e \<longleftrightarrow> fits32 (ep_Name e) \<and> fits32 (ep_Data e)"

interpretation pair: codec PutExtensionPair unmarshalExtensionPair fits_pair
  by unfold_locales (simp add: unmarshalExtensionPair_def fits_pair_def PutExtensionPair_def
      unmarshalStringSafe_Put)

lemmas uint32_whole = uint32.dec_enc_all [OF TrueI]
  and uint64_whole = uint64.dec_enc_all [OF TrueI]
  and str_whole = str.dec_enc_all
  and pair_whole = pair.dec_enc_all

declare uint32_whole [codec_simps] uint64_whole [codec_simps] str_whole [codec_simps]
  pair_whole [codec_simps] pair.dec_enc [codec_simps]

section \<open>What a decoder consumes\<close>

text \<open>The safe decoders never read past the end, and what they leave is a suffix.\<close>

lemma unmarshalUint32Safe_length:
  "unmarshalUint32Safe b = Inr (v, r) \<Longrightarrow> length b = length r + 4"
  by (auto simp: unmarshalUint32Safe_def unmarshalUint32_def split: if_splits)

lemma unmarshalUint32Safe_iff: "(\<exists>e. unmarshalUint32Safe b = Inl e) \<longleftrightarrow> length b < 4"
  by (simp add: unmarshalUint32Safe_def)

lemma unmarshalStringSafe_length:
  "unmarshalStringSafe b = Inr (s, r) \<Longrightarrow> length b = length r + length s + 4"
  by (auto simp: unmarshalStringSafe_def split: sum.splits if_splits
      dest!: unmarshalUint32Safe_length)

lemma unmarshalExtensionPair_length:
  "unmarshalExtensionPair b = Inr (e, r) \<Longrightarrow> length r + 8 \<le> length b"
  by (auto simp: unmarshalExtensionPair_def split: sum.splits
      dest!: unmarshalStringSafe_length)

section \<open>Framing\<close>

text \<open>
  \<open>copy(dst[i:], src)\<close> overwrites as many bytes as both sides have. \<open>io.ReadFull\<close> on a
  reader that will deliver \<open>rd_data\<close> and then the error \<open>rd_err\<close>: it returns that error
  when nothing was read, \<open>io.ErrUnexpectedEOF\<close> when the stream ended in the middle.
\<close>

definition copy_at :: "nat \<Rightarrow> 'a list \<Rightarrow> 'a list \<Rightarrow> 'a list" where
  "copy_at i dst src = take i dst @ take (length dst - i) src @ drop (i + length src) dst"

record reader =
  rd_data :: bytes
  rd_err :: goerr

definition io_ReadFull :: "reader \<Rightarrow> nat \<Rightarrow> (goerr + bytes) \<times> reader" where
  "io_ReadFull r n =
     (if n \<le> length (rd_data r) then (Inr (take n (rd_data r)), r\<lparr>rd_data := drop n (rd_data r)\<rparr>)
      else (Inl (if rd_data r \<noteq> [] \<and> rd_err r = IoEOF then IoUnexpectedEOF else rd_err r),
            r\<lparr>rd_data := []\<rparr>))"

definition maxMsgLength :: nat where
  "maxMsgLength = 256 * 1024"

fun error_text :: "goerr \<Rightarrow> string" where
  "error_text ErrShortPacket = ''packet too short''"
| "error_text ErrLongPacket = ''packet too long''"
| "error_text ErrUnknownExtendedPacket = ''packet type <nil>: unknown extended packet''"
| "error_text IoEOF = ''EOF''"
| "error_text IoUnexpectedEOF = ''unexpected EOF''"
| "error_text (SysErrno n) = errno_text n"
| "error_text (PathError opn p e) = opn @ '' '' @ p @ '': '' @ error_text e"
| "error_text (LinkError opn p q e) = opn @ '' '' @ p @ '' '' @ q @ '': '' @ error_text e"
| "error_text (Fxerr n) =
     (if n = 0 then ''OK'' else if n = 1 then ''EOF'' else if n = 2 then ''No Such File''
      else if n = 3 then ''Permission Denied'' else if n = 5 then ''Bad Message''
      else if n = 6 then ''No Connection'' else if n = 7 then ''Connection Lost''
      else if n = 8 then ''Operation Unsupported'' else ''Failure'')"
| "error_text (ErrorString s) = s"

text \<open>
  \<open>sendPacket\<close> slides the packet down four bytes to make room for the length. The writer
  is a parameter: \<open>io.Writer\<close> is an interface.
\<close>

definition sendPacket :: "('w \<Rightarrow> bytes \<Rightarrow> 'w \<times> goerr option) \<Rightarrow> 'w \<Rightarrow> goerr + bytes
    \<Rightarrow> 'w \<times> goerr option" where
  "sendPacket write w m =
     (case m of Inl e \<Rightarrow> (w, Some (ErrorString (''binary marshaller failed: '' @ error_text e)))
      | Inr bb \<Rightarrow>
        (let packet = bb @ replicate 4 0;
             packet = copy_at 4 packet bb;
             packet = copy_at 0 packet (PutUint32 (word_of_nat (length bb)))
         in case write w packet of
              (w', None) \<Rightarrow> (w', None)
            | (w', Some e) \<Rightarrow> (w', Some (ErrorString (''failed to send packet: '' @ error_text e)))))"

text \<open>
  With an allocator the receive buffer is a page of \<open>maxMsgLength\<close> bytes marked with the
  order id of the request; without one the buffers are made for the purpose. What is read
  is the same. \<open>unmarshalUint32\<close> is applied to the four bytes just read.
\<close>

definition recvPacket :: "reader \<Rightarrow> allocator option \<Rightarrow> u32
    \<Rightarrow> (goerr + u8 \<times> bytes) \<times> reader \<times> allocator option" where
  "recvPacket r alloc orderID =
     (let alloc = map_option (\<lambda>a. snd (GetPage a orderID)) alloc
      in case io_ReadFull r 4 of
           (Inl e, r) \<Rightarrow> (Inl e, r, alloc)
         | (Inr b, r) \<Rightarrow>
           (let len = fst (the (unmarshalUint32 b))
            in if unat len > maxMsgLength then (Inl ErrLongPacket, r, alloc)
               else if len = 0 then (Inl ErrShortPacket, r, alloc)
               else (case io_ReadFull r (unat len) of
                       (Inl e, r) \<Rightarrow> (Inl e, r, alloc)
                     | (Inr b, r) \<Rightarrow> (Inr (b ! 0, take (unat len - 1) (drop 1 b)), r, alloc))))"

lemma frame_bytes:
  "sendPacket write w (Inr bb) =
     (case write w (PutUint32 (word_of_nat (length bb)) @ bb) of
        (w', None) \<Rightarrow> (w', None)
      | (w', Some e) \<Rightarrow> (w', Some (ErrorString (''failed to send packet: '' @ error_text e))))"
proof -
  have "copy_at 0 (copy_at 4 (bb @ replicate 4 0) bb) (PutUint32 (word_of_nat (length bb)))
      = PutUint32 (word_of_nat (length bb)) @ bb"
    by (simp add: copy_at_def)
  then show ?thesis by (simp only: sendPacket_def Let_def sum.case)
qed

lemma recvPacket_frame:
  assumes "bb \<noteq> []" and "length bb \<le> maxMsgLength"
    and "rd_data r = PutUint32 (word_of_nat (length bb)) @ bb @ rest"
  shows "recvPacket r alloc orderID =
     (Inr (hd bb, tl bb), r\<lparr>rd_data := rest\<rparr>, map_option (\<lambda>a. snd (GetPage a orderID)) alloc)"
proof -
  have len: "unat (word_of_nat (length bb) :: u32) = length bb"
    using assms(2) by (simp add: maxMsgLength_def)
  have pos: "(word_of_nat (length bb) :: u32) \<noteq> 0"
    using len assms(1) by auto
  have one: "io_ReadFull r 4 = (Inr (PutUint32 (word_of_nat (length bb))), r\<lparr>rd_data := bb @ rest\<rparr>)"
    using assms(3) by (simp add: io_ReadFull_def)
  have two: "io_ReadFull (r\<lparr>rd_data := bb @ rest\<rparr>) (length bb) = (Inr bb, r\<lparr>rd_data := rest\<rparr>)"
    by (simp add: io_ReadFull_def)
  have "unmarshalUint32 (PutUint32 (word_of_nat (length bb))) = Some (word_of_nat (length bb), [])"
    using unmarshalUint32_Put [of _ "[]"] by simp
  moreover have "bb ! 0 = hd bb" and "take (length bb - 1) (drop 1 bb) = tl bb"
    using assms(1) by (simp_all add: hd_conv_nth drop_Suc)
  ultimately show ?thesis
    using assms(2) pos by (simp add: recvPacket_def Let_def one two len)
qed

text \<open>Whatever arrives, a packet that is delivered is non-empty and within the limit.\<close>

lemma io_ReadFull_Inr:
  "io_ReadFull r n = (Inr b, r') \<Longrightarrow> length b = n \<and> rd_data r = b @ rd_data r'"
  by (auto simp: io_ReadFull_def split: if_splits)

lemma Put_be32_bits:
  fixes b0 b1 b2 b3 :: u8
  defines "v \<equiv> (ucast b3 OR push_bit 8 (ucast b2) OR push_bit 16 (ucast b1)
      OR push_bit 24 (ucast b0) :: u32)"
  shows "ucast (drop_bit 24 v) = b0" "ucast (drop_bit 16 v) = b1" "ucast (drop_bit 8 v) = b2"
    "ucast v = b3"
  by (rule bit_word_eqI, auto simp: v_def bit_simps dest: bit_imp_le_length)+

lemma PutUint32_unmarshalUint32:
  assumes "length b = 4"
  shows "PutUint32 (fst (the (unmarshalUint32 b))) = b"
proof -
  from assms obtain b0 b1 b2 b3 where b: "b = [b0, b1, b2, b3]"
    by (auto simp: length_Suc_conv numeral_eq_Suc)
  have "fst (the (unmarshalUint32 b)) = (ucast b3 OR push_bit 8 (ucast b2)
      OR push_bit 16 (ucast b1) OR push_bit 24 (ucast b0))"
    by (simp add: b unmarshalUint32_def)
  then show ?thesis
    by (simp only: PutUint32_def Put_be32_bits b)
qed

lemma recvPacket_bounds:
  assumes "recvPacket r alloc orderID = (Inr (ty, payload), r', alloc')"
  shows "length payload < maxMsgLength \<and>
    rd_data r = PutUint32 (word_of_nat (Suc (length payload))) @ ty # payload @ rd_data r'"
proof -
  obtain b r1 where one: "io_ReadFull r 4 = (Inr b, r1)"
    using assms by (auto simp: recvPacket_def Let_def split: prod.splits sum.splits)
  define n where "n = fst (the (unmarshalUint32 b))"
  have lim: "unat n \<le> maxMsgLength" and pos: "n \<noteq> 0"
    using assms by (auto simp: recvPacket_def Let_def one n_def split: prod.splits sum.splits if_splits)
  obtain c where two: "io_ReadFull r1 (unat n) = (Inr c, r')"
    and ty: "ty = c ! 0" and pl: "payload = take (unat n - 1) (drop 1 c)"
    using assms lim pos
    by (auto simp: recvPacket_def Let_def one n_def [symmetric] split: prod.splits sum.splits if_splits)
  from io_ReadFull_Inr [OF one] have b: "length b = 4" "rd_data r = b @ rd_data r1" by simp_all
  from io_ReadFull_Inr [OF two] have c: "length c = unat n" "rd_data r1 = c @ rd_data r'" by simp_all
  have "unat n \<noteq> 0" using pos by (simp add: unat_eq_0)
  with c(1) have cons: "c = ty # payload" and len: "Suc (length payload) = unat n"
    by (cases c; simp add: ty pl)+
  have "PutUint32 n = b" using PutUint32_unmarshalUint32 [OF b(1)] by (simp add: n_def)
  with b(2) c(2) cons have "rd_data r = PutUint32 n @ ty # payload @ rd_data r'" by simp
  moreover have "word_of_nat (Suc (length payload)) = n" unfolding len by simp
  moreover have "length payload < maxMsgLength" using len lim by linarith
  ultimately show ?thesis by (simp only: simp_thms)
qed

end
