(* ===== verification/Sftp_Attrs.thy ===== *)
theory Sftp_Attrs
  imports Sftp_Wire
begin

unbundle bit_operations_syntax

text \<open>
  File attributes: \<^verbatim>\<open>src/sftp/attrs.go\<close> (the variable-length attribute block),
  \<^verbatim>\<open>attrs_unix.go\<close>, \<^verbatim>\<open>request-attrs.go\<close> (flag words as booleans), the mode
  conversions of \<^verbatim>\<open>stat_posix.go\<close>, and the long listing of \<^verbatim>\<open>server.go\<close> and
  \<^verbatim>\<open>server_unix.go\<close>. An \<open>os.FileInfo\<close> is the record \<open>fileInfo\<close>: sizes and times are the
  64-bit words of Go's \<open>int64\<close>, the mode is the 32-bit word of \<open>os.FileMode\<close>, and \<open>fi_sys\<close>
  is the dynamic value of \<open>Sys()\<close>.
\<close>

section \<open>Flags, file information, file status\<close>

definition sshFileXferAttrSize :: u32 where "sshFileXferAttrSize = 0x00000001"
definition sshFileXferAttrUIDGID :: u32 where "sshFileXferAttrUIDGID = 0x00000002"
definition sshFileXferAttrPermissions :: u32 where "sshFileXferAttrPermissions = 0x00000004"
definition sshFileXferAttrACmodTime :: u32 where "sshFileXferAttrACmodTime = 0x00000008"
definition sshFileXferAttrExtented :: u32 where "sshFileXferAttrExtented = 0x80000000"

lemmas attr_flag_defs = sshFileXferAttrSize_def sshFileXferAttrUIDGID_def
  sshFileXferAttrPermissions_def sshFileXferAttrACmodTime_def sshFileXferAttrExtented_def

record StatExtended =
  ExtType :: string
  ExtData :: string

record FileStat =
  st_Size :: u64
  st_Mode :: u32
  st_Mtime :: u32
  st_Atime :: u32
  st_UID :: u32
  st_GID :: u32
  st_Extended :: "StatExtended list"

definition zeroFileStat :: FileStat where
  "zeroFileStat = \<lparr>st_Size = 0, st_Mode = 0, st_Mtime = 0, st_Atime = 0, st_UID = 0, st_GID = 0,
     st_Extended = []\<rparr>"

record SftpFileAttr =
  at_Nlink :: u64
  at_Uid :: u32
  at_Gid :: u32
  at_Uname :: string
  at_Gname :: string

datatype sysval =
    SysNil
  | SysStat_t (sys_nlink: u64) (sys_uid: u32) (sys_gid: u32)
  | SysSftpFileAttr SftpFileAttr
  | SysFileStat FileStat

record fileInfo =
  fi_name :: string
  fi_size :: u64
  fi_mode :: u32
  fi_mtime :: u64
  fi_sys :: sysval

section \<open>Modes\<close>

definition ModeDir :: u32 where "ModeDir = 2 ^ 31"
definition ModeSymlink :: u32 where "ModeSymlink = 2 ^ 27"
definition ModeDevice :: u32 where "ModeDevice = 2 ^ 26"
definition ModeNamedPipe :: u32 where "ModeNamedPipe = 2 ^ 25"
definition ModeSocket :: u32 where "ModeSocket = 2 ^ 24"
definition ModeSetuid :: u32 where "ModeSetuid = 2 ^ 23"
definition ModeSetgid :: u32 where "ModeSetgid = 2 ^ 22"
definition ModeCharDevice :: u32 where "ModeCharDevice = 2 ^ 21"
definition ModeSticky :: u32 where "ModeSticky = 2 ^ 20"
definition ModeIrregular :: u32 where "ModeIrregular = 2 ^ 19"
definition ModePerm :: u32 where "ModePerm = 0x1FF"

definition ModeType :: u32 where
  "ModeType = ModeDir OR ModeSymlink OR ModeNamedPipe OR ModeSocket OR ModeDevice
     OR ModeCharDevice OR ModeIrregular"

lemmas mode_defs = ModeDir_def ModeSymlink_def ModeDevice_def ModeNamedPipe_def ModeSocket_def
  ModeSetuid_def ModeSetgid_def ModeCharDevice_def ModeSticky_def ModeIrregular_def
  ModePerm_def ModeType_def

definition S_IFMT :: u32 where "S_IFMT = 0xF000"
definition S_IFBLK :: u32 where "S_IFBLK = 0x6000"
definition S_IFCHR :: u32 where "S_IFCHR = 0x2000"
definition S_IFDIR :: u32 where "S_IFDIR = 0x4000"
definition S_IFIFO :: u32 where "S_IFIFO = 0x1000"
definition S_IFLNK :: u32 where "S_IFLNK = 0xA000"
definition S_IFREG :: u32 where "S_IFREG = 0x8000"
definition S_IFSOCK :: u32 where "S_IFSOCK = 0xC000"
definition S_ISUID :: u32 where "S_ISUID = 0x800"
definition S_ISGID :: u32 where "S_ISGID = 0x400"
definition S_ISVTX :: u32 where "S_ISVTX = 0x200"

lemmas stat_defs = S_IFMT_def S_IFBLK_def S_IFCHR_def S_IFDIR_def S_IFIFO_def S_IFLNK_def
  S_IFREG_def S_IFSOCK_def S_ISUID_def S_ISGID_def S_ISVTX_def

definition toFileMode :: "u32 \<Rightarrow> u32" where
  "toFileMode mode =
     (let fm = mode AND 0x1FF;
          t = mode AND S_IFMT;
          fm = (if t = S_IFBLK then fm OR ModeDevice
                else if t = S_IFCHR then fm OR (ModeDevice OR ModeCharDevice)
                else if t = S_IFDIR then fm OR ModeDir
                else if t = S_IFIFO then fm OR ModeNamedPipe
                else if t = S_IFLNK then fm OR ModeSymlink
                else if t = S_IFREG then fm
                else if t = S_IFSOCK then fm OR ModeSocket
                else fm);
          fm = (if mode AND S_ISGID \<noteq> 0 then fm OR ModeSetgid else fm);
          fm = (if mode AND S_ISUID \<noteq> 0 then fm OR ModeSetuid else fm);
          fm = (if mode AND S_ISVTX \<noteq> 0 then fm OR ModeSticky else fm)
      in fm)"

definition fromFileMode :: "u32 \<Rightarrow> u32" where
  "fromFileMode mode =
     (let ret = 0;
          ret = (if mode AND ModeDevice \<noteq> 0
                 then (if mode AND ModeCharDevice \<noteq> 0 then ret OR S_IFCHR else ret OR S_IFBLK)
                 else ret);
          ret = (if mode AND ModeDir \<noteq> 0 then ret OR S_IFDIR else ret);
          ret = (if mode AND ModeSymlink \<noteq> 0 then ret OR S_IFLNK else ret);
          ret = (if mode AND ModeNamedPipe \<noteq> 0 then ret OR S_IFIFO else ret);
          ret = (if mode AND ModeSetgid \<noteq> 0 then ret OR S_ISGID else ret);
          ret = (if mode AND ModeSetuid \<noteq> 0 then ret OR S_ISUID else ret);
          ret = (if mode AND ModeSticky \<noteq> 0 then ret OR S_ISVTX else ret);
          ret = (if mode AND ModeSocket \<noteq> 0 then ret OR S_IFSOCK else ret);
          ret = (if mode AND ModeType = 0 then ret OR S_IFREG else ret);
          ret = ret OR (mode AND ModePerm)
      in ret)"

definition mode_IsDir :: "u32 \<Rightarrow> bool" where
  "mode_IsDir m = (m AND ModeDir \<noteq> 0)"

definition mode_IsRegular :: "u32 \<Rightarrow> bool" where
  "mode_IsRegular m = (m AND ModeType = 0)"

section \<open>The attribute block\<close>

definition fileInfoFromStat :: "FileStat \<Rightarrow> string \<Rightarrow> fileInfo" where
  "fileInfoFromStat st name =
     \<lparr>fi_name = name, fi_size = st_Size st, fi_mode = toFileMode (st_Mode st),
      fi_mtime = ucast (st_Mtime st), fi_sys = SysFileStat st\<rparr>"

definition fileStatFromInfoOs :: "fileInfo \<Rightarrow> u32 \<times> FileStat \<Rightarrow> u32 \<times> FileStat" where
  "fileStatFromInfoOs fi = (\<lambda>(flags, fileStat).
     (case fi_sys fi of
        SysStat_t nlink uid gid \<Rightarrow>
          (flags OR sshFileXferAttrUIDGID, fileStat\<lparr>st_UID := uid, st_GID := gid\<rparr>)
      | _ \<Rightarrow> (flags, fileStat)))"

definition fileStatFromInfo :: "fileInfo \<Rightarrow> u32 \<times> FileStat" where
  "fileStatFromInfo fi =
     (let mtime = fi_mtime fi; atime = mtime;
          flags = sshFileXferAttrSize OR sshFileXferAttrPermissions OR sshFileXferAttrACmodTime;
          fileStat = zeroFileStat\<lparr>st_Size := fi_size fi, st_Mode := fromFileMode (fi_mode fi),
             st_Mtime := ucast mtime, st_Atime := ucast atime\<rparr>
      in fileStatFromInfoOs fi (flags, fileStat))"

definition marshalFileInfo :: "bytes \<Rightarrow> fileInfo \<Rightarrow> bytes" where
  "marshalFileInfo b fi =
     (let (flags, fileStat) = fileStatFromInfo fi;
          b = marshalUint32 b flags;
          b = (if flags AND sshFileXferAttrSize \<noteq> 0 then marshalUint64 b (st_Size fileStat) else b);
          b = (if flags AND sshFileXferAttrUIDGID \<noteq> 0
               then marshalUint32 (marshalUint32 b (st_UID fileStat)) (st_GID fileStat) else b);
          b = (if flags AND sshFileXferAttrPermissions \<noteq> 0
               then marshalUint32 b (st_Mode fileStat) else b);
          b = (if flags AND sshFileXferAttrACmodTime \<noteq> 0
               then marshalUint32 (marshalUint32 b (st_Atime fileStat)) (st_Mtime fileStat) else b)
      in b)"

text \<open>
  \<open>getFileStat\<close> drops the errors of the safe decoders: a field that is not there is zero,
  and nothing after it is read, because the decoder returned a nil slice.
\<close>

definition uint32OrZero :: "bytes \<Rightarrow> u32 \<times> bytes" where
  "uint32OrZero b = (case unmarshalUint32Safe b of Inl _ \<Rightarrow> (0, []) | Inr r \<Rightarrow> r)"

definition uint64OrZero :: "bytes \<Rightarrow> u64 \<times> bytes" where
  "uint64OrZero b = (case unmarshalUint64Safe b of Inl _ \<Rightarrow> (0, []) | Inr r \<Rightarrow> r)"

definition stringOrEmpty :: "bytes \<Rightarrow> string \<times> bytes" where
  "stringOrEmpty b = (case unmarshalStringSafe b of Inl _ \<Rightarrow> ([], []) | Inr r \<Rightarrow> r)"

fun readExtended :: "nat \<Rightarrow> bytes \<Rightarrow> StatExtended list \<times> bytes" where
  "readExtended 0 b = ([], b)"
| "readExtended (Suc n) b =
     (let (typ, b) = stringOrEmpty b; (data, b) = stringOrEmpty b;
          (ext, b) = readExtended n b
      in (\<lparr>ExtType = typ, ExtData = data\<rparr> # ext, b))"

definition getFileStat :: "u32 \<Rightarrow> bytes \<Rightarrow> FileStat \<times> bytes" where
  "getFileStat flags b =
     (let fs = zeroFileStat;
          (fs, b) = (if flags AND sshFileXferAttrSize = sshFileXferAttrSize
             then (let (v, b) = uint64OrZero b in (fs\<lparr>st_Size := v\<rparr>, b)) else (fs, b));
          (fs, b) = (if flags AND sshFileXferAttrUIDGID = sshFileXferAttrUIDGID
             then (let (v, b) = uint32OrZero b in (fs\<lparr>st_UID := v\<rparr>, b)) else (fs, b));
          (fs, b) = (if flags AND sshFileXferAttrUIDGID = sshFileXferAttrUIDGID
             then (let (v, b) = uint32OrZero b in (fs\<lparr>st_GID := v\<rparr>, b)) else (fs, b));
          (fs, b) = (if flags AND sshFileXferAttrPermissions = sshFileXferAttrPermissions
             then (let (v, b) = uint32OrZero b in (fs\<lparr>st_Mode := v\<rparr>, b)) else (fs, b));
          (fs, b) = (if flags AND sshFileXferAttrACmodTime = sshFileXferAttrACmodTime
             then (let (v, b) = uint32OrZero b; (w, b) = uint32OrZero b
                   in (fs\<lparr>st_Atime := v, st_Mtime := w\<rparr>, b)) else (fs, b));
          (fs, b) = (if flags AND sshFileXferAttrExtented = sshFileXferAttrExtented
             then (let (count, b) = uint32OrZero b; (ext, b) = readExtended (unat count) b
                   in (fs\<lparr>st_Extended := ext\<rparr>, b)) else (fs, b))
      in (fs, b))"

definition unmarshalAttrs :: "bytes \<Rightarrow> (FileStat \<times> bytes) option" where
  "unmarshalAttrs b =
     (case unmarshalUint32 b of None \<Rightarrow> None | Some (flags, b) \<Rightarrow> Some (getFileStat flags b))"

section \<open>Flag words as booleans\<close>

definition sshFxfRead :: u32 where "sshFxfRead = 0x01"
definition sshFxfWrite :: u32 where "sshFxfWrite = 0x02"
definition sshFxfAppend :: u32 where "sshFxfAppend = 0x04"
definition sshFxfCreat :: u32 where "sshFxfCreat = 0x08"
definition sshFxfTrunc :: u32 where "sshFxfTrunc = 0x10"
definition sshFxfExcl :: u32 where "sshFxfExcl = 0x20"

lemmas fxf_defs = sshFxfRead_def sshFxfWrite_def sshFxfAppend_def sshFxfCreat_def
  sshFxfTrunc_def sshFxfExcl_def

record FileOpenFlags =
  fo_Read :: bool
  fo_Write :: bool
  fo_Append :: bool
  fo_Creat :: bool
  fo_Trunc :: bool
  fo_Excl :: bool

definition newFileOpenFlags :: "u32 \<Rightarrow> FileOpenFlags" where
  "newFileOpenFlags flags =
     \<lparr>fo_Read = (flags AND sshFxfRead \<noteq> 0), fo_Write = (flags AND sshFxfWrite \<noteq> 0),
      fo_Append = (flags AND sshFxfAppend \<noteq> 0), fo_Creat = (flags AND sshFxfCreat \<noteq> 0),
      fo_Trunc = (flags AND sshFxfTrunc \<noteq> 0), fo_Excl = (flags AND sshFxfExcl \<noteq> 0)\<rparr>"

record FileAttrFlags =
  fa_Size :: bool
  fa_UidGid :: bool
  fa_Permissions :: bool
  fa_Acmodtime :: bool

definition newFileAttrFlags :: "u32 \<Rightarrow> FileAttrFlags" where
  "newFileAttrFlags flags =
     \<lparr>fa_Size = (flags AND sshFileXferAttrSize \<noteq> 0),
      fa_UidGid = (flags AND sshFileXferAttrUIDGID \<noteq> 0),
      fa_Permissions = (flags AND sshFileXferAttrPermissions \<noteq> 0),
      fa_Acmodtime = (flags AND sshFileXferAttrACmodTime \<noteq> 0)\<rparr>"

text \<open>\<open>FileStat.FileMode\<close> reinterprets the wire bits as an \<open>os.FileMode\<close>, with no conversion.\<close>

definition FileStat_FileMode :: "FileStat \<Rightarrow> u32" where
  "FileStat_FileMode a = st_Mode a"

section \<open>Long listing\<close>

definition runLsTypeWord :: "u32 \<Rightarrow> string" where
  "runLsTypeWord mode =
     (let tc = (if mode AND ModeDir \<noteq> 0 then CHR ''d''
                else if mode AND ModeDevice \<noteq> 0
                then (if mode AND ModeCharDevice \<noteq> 0 then CHR ''c'' else CHR ''b'')
                else if mode AND ModeSymlink \<noteq> 0 then CHR ''l''
                else if mode AND ModeSocket \<noteq> 0 then CHR ''s''
                else if mode AND ModeNamedPipe \<noteq> 0 then CHR ''p''
                else CHR ''-'');
          orc = (if mode AND 0x100 \<noteq> 0 then CHR ''r'' else CHR ''-'');
          owc = (if mode AND 0x80 \<noteq> 0 then CHR ''w'' else CHR ''-'');
          ox = (mode AND 0x40 \<noteq> 0);
          setuid = (mode AND ModeSetuid \<noteq> 0);
          oxc = (if ox \<and> setuid then CHR ''s'' else if setuid then CHR ''S''
                 else if ox then CHR ''x'' else CHR ''-'');
          grc = (if mode AND 0x20 \<noteq> 0 then CHR ''r'' else CHR ''-'');
          gwc = (if mode AND 0x10 \<noteq> 0 then CHR ''w'' else CHR ''-'');
          gx = (mode AND 0x08 \<noteq> 0);
          setgid = (mode AND ModeSetgid \<noteq> 0);
          gxc = (if gx \<and> setgid then CHR ''s'' else if setgid then CHR ''S''
                 else if gx then CHR ''x'' else CHR ''-'');
          arc = (if mode AND 0x04 \<noteq> 0 then CHR ''r'' else CHR ''-'');
          awc = (if mode AND 0x02 \<noteq> 0 then CHR ''w'' else CHR ''-'');
          ax = (mode AND 0x01 \<noteq> 0);
          sticky = (mode AND ModeSticky \<noteq> 0);
          axc = (if ax \<and> sticky then CHR ''t'' else if sticky then CHR ''T''
                 else if ax then CHR ''x'' else CHR ''-'')
      in [tc, orc, owc, oxc, grc, gwc, gxc, arc, awc, axc])"

section \<open>Reading back an attribute block\<close>

lemma uint32OrZero_Put [codec_simps]: "uint32OrZero (PutUint32 v @ rest) = (v, rest)"
  by (simp add: uint32OrZero_def codec_simps)

lemma uint64OrZero_Put [codec_simps]: "uint64OrZero (PutUint64 v @ rest) = (v, rest)"
  by (simp add: uint64OrZero_def codec_simps)

text \<open>The two flag words that \<open>marshalFileInfo\<close> writes.\<close>

lemma fileStatFromInfo_flags:
  "fst (fileStatFromInfo fi) = (case fi_sys fi of SysStat_t _ _ _ \<Rightarrow> 0xF | _ \<Rightarrow> 0xD)"
  by (simp add: fileStatFromInfo_def fileStatFromInfoOs_def attr_flag_defs Let_def
      split: sysval.splits)

lemma marshalFileInfo_bytes:
  "marshalFileInfo b fi =
     b @ PutUint32 (fst (fileStatFromInfo fi)) @ PutUint64 (fi_size fi)
       @ (case fi_sys fi of SysStat_t _ u g \<Rightarrow> PutUint32 u @ PutUint32 g | _ \<Rightarrow> [])
       @ PutUint32 (fromFileMode (fi_mode fi)) @ PutUint32 (ucast (fi_mtime fi))
       @ PutUint32 (ucast (fi_mtime fi))"
  by (cases "fi_sys fi")
    (simp_all add: marshalFileInfo_def fileStatFromInfo_def fileStatFromInfoOs_def
      attr_flag_defs codec_simps Let_def)

lemma unmarshalAttrs_marshalFileInfo:
  "unmarshalAttrs (marshalFileInfo [] fi @ rest) = Some (snd (fileStatFromInfo fi), rest)"
  by (cases "fi_sys fi")
    (simp_all add: marshalFileInfo_bytes unmarshalAttrs_def unmarshalUint32_Put getFileStat_def
      fileStatFromInfo_def fileStatFromInfoOs_def attr_flag_defs codec_simps Let_def zeroFileStat_def)

lemma readExtended_length: "length (fst (readExtended n b)) = n"
  by (induction n arbitrary: b) (auto simp: Let_def split: prod.splits, metis fst_conv)

section \<open>Mode conversions\<close>

lemma and_exp_nonzero: "(m AND 2 ^ n \<noteq> 0) \<longleftrightarrow> bit m n" for m :: u32
  by (simp add: and_exp_eq_0_iff_not_bit)

lemma perm_mask: "(0x1FF :: u32) = mask 9"
  by (simp add: mask_eq_exp_minus_1)

lemma special_bits: "S_ISUID = 2 ^ 11" "S_ISGID = 2 ^ 10" "S_ISVTX = 2 ^ 9"
  by (simp_all add: stat_defs)

lemma bit_exp_u32: "k < 32 \<Longrightarrow> bit (2 ^ k :: u32) n \<longleftrightarrow> n = k"
  by (auto simp: bit_exp_iff)

lemma bit_special: "bit S_ISUID n \<longleftrightarrow> n = 11" "bit S_ISGID n \<longleftrightarrow> n = 10" "bit S_ISVTX n \<longleftrightarrow> n = 9"
  unfolding special_bits by (rule bit_exp_u32, simp)+

lemma bit_modes: "bit ModeDir n \<longleftrightarrow> n = 31" "bit ModeSymlink n \<longleftrightarrow> n = 27"
  "bit ModeDevice n \<longleftrightarrow> n = 26" "bit ModeNamedPipe n \<longleftrightarrow> n = 25" "bit ModeSocket n \<longleftrightarrow> n = 24"
  "bit ModeSetuid n \<longleftrightarrow> n = 23" "bit ModeSetgid n \<longleftrightarrow> n = 22" "bit ModeCharDevice n \<longleftrightarrow> n = 21"
  "bit ModeSticky n \<longleftrightarrow> n = 20" "bit ModeIrregular n \<longleftrightarrow> n = 19"
  unfolding mode_defs by (rule bit_exp_u32, simp)+

lemma mode_tests: "(m AND ModeDir \<noteq> 0) = bit m 31" "(m AND ModeSymlink \<noteq> 0) = bit m 27"
  "(m AND ModeDevice \<noteq> 0) = bit m 26" "(m AND ModeNamedPipe \<noteq> 0) = bit m 25"
  "(m AND ModeSocket \<noteq> 0) = bit m 24" "(m AND ModeSetuid \<noteq> 0) = bit m 23"
  "(m AND ModeSetgid \<noteq> 0) = bit m 22" "(m AND ModeCharDevice \<noteq> 0) = bit m 21"
  "(m AND ModeSticky \<noteq> 0) = bit m 20"
  unfolding mode_defs by (rule and_exp_nonzero)+

text \<open>A wire mode names one of the seven file types and has no bits above the low sixteen.\<close>

definition wire_mode :: "u32 \<Rightarrow> bool" where
  "wire_mode m \<longleftrightarrow> m AND S_IFMT \<in> {S_IFBLK, S_IFCHR, S_IFDIR, S_IFIFO, S_IFLNK, S_IFREG, S_IFSOCK}
     \<and> (\<forall>n \<ge> 16. \<not> bit m n)"

definition special_mode :: "u32 \<Rightarrow> u32" where
  "special_mode m = (if bit m 10 then ModeSetgid else 0) OR (if bit m 11 then ModeSetuid else 0)
     OR (if bit m 9 then ModeSticky else 0)"

definition type_mode :: "u32 \<Rightarrow> u32" where
  "type_mode t = (if t = S_IFBLK then ModeDevice else if t = S_IFCHR then ModeDevice OR ModeCharDevice
     else if t = S_IFDIR then ModeDir else if t = S_IFIFO then ModeNamedPipe
     else if t = S_IFLNK then ModeSymlink else if t = S_IFREG then 0
     else if t = S_IFSOCK then ModeSocket else 0)"

lemma toFileMode_parts:
  "toFileMode m = (m AND mask 9) OR type_mode (m AND S_IFMT) OR special_mode m"
  unfolding toFileMode_def type_mode_def special_mode_def Let_def special_bits and_exp_nonzero perm_mask
  by (simp add: or.assoc)

lemma S_IFMT_mask: "S_IFMT = push_bit 12 (mask 4)"
  by (simp add: S_IFMT_def mask_eq_exp_minus_1)

lemma wire_mode_parts:
  assumes "\<forall>n \<ge> 16. \<not> bit m n"
  shows "m = (m AND S_IFMT) OR (if bit m 10 then S_ISGID else 0) OR (if bit m 11 then S_ISUID else 0)
     OR (if bit m 9 then S_ISVTX else 0) OR (m AND mask 9)"
proof (rule bit_word_eqI)
  fix n
  assume "n < LENGTH(32)"
  consider "n < 9" | "n = 9" | "n = 10" | "n = 11" | "12 \<le> n" "n < 16" | "16 \<le> n" by linarith
  then show "bit m n = bit ((m AND S_IFMT) OR (if bit m 10 then S_ISGID else 0)
     OR (if bit m 11 then S_ISUID else 0) OR (if bit m 9 then S_ISVTX else 0) OR (m AND mask 9)) n"
    by cases (use assms in \<open>auto simp: bit_special S_IFMT_mask bit_simps\<close>)
qed

lemma fromFileMode_bits:
  "fromFileMode m =
     (if bit m 26 then (if bit m 21 then S_IFCHR else S_IFBLK) else 0)
     OR (if bit m 31 then S_IFDIR else 0) OR (if bit m 27 then S_IFLNK else 0)
     OR (if bit m 25 then S_IFIFO else 0) OR (if bit m 22 then S_ISGID else 0)
     OR (if bit m 23 then S_ISUID else 0) OR (if bit m 20 then S_ISVTX else 0)
     OR (if bit m 24 then S_IFSOCK else 0)
     OR (if m AND ModeType = 0 then S_IFREG else 0) OR (m AND mask 9)"
proof -
  have if_or: "(if c then r OR k else r) = r OR (if c then k else 0)" for c and r k :: u32
    by simp
  show ?thesis
    unfolding fromFileMode_def Let_def ModePerm_def perm_mask mode_tests if_or
    by (simp only: or.assoc or.left_neutral)
qed

lemma ModeType_zero:
  "m AND ModeType = 0 \<longleftrightarrow> \<not> bit m 31 \<and> \<not> bit m 27 \<and> \<not> bit m 25 \<and> \<not> bit m 24 \<and> \<not> bit m 26
     \<and> \<not> bit m 21 \<and> \<not> bit m 19"
proof -
  have "m AND ModeType = 0 \<longleftrightarrow> (\<forall>n. \<not> bit (m AND ModeType) n)"
    by (auto intro: bit_word_eqI)
  also have "\<dots> \<longleftrightarrow> \<not> bit m 31 \<and> \<not> bit m 27 \<and> \<not> bit m 25 \<and> \<not> bit m 24 \<and> \<not> bit m 26
     \<and> \<not> bit m 21 \<and> \<not> bit m 19"
    by (auto simp: ModeType_def bit_modes bit_and_iff bit_or_iff)
  finally show ?thesis .
qed

lemma bit_special_mode:
  "bit (special_mode m) n \<longleftrightarrow> n = 22 \<and> bit m 10 \<or> n = 23 \<and> bit m 11 \<or> n = 20 \<and> bit m 9"
  by (auto simp: special_mode_def bit_modes bit_or_iff)

lemma type_mode_simps: "type_mode S_IFBLK = ModeDevice"
  "type_mode S_IFCHR = ModeDevice OR ModeCharDevice" "type_mode S_IFDIR = ModeDir"
  "type_mode S_IFIFO = ModeNamedPipe" "type_mode S_IFLNK = ModeSymlink" "type_mode S_IFREG = 0"
  "type_mode S_IFSOCK = ModeSocket"
  by (simp_all add: type_mode_def stat_defs)

lemma go_mode_low: "(m AND mask 9 OR type_mode t OR special_mode m) AND mask 9 = m AND mask 9"
proof -
  have "\<not> bit (type_mode t) n" if "n < 9" for n
    using that by (auto simp: type_mode_def bit_modes bit_or_iff)
  then show ?thesis
    by (intro bit_word_eqI) (auto simp: bit_simps bit_special_mode)
qed

lemma fromFileMode_parts:
  assumes "t \<in> {S_IFBLK, S_IFCHR, S_IFDIR, S_IFIFO, S_IFLNK, S_IFREG, S_IFSOCK}"
  shows "fromFileMode (m AND mask 9 OR type_mode t OR special_mode m)
    = t OR (if bit m 10 then S_ISGID else 0) OR (if bit m 11 then S_ISUID else 0)
       OR (if bit m 9 then S_ISVTX else 0) OR (m AND mask 9)"
  unfolding fromFileMode_bits ModeType_zero go_mode_low
  using assms by (elim insertE emptyE)
    (simp_all add: type_mode_simps bit_modes bit_special_mode bit_or_iff bit_and_iff bit_mask_iff
      or.assoc or.left_commute or.commute)

lemma fromFileMode_toFileMode: "wire_mode m \<Longrightarrow> fromFileMode (toFileMode m) = m"
  unfolding toFileMode_parts wire_mode_def
  by (metis fromFileMode_parts wire_mode_parts)

lemma getFileStat_ext_length:
  assumes "flags AND sshFileXferAttrExtented = sshFileXferAttrExtented"
    and "flags AND sshFileXferAttrSize \<noteq> sshFileXferAttrSize"
    and "flags AND sshFileXferAttrUIDGID \<noteq> sshFileXferAttrUIDGID"
    and "flags AND sshFileXferAttrPermissions \<noteq> sshFileXferAttrPermissions"
    and "flags AND sshFileXferAttrACmodTime \<noteq> sshFileXferAttrACmodTime"
  shows "length (st_Extended (fst (getFileStat flags (PutUint32 n @ rest)))) = unat n"
  using assms readExtended_length [of "unat n" rest]
  by (auto simp: getFileStat_def codec_simps split: prod.split)

section \<open>Properties\<close>

text \<open>
  C36. The attribute block that the server writes for a file and the client reads back: the
  size, the mode in its POSIX encoding, both times and, when the platform provides them, the
  owner and the group come back unchanged, and the bytes behind the block are untouched.
\<close>

theorem attrs_roundtrip:
  "\<exists>st. unmarshalAttrs (marshalFileInfo [] fi @ rest) = Some (st, rest)
     \<and> st_Size st = fi_size fi \<and> st_Mode st = fromFileMode (fi_mode fi)
     \<and> st_Mtime st = ucast (fi_mtime fi) \<and> st_Atime st = ucast (fi_mtime fi)
     \<and> (case fi_sys fi of SysStat_t _ u g \<Rightarrow> st_UID st = u \<and> st_GID st = g
        | _ \<Rightarrow> st_UID st = 0 \<and> st_GID st = 0)
     \<and> st_Extended st = []"
  unfolding unmarshalAttrs_marshalFileInfo
  by (simp add: fileStatFromInfo_def fileStatFromInfoOs_def zeroFileStat_def Let_def
      split: sysval.split)

text \<open>
  The two mode conversions are inverse on the modes that a POSIX server sends: one of the
  seven file types, the permission bits and any of setuid, setgid and sticky.
\<close>

theorem mode_roundtrip: "wire_mode m \<Longrightarrow> fromFileMode (toFileMode m) = m"
  by (rule fromFileMode_toFileMode)

theorem mode_roundtrip_witness: "fromFileMode (toFileMode 0x89ED) = 0x89ED"
proof (rule mode_roundtrip)
  have "(0x89ED :: u32) = take_bit 16 0x89ED" by simp
  then have "\<not> bit (0x89ED :: u32) n" if "16 \<le> n" for n
    using that by (metis bit_take_bit_iff not_less)
  then show "wire_mode 0x89ED" by (simp add: wire_mode_def stat_defs)
qed

text \<open>
  The extended attributes are not bounded by the data: a block that announces \<open>n\<close> pairs
  makes \<open>getFileStat\<close> build \<open>n\<close> pairs even when no byte follows, so that eight bytes on
  the wire cost up to four billion entries.
\<close>

lemma extended_count_unchecked:
  "length (st_Extended (fst (getFileStat sshFileXferAttrExtented (PutUint32 n)))) = unat n"
  using getFileStat_ext_length [of sshFileXferAttrExtented n "[]"]
  by (simp add: attr_flag_defs)

end
