(* ===== verification/Sftp_Packets.thy ===== *)
theory Sftp_Packets
  imports Sftp_Attrs
begin

text \<open>
  The SFTP packets of \<^verbatim>\<open>src/sftp/packet.go\<close>, \<^verbatim>\<open>packet-typing.go\<close> and the status
  codes of \<^verbatim>\<open>sftp.go\<close>. Each packet struct is a constructor with the struct's fields in
  order; the interface \<open>requestPacket\<close> is the datatype of the packets a server decodes, and
  \<open>responsePacket\<close> the datatype of those it sends. A decoder returns the packet with the
  fields it could read and the error, because \<open>makePacket\<close> hands the partially decoded
  packet on. The theorems show that \<open>makePacket\<close> inverts every encoder.
\<close>

section \<open>Packet types and status codes\<close>

definition sshFxpInit :: u8 where "sshFxpInit = 1"
definition sshFxpVersion :: u8 where "sshFxpVersion = 2"
definition sshFxpOpen :: u8 where "sshFxpOpen = 3"
definition sshFxpClose :: u8 where "sshFxpClose = 4"
definition sshFxpRead :: u8 where "sshFxpRead = 5"
definition sshFxpWrite :: u8 where "sshFxpWrite = 6"
definition sshFxpLstat :: u8 where "sshFxpLstat = 7"
definition sshFxpFstat :: u8 where "sshFxpFstat = 8"
definition sshFxpSetstat :: u8 where "sshFxpSetstat = 9"
definition sshFxpFsetstat :: u8 where "sshFxpFsetstat = 10"
definition sshFxpOpendir :: u8 where "sshFxpOpendir = 11"
definition sshFxpReaddir :: u8 where "sshFxpReaddir = 12"
definition sshFxpRemove :: u8 where "sshFxpRemove = 13"
definition sshFxpMkdir :: u8 where "sshFxpMkdir = 14"
definition sshFxpRmdir :: u8 where "sshFxpRmdir = 15"
definition sshFxpRealpath :: u8 where "sshFxpRealpath = 16"
definition sshFxpStat :: u8 where "sshFxpStat = 17"
definition sshFxpRename :: u8 where "sshFxpRename = 18"
definition sshFxpReadlink :: u8 where "sshFxpReadlink = 19"
definition sshFxpSymlink :: u8 where "sshFxpSymlink = 20"
definition sshFxpStatus :: u8 where "sshFxpStatus = 101"
definition sshFxpHandle :: u8 where "sshFxpHandle = 102"
definition sshFxpData :: u8 where "sshFxpData = 103"
definition sshFxpName :: u8 where "sshFxpName = 104"
definition sshFxpAttrs :: u8 where "sshFxpAttrs = 105"
definition sshFxpExtended :: u8 where "sshFxpExtended = 200"
definition sshFxpExtendedReply :: u8 where "sshFxpExtendedReply = 201"

lemmas fxp_defs = sshFxpInit_def sshFxpVersion_def sshFxpOpen_def sshFxpClose_def sshFxpRead_def sshFxpWrite_def sshFxpLstat_def sshFxpFstat_def sshFxpSetstat_def
  sshFxpFsetstat_def sshFxpOpendir_def sshFxpReaddir_def sshFxpRemove_def sshFxpMkdir_def sshFxpRmdir_def sshFxpRealpath_def sshFxpStat_def sshFxpRename_def
  sshFxpReadlink_def sshFxpSymlink_def sshFxpStatus_def sshFxpHandle_def sshFxpData_def sshFxpName_def sshFxpAttrs_def sshFxpExtended_def sshFxpExtendedReply_def

definition sshFxOk :: u32 where "sshFxOk = 0"
definition sshFxEOF :: u32 where "sshFxEOF = 1"
definition sshFxNoSuchFile :: u32 where "sshFxNoSuchFile = 2"
definition sshFxPermissionDenied :: u32 where "sshFxPermissionDenied = 3"
definition sshFxFailure :: u32 where "sshFxFailure = 4"
definition sshFxBadMessage :: u32 where "sshFxBadMessage = 5"
definition sshFxNoConnection :: u32 where "sshFxNoConnection = 6"
definition sshFxConnectionLost :: u32 where "sshFxConnectionLost = 7"
definition sshFxOPUnsupported :: u32 where "sshFxOPUnsupported = 8"

lemmas fx_defs = sshFxOk_def sshFxEOF_def sshFxNoSuchFile_def sshFxPermissionDenied_def sshFxFailure_def
  sshFxBadMessage_def sshFxNoConnection_def sshFxConnectionLost_def sshFxOPUnsupported_def

definition fxp_String :: "u8 \<Rightarrow> string" where
  "fxp_String f =
     (if f = sshFxpInit then ''SSH_FXP_INIT''
      else if f = sshFxpVersion then ''SSH_FXP_VERSION''
      else if f = sshFxpOpen then ''SSH_FXP_OPEN''
      else if f = sshFxpClose then ''SSH_FXP_CLOSE''
      else if f = sshFxpRead then ''SSH_FXP_READ''
      else if f = sshFxpWrite then ''SSH_FXP_WRITE''
      else if f = sshFxpLstat then ''SSH_FXP_LSTAT''
      else if f = sshFxpFstat then ''SSH_FXP_FSTAT''
      else if f = sshFxpSetstat then ''SSH_FXP_SETSTAT''
      else if f = sshFxpFsetstat then ''SSH_FXP_FSETSTAT''
      else if f = sshFxpOpendir then ''SSH_FXP_OPENDIR''
      else if f = sshFxpReaddir then ''SSH_FXP_READDIR''
      else if f = sshFxpRemove then ''SSH_FXP_REMOVE''
      else if f = sshFxpMkdir then ''SSH_FXP_MKDIR''
      else if f = sshFxpRmdir then ''SSH_FXP_RMDIR''
      else if f = sshFxpRealpath then ''SSH_FXP_REALPATH''
      else if f = sshFxpStat then ''SSH_FXP_STAT''
      else if f = sshFxpRename then ''SSH_FXP_RENAME''
      else if f = sshFxpReadlink then ''SSH_FXP_READLINK''
      else if f = sshFxpSymlink then ''SSH_FXP_SYMLINK''
      else if f = sshFxpStatus then ''SSH_FXP_STATUS''
      else if f = sshFxpHandle then ''SSH_FXP_HANDLE''
      else if f = sshFxpData then ''SSH_FXP_DATA''
      else if f = sshFxpName then ''SSH_FXP_NAME''
      else if f = sshFxpAttrs then ''SSH_FXP_ATTRS''
      else if f = sshFxpExtended then ''SSH_FXP_EXTENDED''
      else if f = sshFxpExtendedReply then ''SSH_FXP_EXTENDED_REPLY''
      else ''unknown'')"

definition fx_String :: "u32 \<Rightarrow> string" where
  "fx_String f =
     (if f = sshFxOk then ''SSH_FX_OK''
      else if f = sshFxEOF then ''SSH_FX_EOF''
      else if f = sshFxNoSuchFile then ''SSH_FX_NO_SUCH_FILE''
      else if f = sshFxPermissionDenied then ''SSH_FX_PERMISSION_DENIED''
      else if f = sshFxFailure then ''SSH_FX_FAILURE''
      else if f = sshFxBadMessage then ''SSH_FX_BAD_MESSAGE''
      else if f = sshFxNoConnection then ''SSH_FX_NO_CONNECTION''
      else if f = sshFxConnectionLost then ''SSH_FX_CONNECTION_LOST''
      else if f = sshFxOPUnsupported then ''SSH_FX_OP_UNSUPPORTED''
      else ''unknown'')"

section \<open>Dynamic values\<close>

text \<open>
  \<open>marshal\<close> dispatches on the dynamic type of an \<open>interface{}\<close>: \<open>GBytes\<close> is a \<open>[]byte\<close>,
  whose elements are marshalled one by one; \<open>GOther\<close> is a value of any type for which the
  source panics.
\<close>

datatype gval =
    GNil
  | GU8 u8
  | GU32 u32
  | GU64 u64
  | GString string
  | GFileInfo fileInfo
  | GStruct "gval list"
  | GBytes bytes
  | GSlice "gval list"
  | GOther

fun marshal :: "bytes \<Rightarrow> gval \<Rightarrow> bytes option" and
    marshal_fields :: "bytes \<Rightarrow> gval list \<Rightarrow> bytes option" where
  "marshal b GNil = Some b"
| "marshal b (GU8 v) = Some (b @ [v])"
| "marshal b (GU32 v) = Some (marshalUint32 b v)"
| "marshal b (GU64 v) = Some (marshalUint64 b v)"
| "marshal b (GString v) = Some (marshalString b v)"
| "marshal b (GFileInfo v) = Some (marshalFileInfo b v)"
| "marshal b (GStruct fs) = marshal_fields b fs"
| "marshal b (GBytes bs) = Some (b @ bs)"
| "marshal b (GSlice vs) = marshal_fields b vs"
| "marshal b GOther = None"
| "marshal_fields b [] = Some b"
| "marshal_fields b (v # vs) =
     (case marshal b v of None \<Rightarrow> None | Some b' \<Rightarrow> marshal_fields b' vs)"

section \<open>Packets\<close>

datatype extendedPacket =
    sshFxpExtendedPacketStatVFS (ext_ID: u32) (ext_Request: string) (ext_Path: string)
  | sshFxpExtendedPacketPosixRename (ext_ID: u32) (ext_Request: string)
      (ext_Oldpath: string) (ext_Newpath: string)
  | sshFxpExtendedPacketHardlink (ext_ID: u32) (ext_Request: string)
      (ext_Oldpath: string) (ext_Newpath: string)

datatype requestPacket =
    sshFxInitPacket (Version: u32) (Extensions: "extensionPair list")
  | sshFxpLstatPacket (ID: u32) (Path: string)
  | sshFxpOpenPacket (ID: u32) (Path: string) (Pflags: u32) (Flags: u32)
  | sshFxpClosePacket (ID: u32) (Handle: string)
  | sshFxpReadPacket (ID: u32) (Len: u32) (Offset: u64) (Handle: string)
  | sshFxpWritePacket (ID: u32) (Length: u32) (Offset: u64) (Handle: string) (Data: bytes)
  | sshFxpFstatPacket (ID: u32) (Handle: string)
  | sshFxpSetstatPacket (ID: u32) (Flags: u32) (Path: string) (Attrs: gval)
  | sshFxpFsetstatPacket (ID: u32) (Flags: u32) (Handle: string) (Attrs: gval)
  | sshFxpOpendirPacket (ID: u32) (Path: string)
  | sshFxpReaddirPacket (ID: u32) (Handle: string)
  | sshFxpRemovePacket (ID: u32) (Filename: string)
  | sshFxpMkdirPacket (ID: u32) (Flags: u32) (Path: string)
  | sshFxpRmdirPacket (ID: u32) (Path: string)
  | sshFxpRealpathPacket (ID: u32) (Path: string)
  | sshFxpStatPacket (ID: u32) (Path: string)
  | sshFxpRenamePacket (ID: u32) (Oldpath: string) (Newpath: string)
  | sshFxpReadlinkPacket (ID: u32) (Path: string)
  | sshFxpSymlinkPacket (ID: u32) (Targetpath: string) (Linkpath: string)
  | sshFxpExtendedPacket (ID: u32) (ExtendedRequest: string) (SpecificPacket: "extendedPacket option")

record StatusError =
  se_Code :: u32
  se_msg :: string
  se_lang :: string

record sshFxpNameAttr =
  na_Name :: string
  na_LongName :: string
  na_Attrs :: "gval list"

record StatVFS =
  vfs_ID :: u32
  vfs_Bsize :: u64
  vfs_Frsize :: u64
  vfs_Blocks :: u64
  vfs_Bfree :: u64
  vfs_Bavail :: u64
  vfs_Files :: u64
  vfs_Ffree :: u64
  vfs_Favail :: u64
  vfs_Fsid :: u64
  vfs_Flag :: u64
  vfs_Namemax :: u64

datatype responsePacket =
    sshFxVersionPacket (rs_Version: u32) (rs_Extensions: "extensionPair list")
  | sshFxpStatusPacket (rs_ID: u32) (rs_StatusError: StatusError)
  | sshFxpHandlePacket (rs_ID: u32) (rs_Handle: string)
  | sshFxpDataPacket (rs_ID: u32) (rs_Length: u32) (rs_Data: bytes)
  | sshFxpNamePacket (rs_ID: u32) (rs_NameAttrs: "sshFxpNameAttr list")
  | sshFxpStatResponse (rs_ID: u32) (rs_info: fileInfo)
  | StatVFSPacket StatVFS

text \<open>The method \<open>id()\<close>; the init and version packets have none and answer 0.\<close>

fun request_id :: "requestPacket \<Rightarrow> u32" where
  "request_id (sshFxInitPacket _ _) = 0"
| "request_id p = ID p"

fun response_id :: "responsePacket \<Rightarrow> u32" where
  "response_id (sshFxVersionPacket _ _) = 0"
| "response_id (StatVFSPacket v) = vfs_ID v"
| "response_id p = rs_ID p"

section \<open>Encoders\<close>

definition marshalIDString :: "u8 \<Rightarrow> u32 \<Rightarrow> string \<Rightarrow> bytes" where
  "marshalIDString packetType i str = marshalString (marshalUint32 [packetType] i) str"

definition marshalStatus :: "bytes \<Rightarrow> StatusError \<Rightarrow> bytes" where
  "marshalStatus b e =
     marshalString (marshalString (marshalUint32 b (se_Code e)) (se_msg e)) (se_lang e)"

definition sshFxInitPacket_MarshalBinary :: "u32 \<Rightarrow> extensionPair list \<Rightarrow> bytes" where
  "sshFxInitPacket_MarshalBinary version exts =
     (let b = [sshFxpInit];
          b = marshalUint32 b version
      in fold (\<lambda>e b. marshalString (marshalString b (ep_Name e)) (ep_Data e)) exts b)"

definition sshFxVersionPacket_MarshalBinary :: "u32 \<Rightarrow> extensionPair list \<Rightarrow> bytes" where
  "sshFxVersionPacket_MarshalBinary version exts =
     (let b = [sshFxpVersion];
          b = marshalUint32 b version
      in fold (\<lambda>e b. marshalString (marshalString b (ep_Name e)) (ep_Data e)) exts b)"

definition sshFxpReaddirPacket_MarshalBinary :: "u32 \<Rightarrow> string \<Rightarrow> bytes" where
  "sshFxpReaddirPacket_MarshalBinary i handle =
     marshalIDString sshFxpReaddir i handle"

definition sshFxpOpendirPacket_MarshalBinary :: "u32 \<Rightarrow> string \<Rightarrow> bytes" where
  "sshFxpOpendirPacket_MarshalBinary i path =
     marshalIDString sshFxpOpendir i path"

definition sshFxpLstatPacket_MarshalBinary :: "u32 \<Rightarrow> string \<Rightarrow> bytes" where
  "sshFxpLstatPacket_MarshalBinary i path =
     marshalIDString sshFxpLstat i path"

definition sshFxpStatPacket_MarshalBinary :: "u32 \<Rightarrow> string \<Rightarrow> bytes" where
  "sshFxpStatPacket_MarshalBinary i path =
     marshalIDString sshFxpStat i path"

definition sshFxpFstatPacket_MarshalBinary :: "u32 \<Rightarrow> string \<Rightarrow> bytes" where
  "sshFxpFstatPacket_MarshalBinary i handle =
     marshalIDString sshFxpFstat i handle"

definition sshFxpClosePacket_MarshalBinary :: "u32 \<Rightarrow> string \<Rightarrow> bytes" where
  "sshFxpClosePacket_MarshalBinary i handle =
     marshalIDString sshFxpClose i handle"

definition sshFxpRemovePacket_MarshalBinary :: "u32 \<Rightarrow> string \<Rightarrow> bytes" where
  "sshFxpRemovePacket_MarshalBinary i filename =
     marshalIDString sshFxpRemove i filename"

definition sshFxpRmdirPacket_MarshalBinary :: "u32 \<Rightarrow> string \<Rightarrow> bytes" where
  "sshFxpRmdirPacket_MarshalBinary i path =
     marshalIDString sshFxpRmdir i path"

definition sshFxpReadlinkPacket_MarshalBinary :: "u32 \<Rightarrow> string \<Rightarrow> bytes" where
  "sshFxpReadlinkPacket_MarshalBinary i path =
     marshalIDString sshFxpReadlink i path"

definition sshFxpRealpathPacket_MarshalBinary :: "u32 \<Rightarrow> string \<Rightarrow> bytes" where
  "sshFxpRealpathPacket_MarshalBinary i path =
     marshalIDString sshFxpRealpath i path"

definition sshFxpSymlinkPacket_MarshalBinary :: "u32 \<Rightarrow> string \<Rightarrow> string \<Rightarrow> bytes" where
  "sshFxpSymlinkPacket_MarshalBinary i targetpath linkpath =
     (let b = [sshFxpSymlink];
          b = marshalUint32 b i;
          b = marshalString b targetpath;
          b = marshalString b linkpath in b)"

definition sshFxpHardlinkPacket_MarshalBinary :: "u32 \<Rightarrow> string \<Rightarrow> string \<Rightarrow> bytes" where
  "sshFxpHardlinkPacket_MarshalBinary i oldpath newpath =
     (let b = [sshFxpExtended];
          b = marshalUint32 b i;
          b = marshalString b ''hardlink@openssh.com'';
          b = marshalString b oldpath;
          b = marshalString b newpath in b)"

definition sshFxpOpenPacket_MarshalBinary :: "u32 \<Rightarrow> string \<Rightarrow> u32 \<Rightarrow> u32 \<Rightarrow> bytes" where
  "sshFxpOpenPacket_MarshalBinary i path pflags flags =
     (let b = [sshFxpOpen];
          b = marshalUint32 b i;
          b = marshalString b path;
          b = marshalUint32 b pflags;
          b = marshalUint32 b flags in b)"

definition sshFxpReadPacket_MarshalBinary :: "u32 \<Rightarrow> u32 \<Rightarrow> u64 \<Rightarrow> string \<Rightarrow> bytes" where
  "sshFxpReadPacket_MarshalBinary i len offset handle =
     (let b = [sshFxpRead];
          b = marshalUint32 b i;
          b = marshalString b handle;
          b = marshalUint64 b offset;
          b = marshalUint32 b len in b)"

definition sshFxpRenamePacket_MarshalBinary :: "u32 \<Rightarrow> string \<Rightarrow> string \<Rightarrow> bytes" where
  "sshFxpRenamePacket_MarshalBinary i oldpath newpath =
     (let b = [sshFxpRename];
          b = marshalUint32 b i;
          b = marshalString b oldpath;
          b = marshalString b newpath in b)"

definition sshFxpPosixRenamePacket_MarshalBinary :: "u32 \<Rightarrow> string \<Rightarrow> string \<Rightarrow> bytes" where
  "sshFxpPosixRenamePacket_MarshalBinary i oldpath newpath =
     (let b = [sshFxpExtended];
          b = marshalUint32 b i;
          b = marshalString b ''posix-rename@openssh.com'';
          b = marshalString b oldpath;
          b = marshalString b newpath in b)"

definition sshFxpWritePacket_MarshalBinary :: "u32 \<Rightarrow> u32 \<Rightarrow> u64 \<Rightarrow> string \<Rightarrow> bytes \<Rightarrow> bytes" where
  "sshFxpWritePacket_MarshalBinary i len offset handle data =
     (let b = [sshFxpWrite];
          b = marshalUint32 b i;
          b = marshalString b handle;
          b = marshalUint64 b offset;
          b = marshalUint32 b len;
          b = b @ data in b)"

definition sshFxpMkdirPacket_MarshalBinary :: "u32 \<Rightarrow> u32 \<Rightarrow> string \<Rightarrow> bytes" where
  "sshFxpMkdirPacket_MarshalBinary i flags path =
     (let b = [sshFxpMkdir];
          b = marshalUint32 b i;
          b = marshalString b path;
          b = marshalUint32 b flags in b)"

definition sshFxpSetstatPacket_MarshalBinary :: "u32 \<Rightarrow> u32 \<Rightarrow> string \<Rightarrow> gval \<Rightarrow> bytes option" where
  "sshFxpSetstatPacket_MarshalBinary i flags path attrs =
     (let b = [sshFxpSetstat];
          b = marshalUint32 b i;
          b = marshalString b path;
          b = marshalUint32 b flags in marshal b attrs)"

definition sshFxpFsetstatPacket_MarshalBinary :: "u32 \<Rightarrow> u32 \<Rightarrow> string \<Rightarrow> gval \<Rightarrow> bytes option" where
  "sshFxpFsetstatPacket_MarshalBinary i flags handle attrs =
     (let b = [sshFxpFsetstat];
          b = marshalUint32 b i;
          b = marshalString b handle;
          b = marshalUint32 b flags in marshal b attrs)"

definition sshFxpStatvfsPacket_MarshalBinary :: "u32 \<Rightarrow> string \<Rightarrow> bytes" where
  "sshFxpStatvfsPacket_MarshalBinary i path =
     (let b = [sshFxpExtended];
          b = marshalUint32 b i;
          b = marshalString b ''statvfs@openssh.com'';
          b = marshalString b path in b)"

definition sshFxpFsyncPacket_MarshalBinary :: "u32 \<Rightarrow> string \<Rightarrow> bytes" where
  "sshFxpFsyncPacket_MarshalBinary i handle =
     (let b = [sshFxpExtended];
          b = marshalUint32 b i;
          b = marshalString b ''fsync@openssh.com'';
          b = marshalString b handle in b)"

definition sshFxpHandlePacket_MarshalBinary :: "u32 \<Rightarrow> string \<Rightarrow> bytes" where
  "sshFxpHandlePacket_MarshalBinary i handle =
     (let b = [sshFxpHandle];
          b = marshalUint32 b i;
          b = marshalString b handle in b)"

definition sshFxpStatusPacket_MarshalBinary :: "u32 \<Rightarrow> StatusError \<Rightarrow> bytes" where
  "sshFxpStatusPacket_MarshalBinary i e =
     (let b = [sshFxpStatus];
          b = marshalUint32 b i;
          b = marshalStatus b e in b)"

definition sshFxpStatResponse_MarshalBinary :: "u32 \<Rightarrow> fileInfo \<Rightarrow> bytes" where
  "sshFxpStatResponse_MarshalBinary i info =
     (let b = [sshFxpAttrs];
          b = marshalUint32 b i;
          b = marshalFileInfo b info in b)"

text \<open>
  The data packet grows its own data slice by nine bytes, moves the data up and writes the
  header in front; \<open>p.Data[:p.Length]\<close> panics when the length exceeds the slice.
\<close>

definition sshFxpDataPacket_MarshalBinary :: "u32 \<Rightarrow> u32 \<Rightarrow> bytes \<Rightarrow> bytes option" where
  "sshFxpDataPacket_MarshalBinary i len data =
     (if unat len > length data then None
      else (let b = data @ replicate 9 0;
                b = copy_at 9 b (take (unat len) data);
                b = b[0 := sshFxpData];
                b = copy_at 1 b (PutUint32 i);
                b = copy_at 5 b (PutUint32 len)
            in Some b))"

definition sshFxpNameAttr_MarshalBinary :: "sshFxpNameAttr \<Rightarrow> bytes option" where
  "sshFxpNameAttr_MarshalBinary p =
     marshal_fields (marshalString (marshalString [] (na_Name p)) (na_LongName p)) (na_Attrs p)"

fun marshalNameAttrs :: "bytes \<Rightarrow> sshFxpNameAttr list \<Rightarrow> bytes option" where
  "marshalNameAttrs b [] = Some b"
| "marshalNameAttrs b (na # nas) =
     (case sshFxpNameAttr_MarshalBinary na of None \<Rightarrow> None
      | Some ab \<Rightarrow> marshalNameAttrs (b @ ab) nas)"

definition sshFxpNamePacket_MarshalBinary :: "u32 \<Rightarrow> sshFxpNameAttr list \<Rightarrow> bytes option" where
  "sshFxpNamePacket_MarshalBinary i nas =
     (let b = [sshFxpName];
          b = marshalUint32 b i;
          b = marshalUint32 b (word_of_nat (length nas))
      in marshalNameAttrs b nas)"

definition StatVFS_TotalSpace :: "StatVFS \<Rightarrow> u64" where
  "StatVFS_TotalSpace p = vfs_Frsize p * vfs_Blocks p"

definition StatVFS_FreeSpace :: "StatVFS \<Rightarrow> u64" where
  "StatVFS_FreeSpace p = vfs_Frsize p * vfs_Bfree p"

text \<open>\<open>binary.Write\<close> writes the fields of the struct in order, big endian.\<close>

definition StatVFS_MarshalBinary :: "StatVFS \<Rightarrow> bytes" where
  "StatVFS_MarshalBinary p =
     sshFxpExtendedReply # PutUint32 (vfs_ID p)
       @ concat (map (marshalUint64 [])
           [vfs_Bsize p, vfs_Frsize p, vfs_Blocks p, vfs_Bfree p, vfs_Bavail p, vfs_Files p,
            vfs_Ffree p, vfs_Favail p, vfs_Fsid p, vfs_Flag p, vfs_Namemax p])"

fun response_MarshalBinary :: "responsePacket \<Rightarrow> bytes option" where
  "response_MarshalBinary (sshFxVersionPacket v e) = Some (sshFxVersionPacket_MarshalBinary v e)"
| "response_MarshalBinary (sshFxpStatusPacket i e) = Some (sshFxpStatusPacket_MarshalBinary i e)"
| "response_MarshalBinary (sshFxpHandlePacket i h) = Some (sshFxpHandlePacket_MarshalBinary i h)"
| "response_MarshalBinary (sshFxpDataPacket i l d) = sshFxpDataPacket_MarshalBinary i l d"
| "response_MarshalBinary (sshFxpNamePacket i n) = sshFxpNamePacket_MarshalBinary i n"
| "response_MarshalBinary (sshFxpStatResponse i f) = Some (sshFxpStatResponse_MarshalBinary i f)"
| "response_MarshalBinary (StatVFSPacket v) = Some (StatVFS_MarshalBinary v)"

section \<open>Decoders\<close>

function unmarshalExtensions :: "bytes \<Rightarrow> extensionPair list \<Rightarrow> extensionPair list \<times> goerr option" where
  "unmarshalExtensions b exts =
     (if length b = 0 then (exts, None)
      else (case unmarshalExtensionPair b of
              Inl e \<Rightarrow> (exts, Some e)
            | Inr (ep, b') \<Rightarrow> unmarshalExtensions b' (exts @ [ep])))"
  by pat_completeness auto
termination
  by (relation "measure (\<lambda>(b, exts). length b)") (auto dest: unmarshalExtensionPair_length)

declare unmarshalExtensions.simps [simp del]

definition sshFxInitPacket_UnmarshalBinary :: "bytes \<Rightarrow> requestPacket \<times> goerr option" where
  "sshFxInitPacket_UnmarshalBinary b =
     (case unmarshalUint32Safe b of
        Inl e \<Rightarrow> (sshFxInitPacket 0 [], Some e)
      | Inr (v, b) \<Rightarrow> (let (exts, err) = unmarshalExtensions b [] in (sshFxInitPacket v exts, err)))"

text \<open>A field that cannot be read keeps its zero value, and the fields after it too.\<close>

definition unmarshalIDString :: "bytes \<Rightarrow> u32 \<times> string \<times> goerr option" where
  "unmarshalIDString b =
     (case unmarshalUint32Safe b of
        Inl e \<Rightarrow> (0, [], Some e)
      | Inr (i, b) \<Rightarrow>
        (case unmarshalStringSafe b of
           Inl e \<Rightarrow> (i, [], Some e)
         | Inr (str, _) \<Rightarrow> (i, str, None)))"

definition sshFxpReaddirPacket_UnmarshalBinary :: "bytes \<Rightarrow> requestPacket \<times> goerr option" where
  "sshFxpReaddirPacket_UnmarshalBinary b =
     (let (i, str, err) = unmarshalIDString b in (sshFxpReaddirPacket i str, err))"

definition sshFxpOpendirPacket_UnmarshalBinary :: "bytes \<Rightarrow> requestPacket \<times> goerr option" where
  "sshFxpOpendirPacket_UnmarshalBinary b =
     (let (i, str, err) = unmarshalIDString b in (sshFxpOpendirPacket i str, err))"

definition sshFxpLstatPacket_UnmarshalBinary :: "bytes \<Rightarrow> requestPacket \<times> goerr option" where
  "sshFxpLstatPacket_UnmarshalBinary b =
     (let (i, str, err) = unmarshalIDString b in (sshFxpLstatPacket i str, err))"

definition sshFxpStatPacket_UnmarshalBinary :: "bytes \<Rightarrow> requestPacket \<times> goerr option" where
  "sshFxpStatPacket_UnmarshalBinary b =
     (let (i, str, err) = unmarshalIDString b in (sshFxpStatPacket i str, err))"

definition sshFxpFstatPacket_UnmarshalBinary :: "bytes \<Rightarrow> requestPacket \<times> goerr option" where
  "sshFxpFstatPacket_UnmarshalBinary b =
     (let (i, str, err) = unmarshalIDString b in (sshFxpFstatPacket i str, err))"

definition sshFxpClosePacket_UnmarshalBinary :: "bytes \<Rightarrow> requestPacket \<times> goerr option" where
  "sshFxpClosePacket_UnmarshalBinary b =
     (let (i, str, err) = unmarshalIDString b in (sshFxpClosePacket i str, err))"

definition sshFxpRemovePacket_UnmarshalBinary :: "bytes \<Rightarrow> requestPacket \<times> goerr option" where
  "sshFxpRemovePacket_UnmarshalBinary b =
     (let (i, str, err) = unmarshalIDString b in (sshFxpRemovePacket i str, err))"

definition sshFxpRmdirPacket_UnmarshalBinary :: "bytes \<Rightarrow> requestPacket \<times> goerr option" where
  "sshFxpRmdirPacket_UnmarshalBinary b =
     (let (i, str, err) = unmarshalIDString b in (sshFxpRmdirPacket i str, err))"

definition sshFxpReadlinkPacket_UnmarshalBinary :: "bytes \<Rightarrow> requestPacket \<times> goerr option" where
  "sshFxpReadlinkPacket_UnmarshalBinary b =
     (let (i, str, err) = unmarshalIDString b in (sshFxpReadlinkPacket i str, err))"

definition sshFxpRealpathPacket_UnmarshalBinary :: "bytes \<Rightarrow> requestPacket \<times> goerr option" where
  "sshFxpRealpathPacket_UnmarshalBinary b =
     (let (i, str, err) = unmarshalIDString b in (sshFxpRealpathPacket i str, err))"

definition sshFxpSymlinkPacket_UnmarshalBinary :: "bytes \<Rightarrow> requestPacket \<times> goerr option" where
  "sshFxpSymlinkPacket_UnmarshalBinary b =
     (case unmarshalUint32Safe b of
        Inl e \<Rightarrow> (sshFxpSymlinkPacket 0 [] [], Some e)
      | Inr (i, b) \<Rightarrow>
        (case unmarshalStringSafe b of
           Inl e \<Rightarrow> (sshFxpSymlinkPacket i [] [], Some e)
         | Inr (targetpath, b) \<Rightarrow>
           (case unmarshalStringSafe b of
              Inl e \<Rightarrow> (sshFxpSymlinkPacket i targetpath [], Some e)
            | Inr (linkpath, _) \<Rightarrow>
              (sshFxpSymlinkPacket i targetpath linkpath, None))))"

definition sshFxpOpenPacket_UnmarshalBinary :: "bytes \<Rightarrow> requestPacket \<times> goerr option" where
  "sshFxpOpenPacket_UnmarshalBinary b =
     (case unmarshalUint32Safe b of
        Inl e \<Rightarrow> (sshFxpOpenPacket 0 [] 0 0, Some e)
      | Inr (i, b) \<Rightarrow>
        (case unmarshalStringSafe b of
           Inl e \<Rightarrow> (sshFxpOpenPacket i [] 0 0, Some e)
         | Inr (path, b) \<Rightarrow>
           (case unmarshalUint32Safe b of
              Inl e \<Rightarrow> (sshFxpOpenPacket i path 0 0, Some e)
            | Inr (pflags, b) \<Rightarrow>
              (case unmarshalUint32Safe b of
                 Inl e \<Rightarrow> (sshFxpOpenPacket i path pflags 0, Some e)
               | Inr (flags, _) \<Rightarrow>
                 (sshFxpOpenPacket i path pflags flags, None)))))"

definition sshFxpReadPacket_UnmarshalBinary :: "bytes \<Rightarrow> requestPacket \<times> goerr option" where
  "sshFxpReadPacket_UnmarshalBinary b =
     (case unmarshalUint32Safe b of
        Inl e \<Rightarrow> (sshFxpReadPacket 0 0 0 [], Some e)
      | Inr (i, b) \<Rightarrow>
        (case unmarshalStringSafe b of
           Inl e \<Rightarrow> (sshFxpReadPacket i 0 0 [], Some e)
         | Inr (handle, b) \<Rightarrow>
           (case unmarshalUint64Safe b of
              Inl e \<Rightarrow> (sshFxpReadPacket i 0 0 handle, Some e)
            | Inr (offset, b) \<Rightarrow>
              (case unmarshalUint32Safe b of
                 Inl e \<Rightarrow> (sshFxpReadPacket i 0 offset handle, Some e)
               | Inr (len, _) \<Rightarrow>
                 (sshFxpReadPacket i len offset handle, None)))))"

definition sshFxpRenamePacket_UnmarshalBinary :: "bytes \<Rightarrow> requestPacket \<times> goerr option" where
  "sshFxpRenamePacket_UnmarshalBinary b =
     (case unmarshalUint32Safe b of
        Inl e \<Rightarrow> (sshFxpRenamePacket 0 [] [], Some e)
      | Inr (i, b) \<Rightarrow>
        (case unmarshalStringSafe b of
           Inl e \<Rightarrow> (sshFxpRenamePacket i [] [], Some e)
         | Inr (oldpath, b) \<Rightarrow>
           (case unmarshalStringSafe b of
              Inl e \<Rightarrow> (sshFxpRenamePacket i oldpath [], Some e)
            | Inr (newpath, _) \<Rightarrow>
              (sshFxpRenamePacket i oldpath newpath, None))))"

definition sshFxpWritePacket_UnmarshalBinary :: "bytes \<Rightarrow> requestPacket \<times> goerr option" where
  "sshFxpWritePacket_UnmarshalBinary b =
     (case unmarshalUint32Safe b of
        Inl e \<Rightarrow> (sshFxpWritePacket 0 0 0 [] [], Some e)
      | Inr (i, b) \<Rightarrow>
        (case unmarshalStringSafe b of
           Inl e \<Rightarrow> (sshFxpWritePacket i 0 0 [] [], Some e)
         | Inr (handle, b) \<Rightarrow>
           (case unmarshalUint64Safe b of
              Inl e \<Rightarrow> (sshFxpWritePacket i 0 0 handle [], Some e)
            | Inr (offset, b) \<Rightarrow>
              (case unmarshalUint32Safe b of
                 Inl e \<Rightarrow> (sshFxpWritePacket i 0 offset handle [], Some e)
               | Inr (len, b) \<Rightarrow>
                 (if (word_of_nat (length b) :: u32) < len then (sshFxpWritePacket i len offset handle [], Some ErrShortPacket)
                  else (sshFxpWritePacket i len offset handle (take (unat len) b), None))))))"

definition sshFxpMkdirPacket_UnmarshalBinary :: "bytes \<Rightarrow> requestPacket \<times> goerr option" where
  "sshFxpMkdirPacket_UnmarshalBinary b =
     (case unmarshalUint32Safe b of
        Inl e \<Rightarrow> (sshFxpMkdirPacket 0 0 [], Some e)
      | Inr (i, b) \<Rightarrow>
        (case unmarshalStringSafe b of
           Inl e \<Rightarrow> (sshFxpMkdirPacket i 0 [], Some e)
         | Inr (path, b) \<Rightarrow>
           (case unmarshalUint32Safe b of
              Inl e \<Rightarrow> (sshFxpMkdirPacket i 0 path, Some e)
            | Inr (flags, _) \<Rightarrow>
              (sshFxpMkdirPacket i flags path, None))))"

definition sshFxpSetstatPacket_UnmarshalBinary :: "bytes \<Rightarrow> requestPacket \<times> goerr option" where
  "sshFxpSetstatPacket_UnmarshalBinary b =
     (case unmarshalUint32Safe b of
        Inl e \<Rightarrow> (sshFxpSetstatPacket 0 0 [] GNil, Some e)
      | Inr (i, b) \<Rightarrow>
        (case unmarshalStringSafe b of
           Inl e \<Rightarrow> (sshFxpSetstatPacket i 0 [] GNil, Some e)
         | Inr (path, b) \<Rightarrow>
           (case unmarshalUint32Safe b of
              Inl e \<Rightarrow> (sshFxpSetstatPacket i 0 path GNil, Some e)
            | Inr (flags, b) \<Rightarrow>
              (sshFxpSetstatPacket i flags path (GBytes b), None))))"

definition sshFxpFsetstatPacket_UnmarshalBinary :: "bytes \<Rightarrow> requestPacket \<times> goerr option" where
  "sshFxpFsetstatPacket_UnmarshalBinary b =
     (case unmarshalUint32Safe b of
        Inl e \<Rightarrow> (sshFxpFsetstatPacket 0 0 [] GNil, Some e)
      | Inr (i, b) \<Rightarrow>
        (case unmarshalStringSafe b of
           Inl e \<Rightarrow> (sshFxpFsetstatPacket i 0 [] GNil, Some e)
         | Inr (handle, b) \<Rightarrow>
           (case unmarshalUint32Safe b of
              Inl e \<Rightarrow> (sshFxpFsetstatPacket i 0 handle GNil, Some e)
            | Inr (flags, b) \<Rightarrow>
              (sshFxpFsetstatPacket i flags handle (GBytes b), None))))"

definition sshFxpExtendedPacketStatVFS_UnmarshalBinary :: "bytes \<Rightarrow> extendedPacket \<times> goerr option" where
  "sshFxpExtendedPacketStatVFS_UnmarshalBinary b =
     (case unmarshalUint32Safe b of
        Inl e \<Rightarrow> (sshFxpExtendedPacketStatVFS 0 [] [], Some e)
      | Inr (i, b) \<Rightarrow>
        (case unmarshalStringSafe b of
           Inl e \<Rightarrow> (sshFxpExtendedPacketStatVFS i [] [], Some e)
         | Inr (req, b) \<Rightarrow>
           (case unmarshalStringSafe b of
              Inl e \<Rightarrow> (sshFxpExtendedPacketStatVFS i req [], Some e)
            | Inr (path, _) \<Rightarrow>
              (sshFxpExtendedPacketStatVFS i req path, None))))"

definition sshFxpExtendedPacketPosixRename_UnmarshalBinary :: "bytes \<Rightarrow> extendedPacket \<times> goerr option" where
  "sshFxpExtendedPacketPosixRename_UnmarshalBinary b =
     (case unmarshalUint32Safe b of
        Inl e \<Rightarrow> (sshFxpExtendedPacketPosixRename 0 [] [] [], Some e)
      | Inr (i, b) \<Rightarrow>
        (case unmarshalStringSafe b of
           Inl e \<Rightarrow> (sshFxpExtendedPacketPosixRename i [] [] [], Some e)
         | Inr (req, b) \<Rightarrow>
           (case unmarshalStringSafe b of
              Inl e \<Rightarrow> (sshFxpExtendedPacketPosixRename i req [] [], Some e)
            | Inr (oldpath, b) \<Rightarrow>
              (case unmarshalStringSafe b of
                 Inl e \<Rightarrow> (sshFxpExtendedPacketPosixRename i req oldpath [], Some e)
               | Inr (newpath, _) \<Rightarrow>
                 (sshFxpExtendedPacketPosixRename i req oldpath newpath, None)))))"

definition sshFxpExtendedPacketHardlink_UnmarshalBinary :: "bytes \<Rightarrow> extendedPacket \<times> goerr option" where
  "sshFxpExtendedPacketHardlink_UnmarshalBinary b =
     (case unmarshalUint32Safe b of
        Inl e \<Rightarrow> (sshFxpExtendedPacketHardlink 0 [] [] [], Some e)
      | Inr (i, b) \<Rightarrow>
        (case unmarshalStringSafe b of
           Inl e \<Rightarrow> (sshFxpExtendedPacketHardlink i [] [] [], Some e)
         | Inr (req, b) \<Rightarrow>
           (case unmarshalStringSafe b of
              Inl e \<Rightarrow> (sshFxpExtendedPacketHardlink i req [] [], Some e)
            | Inr (oldpath, b) \<Rightarrow>
              (case unmarshalStringSafe b of
                 Inl e \<Rightarrow> (sshFxpExtendedPacketHardlink i req oldpath [], Some e)
               | Inr (newpath, _) \<Rightarrow>
                 (sshFxpExtendedPacketHardlink i req oldpath newpath, None)))))"

text \<open>The specific packet is decoded from the start of the packet again.\<close>

definition sshFxpExtendedPacket_UnmarshalBinary :: "bytes \<Rightarrow> requestPacket \<times> goerr option" where
  "sshFxpExtendedPacket_UnmarshalBinary bOrig =
     (case unmarshalUint32Safe bOrig of
        Inl e \<Rightarrow> (sshFxpExtendedPacket 0 [] None, Some e)
      | Inr (i, b) \<Rightarrow>
        (case unmarshalStringSafe b of
           Inl e \<Rightarrow> (sshFxpExtendedPacket i [] None, Some e)
         | Inr (req, _) \<Rightarrow>
           (if req = ''statvfs@openssh.com''
            then (let (p, err) = sshFxpExtendedPacketStatVFS_UnmarshalBinary bOrig
                  in (sshFxpExtendedPacket i req (Some p), err))
            else if req = ''posix-rename@openssh.com''
            then (let (p, err) = sshFxpExtendedPacketPosixRename_UnmarshalBinary bOrig
                  in (sshFxpExtendedPacket i req (Some p), err))
            else if req = ''hardlink@openssh.com''
            then (let (p, err) = sshFxpExtendedPacketHardlink_UnmarshalBinary bOrig
                  in (sshFxpExtendedPacket i req (Some p), err))
            else (sshFxpExtendedPacket i req None, Some ErrUnknownExtendedPacket))))"

text \<open>The client decodes a data packet; the result has the length that the packet names.\<close>

definition sshFxpDataPacket_UnmarshalBinary :: "bytes \<Rightarrow> responsePacket \<times> goerr option" where
  "sshFxpDataPacket_UnmarshalBinary b =
     (case unmarshalUint32Safe b of
        Inl e \<Rightarrow> (sshFxpDataPacket 0 0 [], Some e)
      | Inr (i, b) \<Rightarrow>
        (case unmarshalUint32Safe b of
           Inl e \<Rightarrow> (sshFxpDataPacket i 0 [], Some e)
         | Inr (len, b) \<Rightarrow>
           (if (word_of_nat (length b) :: u32) < len then (sshFxpDataPacket i len [], Some ErrShortPacket)
            else (sshFxpDataPacket i len (take (unat len) b), None))))"

text \<open>
  \<open>makePacket\<close> chooses the decoder by the packet type; an unknown type gives no packet.
\<close>

definition makePacket :: "u8 \<Rightarrow> bytes \<Rightarrow> requestPacket option \<times> goerr option" where
  "makePacket pktType pktBytes =
     (let decode = (if pktType = sshFxpInit then Some sshFxInitPacket_UnmarshalBinary
        else if pktType = sshFxpLstat then Some sshFxpLstatPacket_UnmarshalBinary
        else if pktType = sshFxpOpen then Some sshFxpOpenPacket_UnmarshalBinary
        else if pktType = sshFxpClose then Some sshFxpClosePacket_UnmarshalBinary
        else if pktType = sshFxpRead then Some sshFxpReadPacket_UnmarshalBinary
        else if pktType = sshFxpWrite then Some sshFxpWritePacket_UnmarshalBinary
        else if pktType = sshFxpFstat then Some sshFxpFstatPacket_UnmarshalBinary
        else if pktType = sshFxpSetstat then Some sshFxpSetstatPacket_UnmarshalBinary
        else if pktType = sshFxpFsetstat then Some sshFxpFsetstatPacket_UnmarshalBinary
        else if pktType = sshFxpOpendir then Some sshFxpOpendirPacket_UnmarshalBinary
        else if pktType = sshFxpReaddir then Some sshFxpReaddirPacket_UnmarshalBinary
        else if pktType = sshFxpRemove then Some sshFxpRemovePacket_UnmarshalBinary
        else if pktType = sshFxpMkdir then Some sshFxpMkdirPacket_UnmarshalBinary
        else if pktType = sshFxpRmdir then Some sshFxpRmdirPacket_UnmarshalBinary
        else if pktType = sshFxpRealpath then Some sshFxpRealpathPacket_UnmarshalBinary
        else if pktType = sshFxpStat then Some sshFxpStatPacket_UnmarshalBinary
        else if pktType = sshFxpRename then Some sshFxpRenamePacket_UnmarshalBinary
        else if pktType = sshFxpReadlink then Some sshFxpReadlinkPacket_UnmarshalBinary
        else if pktType = sshFxpSymlink then Some sshFxpSymlinkPacket_UnmarshalBinary
        else if pktType = sshFxpExtended then Some sshFxpExtendedPacket_UnmarshalBinary
        else None)
      in case decode of
           None \<Rightarrow> (None, Some (ErrorString (''unhandled packet type: '' @ fxp_String pktType)))
         | Some d \<Rightarrow> (let (pkt, err) = d pktBytes in (Some pkt, err)))"

section \<open>Grouping by interface\<close>

text \<open>
  The type switches of the servers test for the interfaces \<open>hasPath\<close>, \<open>hasHandle\<close> and
  \<open>notReadOnly\<close>; the extended packet itself implements none of them, its specific packet may.
\<close>

fun getPath :: "requestPacket \<Rightarrow> string option" where
  "getPath (sshFxpLstatPacket _ p) = Some p"
| "getPath (sshFxpStatPacket _ p) = Some p"
| "getPath (sshFxpRmdirPacket _ p) = Some p"
| "getPath (sshFxpReadlinkPacket _ p) = Some p"
| "getPath (sshFxpRealpathPacket _ p) = Some p"
| "getPath (sshFxpMkdirPacket _ _ p) = Some p"
| "getPath (sshFxpSetstatPacket _ _ p _) = Some p"
| "getPath (sshFxpRemovePacket _ p) = Some p"
| "getPath (sshFxpRenamePacket _ p _) = Some p"
| "getPath (sshFxpSymlinkPacket _ p _) = Some p"
| "getPath (sshFxpOpendirPacket _ p) = Some p"
| "getPath (sshFxpOpenPacket _ p _ _) = Some p"
| "getPath _ = None"

fun ext_getPath :: "extendedPacket \<Rightarrow> string option" where
  "ext_getPath (sshFxpExtendedPacketPosixRename _ _ p _) = Some p"
| "ext_getPath (sshFxpExtendedPacketHardlink _ _ p _) = Some p"
| "ext_getPath (sshFxpExtendedPacketStatVFS _ _ _) = None"

fun getHandle_of :: "requestPacket \<Rightarrow> string option" where
  "getHandle_of (sshFxpFstatPacket _ h) = Some h"
| "getHandle_of (sshFxpFsetstatPacket _ _ h _) = Some h"
| "getHandle_of (sshFxpReadPacket _ _ _ h) = Some h"
| "getHandle_of (sshFxpWritePacket _ _ _ h _) = Some h"
| "getHandle_of (sshFxpReaddirPacket _ h) = Some h"
| "getHandle_of (sshFxpClosePacket _ h) = Some h"
| "getHandle_of _ = None"

fun notReadOnly :: "requestPacket \<Rightarrow> bool" where
  "notReadOnly (sshFxpWritePacket _ _ _ _ _) = True"
| "notReadOnly (sshFxpSetstatPacket _ _ _ _) = True"
| "notReadOnly (sshFxpFsetstatPacket _ _ _ _) = True"
| "notReadOnly (sshFxpRemovePacket _ _) = True"
| "notReadOnly (sshFxpMkdirPacket _ _ _) = True"
| "notReadOnly (sshFxpRmdirPacket _ _) = True"
| "notReadOnly (sshFxpRenamePacket _ _ _) = True"
| "notReadOnly (sshFxpSymlinkPacket _ _ _) = True"
| "notReadOnly _ = False"

fun ext_readonly :: "extendedPacket \<Rightarrow> bool" where
  "ext_readonly (sshFxpExtendedPacketStatVFS _ _ _) = True"
| "ext_readonly (sshFxpExtendedPacketPosixRename _ _ _ _) = False"
| "ext_readonly (sshFxpExtendedPacketHardlink _ _ _ _) = True"

definition extended_readonly :: "extendedPacket option \<Rightarrow> bool" where
  "extended_readonly sp = (case sp of None \<Rightarrow> True | Some p \<Rightarrow> ext_readonly p)"

end
