(* ===== verification/Sftp_Roundtrip.thy ===== *)
theory Sftp_Roundtrip
  imports Sftp_Packets
begin

text \<open>
  The theorems on the packet encoders and decoders of \<open>Sftp_Packets\<close>: decoding inverts
  encoding for every request, through the framing of \<open>Sftp_Wire\<close> as well; decoding of
  arbitrary bytes keeps the request identifier and fails only in the documented ways.
\<close>

section \<open>Decoding inverts encoding\<close>

text \<open>
  The encoder of each request packet; the requests behind the extended packet have encoders
  of their own, which the client calls.
\<close>

fun request_MarshalBinary :: "requestPacket \<Rightarrow> bytes option" where
  "request_MarshalBinary (sshFxInitPacket v e) = Some (sshFxInitPacket_MarshalBinary v e)"
| "request_MarshalBinary (sshFxpLstatPacket i s) = Some (sshFxpLstatPacket_MarshalBinary i s)"
| "request_MarshalBinary (sshFxpClosePacket i s) = Some (sshFxpClosePacket_MarshalBinary i s)"
| "request_MarshalBinary (sshFxpFstatPacket i s) = Some (sshFxpFstatPacket_MarshalBinary i s)"
| "request_MarshalBinary (sshFxpOpendirPacket i s) = Some (sshFxpOpendirPacket_MarshalBinary i s)"
| "request_MarshalBinary (sshFxpReaddirPacket i s) = Some (sshFxpReaddirPacket_MarshalBinary i s)"
| "request_MarshalBinary (sshFxpRemovePacket i s) = Some (sshFxpRemovePacket_MarshalBinary i s)"
| "request_MarshalBinary (sshFxpRmdirPacket i s) = Some (sshFxpRmdirPacket_MarshalBinary i s)"
| "request_MarshalBinary (sshFxpRealpathPacket i s) = Some (sshFxpRealpathPacket_MarshalBinary i s)"
| "request_MarshalBinary (sshFxpStatPacket i s) = Some (sshFxpStatPacket_MarshalBinary i s)"
| "request_MarshalBinary (sshFxpReadlinkPacket i s) = Some (sshFxpReadlinkPacket_MarshalBinary i s)"
| "request_MarshalBinary (sshFxpOpenPacket i p f g) = Some (sshFxpOpenPacket_MarshalBinary i p f g)"
| "request_MarshalBinary (sshFxpReadPacket i l off h) = Some (sshFxpReadPacket_MarshalBinary i l off h)"
| "request_MarshalBinary (sshFxpWritePacket i l off h d) =
     Some (sshFxpWritePacket_MarshalBinary i l off h d)"
| "request_MarshalBinary (sshFxpSetstatPacket i f p a) = sshFxpSetstatPacket_MarshalBinary i f p a"
| "request_MarshalBinary (sshFxpFsetstatPacket i f h a) = sshFxpFsetstatPacket_MarshalBinary i f h a"
| "request_MarshalBinary (sshFxpMkdirPacket i f p) = Some (sshFxpMkdirPacket_MarshalBinary i f p)"
| "request_MarshalBinary (sshFxpRenamePacket i p q) = Some (sshFxpRenamePacket_MarshalBinary i p q)"
| "request_MarshalBinary (sshFxpSymlinkPacket i p q) = Some (sshFxpSymlinkPacket_MarshalBinary i p q)"
| "request_MarshalBinary (sshFxpExtendedPacket i r sp) =
     (case sp of
        Some (sshFxpExtendedPacketStatVFS _ _ p) \<Rightarrow> Some (sshFxpStatvfsPacket_MarshalBinary i p)
      | Some (sshFxpExtendedPacketPosixRename _ _ p q) \<Rightarrow>
          Some (sshFxpPosixRenamePacket_MarshalBinary i p q)
      | Some (sshFxpExtendedPacketHardlink _ _ p q) \<Rightarrow> Some (sshFxpHardlinkPacket_MarshalBinary i p q)
      | None \<Rightarrow> None)"

text \<open>
  The packets that a client can send: strings fit their length fields, a write names the
  length of its data, attributes are raw bytes, and an extended packet agrees with its
  specific packet.
\<close>

fun ext_ok :: "u32 \<Rightarrow> string \<Rightarrow> extendedPacket option \<Rightarrow> bool" where
  "ext_ok i r (Some (sshFxpExtendedPacketStatVFS j q p)) \<longleftrightarrow>
     j = i \<and> q = r \<and> r = ''statvfs@openssh.com'' \<and> fits32 p"
| "ext_ok i r (Some (sshFxpExtendedPacketPosixRename j q p p')) \<longleftrightarrow>
     j = i \<and> q = r \<and> r = ''posix-rename@openssh.com'' \<and> fits32 p \<and> fits32 p'"
| "ext_ok i r (Some (sshFxpExtendedPacketHardlink j q p p')) \<longleftrightarrow>
     j = i \<and> q = r \<and> r = ''hardlink@openssh.com'' \<and> fits32 p \<and> fits32 p'"
| "ext_ok i r None \<longleftrightarrow> False"

fun is_bytes :: "gval \<Rightarrow> bool" where
  "is_bytes (GBytes _) = True"
| "is_bytes _ = False"

fun wf_request :: "requestPacket \<Rightarrow> bool" where
  "wf_request (sshFxInitPacket v e) = list_all fits_pair e"
| "wf_request (sshFxpWritePacket i l off h d) = (fits32 h \<and> unat l = length d)"
| "wf_request (sshFxpSetstatPacket i f p a) = (fits32 p \<and> is_bytes a)"
| "wf_request (sshFxpFsetstatPacket i f h a) = (fits32 h \<and> is_bytes a)"
| "wf_request (sshFxpOpenPacket i p f g) = fits32 p"
| "wf_request (sshFxpReadPacket i l off h) = fits32 h"
| "wf_request (sshFxpMkdirPacket i f p) = fits32 p"
| "wf_request (sshFxpRenamePacket i p q) = (fits32 p \<and> fits32 q)"
| "wf_request (sshFxpSymlinkPacket i p q) = (fits32 p \<and> fits32 q)"
| "wf_request (sshFxpExtendedPacket i r sp) = ext_ok i r sp"
| "wf_request (sshFxpLstatPacket i s) = fits32 s"
| "wf_request (sshFxpClosePacket i s) = fits32 s"
| "wf_request (sshFxpFstatPacket i s) = fits32 s"
| "wf_request (sshFxpOpendirPacket i s) = fits32 s"
| "wf_request (sshFxpReaddirPacket i s) = fits32 s"
| "wf_request (sshFxpRemovePacket i s) = fits32 s"
| "wf_request (sshFxpRmdirPacket i s) = fits32 s"
| "wf_request (sshFxpRealpathPacket i s) = fits32 s"
| "wf_request (sshFxpStatPacket i s) = fits32 s"
| "wf_request (sshFxpReadlinkPacket i s) = fits32 s"

lemma makePacket_simps:
  "makePacket sshFxpInit b = (let (pkt, err) = sshFxInitPacket_UnmarshalBinary b in (Some pkt, err))"
  "makePacket sshFxpLstat b = (let (pkt, err) = sshFxpLstatPacket_UnmarshalBinary b in (Some pkt, err))"
  "makePacket sshFxpOpen b = (let (pkt, err) = sshFxpOpenPacket_UnmarshalBinary b in (Some pkt, err))"
  "makePacket sshFxpClose b = (let (pkt, err) = sshFxpClosePacket_UnmarshalBinary b in (Some pkt, err))"
  "makePacket sshFxpRead b = (let (pkt, err) = sshFxpReadPacket_UnmarshalBinary b in (Some pkt, err))"
  "makePacket sshFxpWrite b = (let (pkt, err) = sshFxpWritePacket_UnmarshalBinary b in (Some pkt, err))"
  "makePacket sshFxpFstat b = (let (pkt, err) = sshFxpFstatPacket_UnmarshalBinary b in (Some pkt, err))"
  "makePacket sshFxpSetstat b = (let (pkt, err) = sshFxpSetstatPacket_UnmarshalBinary b in (Some pkt, err))"
  "makePacket sshFxpFsetstat b = (let (pkt, err) = sshFxpFsetstatPacket_UnmarshalBinary b in (Some pkt, err))"
  "makePacket sshFxpOpendir b = (let (pkt, err) = sshFxpOpendirPacket_UnmarshalBinary b in (Some pkt, err))"
  "makePacket sshFxpReaddir b = (let (pkt, err) = sshFxpReaddirPacket_UnmarshalBinary b in (Some pkt, err))"
  "makePacket sshFxpRemove b = (let (pkt, err) = sshFxpRemovePacket_UnmarshalBinary b in (Some pkt, err))"
  "makePacket sshFxpMkdir b = (let (pkt, err) = sshFxpMkdirPacket_UnmarshalBinary b in (Some pkt, err))"
  "makePacket sshFxpRmdir b = (let (pkt, err) = sshFxpRmdirPacket_UnmarshalBinary b in (Some pkt, err))"
  "makePacket sshFxpRealpath b = (let (pkt, err) = sshFxpRealpathPacket_UnmarshalBinary b in (Some pkt, err))"
  "makePacket sshFxpStat b = (let (pkt, err) = sshFxpStatPacket_UnmarshalBinary b in (Some pkt, err))"
  "makePacket sshFxpRename b = (let (pkt, err) = sshFxpRenamePacket_UnmarshalBinary b in (Some pkt, err))"
  "makePacket sshFxpReadlink b = (let (pkt, err) = sshFxpReadlinkPacket_UnmarshalBinary b in (Some pkt, err))"
  "makePacket sshFxpSymlink b = (let (pkt, err) = sshFxpSymlinkPacket_UnmarshalBinary b in (Some pkt, err))"
  "makePacket sshFxpExtended b = (let (pkt, err) = sshFxpExtendedPacket_UnmarshalBinary b in (Some pkt, err))"
  by (simp_all add: makePacket_def fxp_defs)

lemma unmarshalIDString_Put: "fits32 s \<Longrightarrow> unmarshalIDString (PutUint32 i @ PutString s) = (i, s, None)"
  by (simp add: unmarshalIDString_def codec_simps)

lemma fold_pairs:
  "fold (\<lambda>e b. b @ PutString (ep_Name e) @ PutString (ep_Data e)) exts b
     = b @ concat (map PutExtensionPair exts)"
  by (induction exts arbitrary: b) (simp_all add: PutExtensionPair_def)

lemma PutExtensionPair_not_Nil [simp]: "PutExtensionPair e \<noteq> []"
  by (simp add: PutExtensionPair_def PutString_def PutUint32_def)

lemma unmarshalExtensions_concat:
  "list_all fits_pair exts \<Longrightarrow>
   unmarshalExtensions (concat (map PutExtensionPair exts)) acc = (acc @ exts, None)"
  by (induction exts arbitrary: acc) (simp_all add: unmarshalExtensions.simps codec_simps)

lemmas idstring_defs =
  sshFxpLstatPacket_MarshalBinary_def sshFxpLstatPacket_UnmarshalBinary_def
  sshFxpClosePacket_MarshalBinary_def sshFxpClosePacket_UnmarshalBinary_def
  sshFxpFstatPacket_MarshalBinary_def sshFxpFstatPacket_UnmarshalBinary_def
  sshFxpOpendirPacket_MarshalBinary_def sshFxpOpendirPacket_UnmarshalBinary_def
  sshFxpReaddirPacket_MarshalBinary_def sshFxpReaddirPacket_UnmarshalBinary_def
  sshFxpRemovePacket_MarshalBinary_def sshFxpRemovePacket_UnmarshalBinary_def
  sshFxpRmdirPacket_MarshalBinary_def sshFxpRmdirPacket_UnmarshalBinary_def
  sshFxpRealpathPacket_MarshalBinary_def sshFxpRealpathPacket_UnmarshalBinary_def
  sshFxpStatPacket_MarshalBinary_def sshFxpStatPacket_UnmarshalBinary_def
  sshFxpReadlinkPacket_MarshalBinary_def sshFxpReadlinkPacket_UnmarshalBinary_def

lemmas multifield_defs =
  sshFxpOpenPacket_MarshalBinary_def sshFxpOpenPacket_UnmarshalBinary_def
  sshFxpReadPacket_MarshalBinary_def sshFxpReadPacket_UnmarshalBinary_def
  sshFxpWritePacket_MarshalBinary_def sshFxpWritePacket_UnmarshalBinary_def
  sshFxpSetstatPacket_MarshalBinary_def sshFxpSetstatPacket_UnmarshalBinary_def
  sshFxpFsetstatPacket_MarshalBinary_def sshFxpFsetstatPacket_UnmarshalBinary_def
  sshFxpMkdirPacket_MarshalBinary_def sshFxpMkdirPacket_UnmarshalBinary_def
  sshFxpRenamePacket_MarshalBinary_def sshFxpRenamePacket_UnmarshalBinary_def
  sshFxpSymlinkPacket_MarshalBinary_def sshFxpSymlinkPacket_UnmarshalBinary_def

lemmas extended_defs =
  sshFxpExtendedPacket_UnmarshalBinary_def
  sshFxpStatvfsPacket_MarshalBinary_def sshFxpExtendedPacketStatVFS_UnmarshalBinary_def
  sshFxpPosixRenamePacket_MarshalBinary_def sshFxpExtendedPacketPosixRename_UnmarshalBinary_def
  sshFxpHardlinkPacket_MarshalBinary_def sshFxpExtendedPacketHardlink_UnmarshalBinary_def

lemma ext_names_fit [simp]: "fits32 ''statvfs@openssh.com''" "fits32 ''posix-rename@openssh.com''"
  "fits32 ''hardlink@openssh.com''"
  by (simp_all add: fits32_def)

lemma extended_roundtrip:
  assumes "ext_ok i r sp"
  shows "\<exists>t body. request_MarshalBinary (sshFxpExtendedPacket i r sp) = Some (t # body)
    \<and> makePacket t body = (Some (sshFxpExtendedPacket i r sp), None)"
proof -
  obtain x where x: "sp = Some x" using assms by (cases sp) auto
  show ?thesis
    using assms unfolding x
    by (cases x) (simp_all add: makePacket_simps extended_defs codec_simps Let_def)
qed

lemma write_roundtrip:
  assumes "fits32 h" and "unat l = length d"
  shows "makePacket sshFxpWrite (PutUint32 i @ PutString h @ PutUint64 off @ PutUint32 l @ d)
    = (Some (sshFxpWritePacket i l off h d), None)"
proof -
  have "(word_of_nat (length d) :: u32) = l" unfolding assms(2) [symmetric] by simp
  then show ?thesis
    using assms by (simp add: makePacket_simps sshFxpWritePacket_UnmarshalBinary_def codec_simps)
qed

lemma makePacket_request_MarshalBinary:
  assumes "wf_request p"
  shows "\<exists>t body. request_MarshalBinary p = Some (t # body) \<and> makePacket t body = (Some p, None)"
proof (cases p)
  case (sshFxInitPacket v e)
  then show ?thesis
    using assms unmarshalExtensions_concat [of e "[]"]
    by (simp add: sshFxInitPacket_MarshalBinary_def sshFxInitPacket_UnmarshalBinary_def
        makePacket_simps fold_pairs codec_simps)
next
  case (sshFxpWritePacket i l off h d)
  then show ?thesis
    using assms by (simp add: sshFxpWritePacket_MarshalBinary_def codec_simps write_roundtrip)
next
  case (sshFxpSetstatPacket i f q a)
  then show ?thesis
    using assms by (cases a) (simp_all add: multifield_defs makePacket_simps codec_simps)
next
  case (sshFxpFsetstatPacket i f q a)
  then show ?thesis
    using assms by (cases a) (simp_all add: multifield_defs makePacket_simps codec_simps)
next
  case (sshFxpExtendedPacket i r sp)
  then show ?thesis using assms extended_roundtrip by simp
qed (use assms in \<open>simp_all add: idstring_defs multifield_defs marshalIDString_def makePacket_simps
      codec_simps unmarshalIDString_Put\<close>)

subsection \<open>Data responses\<close>

text \<open>
  The data packet is built in place: the payload moves up nine bytes inside its own buffer
  and the header is written over the bytes it leaves.
\<close>

lemma sshFxpDataPacket_bytes:
  assumes "unat len = length data"
  shows "sshFxpDataPacket_MarshalBinary i len data
    = Some (sshFxpData # PutUint32 i @ PutUint32 len @ data)"
proof -
  let ?b = "copy_at 9 (data @ replicate 9 0) data"
  obtain h0 ht where b: "?b = h0 # ht @ data" and ht: "length ht = 8"
  proof
    show "?b = hd (take 9 (data @ replicate 9 0)) # tl (take 9 (data @ replicate 9 0)) @ data"
      by (cases data) (simp_all add: copy_at_def eval_nat_numeral)
    show "length (tl (take 9 (data @ replicate 9 (0 :: u8)))) = 8" by simp
  qed
  have "copy_at 5 (copy_at 1 ((h0 # ht @ data)[0 := sshFxpData]) (PutUint32 i)) (PutUint32 len)
      = sshFxpData # PutUint32 i @ PutUint32 len @ data"
    by (simp add: copy_at_def ht drop_Cons')
  then show ?thesis
    using assms by (simp add: sshFxpDataPacket_MarshalBinary_def b Let_def)
qed

section \<open>Decoding of arbitrary input\<close>

text \<open>The identifier that a request decoder stores before it can fail.\<close>

lemmas decoder_defs =
  unmarshalIDString_def sshFxpOpenPacket_UnmarshalBinary_def sshFxpReadPacket_UnmarshalBinary_def
  sshFxpWritePacket_UnmarshalBinary_def sshFxpSetstatPacket_UnmarshalBinary_def
  sshFxpFsetstatPacket_UnmarshalBinary_def sshFxpMkdirPacket_UnmarshalBinary_def
  sshFxpRenamePacket_UnmarshalBinary_def sshFxpSymlinkPacket_UnmarshalBinary_def
  sshFxpExtendedPacket_UnmarshalBinary_def

lemma unmarshalUint32Safe_Inr:
  "4 \<le> length b \<Longrightarrow> unmarshalUint32Safe b = Inr (the (unmarshalUint32 b))"
  by (simp add: unmarshalUint32Safe_def)

definition request_types :: "u8 list" where
  "request_types = [sshFxpInit, sshFxpLstat, sshFxpOpen, sshFxpClose, sshFxpRead, sshFxpWrite,
     sshFxpFstat, sshFxpSetstat, sshFxpFsetstat, sshFxpOpendir, sshFxpReaddir, sshFxpRemove,
     sshFxpMkdir, sshFxpRmdir, sshFxpRealpath, sshFxpStat, sshFxpRename, sshFxpReadlink,
     sshFxpSymlink, sshFxpExtended]"

lemma makePacket_unknown:
  "ty \<notin> set request_types \<Longrightarrow>
   makePacket ty b = (None, Some (ErrorString (''unhandled packet type: '' @ fxp_String ty)))"
  by (simp add: makePacket_def request_types_def)

lemma makePacket_known: "ty \<in> set request_types \<Longrightarrow> \<exists>p err. makePacket ty b = (Some p, err)"
  by (auto simp: request_types_def makePacket_simps Let_def split: prod.split)

lemma IDString_id:
  assumes "4 \<le> length b" and "unmarshalIDString b = (i, s, err)"
  shows "i = fst (the (unmarshalUint32 b))"
  using assms unmarshalUint32Safe_Inr [OF assms(1)]
  by (auto simp: unmarshalIDString_def split: prod.splits sum.splits)

lemma makePacket_request_id:
  assumes "makePacket ty b = (Some p, err)" and "ty \<noteq> sshFxpInit" and "4 \<le> length b"
  shows "request_id p = fst (the (unmarshalUint32 b))"
proof -
  obtain v r where v: "unmarshalUint32Safe b = Inr (v, r)" "the (unmarshalUint32 b) = (v, r)"
    using unmarshalUint32Safe_Inr [OF assms(3)] by force
  consider (idstring) "ty \<in> {sshFxpLstat, sshFxpClose, sshFxpFstat, sshFxpOpendir, sshFxpReaddir,
      sshFxpRemove, sshFxpRmdir, sshFxpRealpath, sshFxpStat, sshFxpReadlink}"
    | (multi) "ty \<in> {sshFxpOpen, sshFxpRead, sshFxpWrite, sshFxpSetstat, sshFxpFsetstat, sshFxpMkdir,
      sshFxpRename, sshFxpSymlink, sshFxpExtended}"
    using assms(1,2) makePacket_unknown [of ty b] unfolding request_types_def by force
  then show ?thesis
  proof cases
    case idstring
    then show ?thesis
      using assms(1) IDString_id [OF assms(3)]
      by (auto simp: makePacket_simps idstring_defs Let_def split: prod.splits)
  next
    case multi
    then show ?thesis
      using assms(1) v
      by (auto simp: makePacket_simps decoder_defs Let_def
          split: prod.splits sum.splits if_splits option.splits)
  qed
qed

section \<open>Properties\<close>

text \<open>
  C3. A request that is encoded by its \<open>MarshalBinary\<close>, framed by \<open>sendPacket\<close> and received
  by \<open>recvPacket\<close> is decoded by \<open>makePacket\<close> to exactly the packet that was sent, and the
  stream is left at the first byte behind it, whether or not an allocator provides the
  buffer. This covers all twenty request types, the three extended requests included.
\<close>

theorem request_over_wire:
  assumes "wf_request p" and "request_MarshalBinary p = Some bb" and "length bb \<le> maxMsgLength"
    and "rd_data r = fst (sendPacket (\<lambda>w b. (w @ b, None)) [] (Inr bb)) @ rest"
  shows "\<exists>ty body alloc'. recvPacket r alloc orderID = (Inr (ty, body), r\<lparr>rd_data := rest\<rparr>, alloc')
    \<and> makePacket ty body = (Some p, None)"
proof -
  obtain t body where bb: "bb = t # body" and dec: "makePacket t body = (Some p, None)"
    using makePacket_request_MarshalBinary [OF assms(1)] assms(2) by auto
  have "rd_data r = PutUint32 (word_of_nat (length bb)) @ bb @ rest"
    using assms(4) by (simp add: frame_bytes)
  then have "recvPacket r alloc orderID = (Inr (hd bb, tl bb), r\<lparr>rd_data := rest\<rparr>,
      map_option (\<lambda>a. snd (GetPage a orderID)) alloc)"
    using recvPacket_frame [OF _ assms(3)] bb by simp
  with dec bb show ?thesis by simp
qed

definition demo_rename :: requestPacket where
  "demo_rename = sshFxpExtendedPacket 7 ''posix-rename@openssh.com''
     (Some (sshFxpExtendedPacketPosixRename 7 ''posix-rename@openssh.com'' ''/a'' ''/b''))"

definition demo_bytes :: bytes where
  "demo_bytes = sshFxpPosixRenamePacket_MarshalBinary 7 ''/a'' ''/b''"

theorem request_over_wire_witness:
  "\<exists>ty body alloc'. recvPacket
       \<lparr>rd_data = fst (sendPacket (\<lambda>w b. (w @ b, None)) [] (Inr demo_bytes)) @ [1, 2], rd_err = IoEOF\<rparr> None 1
     = (Inr (ty, body), \<lparr>rd_data = [1, 2], rd_err = IoEOF\<rparr>, alloc')
   \<and> makePacket ty body = (Some demo_rename, None)"
proof -
  have "wf_request demo_rename" by (simp add: demo_rename_def fits32_def)
  moreover have "request_MarshalBinary demo_rename = Some demo_bytes"
    by (simp add: demo_rename_def demo_bytes_def)
  moreover have "length demo_bytes \<le> maxMsgLength"
    by (simp add: demo_bytes_def sshFxpPosixRenamePacket_MarshalBinary_def codec_simps maxMsgLength_def)
  ultimately show ?thesis
    using request_over_wire [of demo_rename demo_bytes
        "\<lparr>rd_data = fst (sendPacket (\<lambda>w b. (w @ b, None)) [] (Inr demo_bytes)) @ [1, 2], rd_err = IoEOF\<rparr>"
        "[1, 2]" None 1]
    by simp
qed

text \<open>
  C34. Whatever bytes arrive, a packet that \<open>recvPacket\<close> delivers has a type byte and fewer
  than \<open>maxMsgLength\<close> bytes of payload, and these bytes are exactly the frame that stood at
  the front of the stream: nothing is read beyond the announced length.
\<close>

theorem recvPacket_exact:
  assumes "recvPacket r alloc orderID = (Inr (ty, payload), r', alloc')"
  shows "length payload < maxMsgLength \<and>
    rd_data r = PutUint32 (word_of_nat (Suc (length payload))) @ ty # payload @ rd_data r'"
  using recvPacket_bounds [OF assms] .

theorem recvPacket_exact_witness:
  "recvPacket \<lparr>rd_data = [0, 0, 0, 2, 5, 9, 77], rd_err = IoEOF\<rparr> None 1
     = (Inr (5, [9]), \<lparr>rd_data = [77], rd_err = IoEOF\<rparr>, None)
   \<and> length ([9] :: bytes) < maxMsgLength
   \<and> [0, 0, 0, 2, 5, 9, 77] = PutUint32 (word_of_nat (Suc (length ([9] :: bytes)))) @ 5 # [9] @ [77]"
proof -
  have "recvPacket \<lparr>rd_data = [0, 0, 0, 2, 5, 9, 77], rd_err = IoEOF\<rparr> None 1
     = (Inr (5, [9]), \<lparr>rd_data = [77], rd_err = IoEOF\<rparr>, None)"
    by (simp add: recvPacket_def io_ReadFull_def unmarshalUint32_def maxMsgLength_def)
  with recvPacket_exact [OF this] show ?thesis by simp
qed

text \<open>
  Encoding a data response (payload moved inside its own buffer, header written over the
  front) and decoding the bytes behind the type byte gives back the identifier, the length
  and the data.
\<close>

theorem data_packet_roundtrip:
  assumes "unat len = length data"
  shows "\<exists>body. sshFxpDataPacket_MarshalBinary i len data = Some (sshFxpData # body)
    \<and> sshFxpDataPacket_UnmarshalBinary body = (sshFxpDataPacket i len data, None)"
proof -
  have "(word_of_nat (length data) :: u32) = len" unfolding assms [symmetric] by simp
  with assms show ?thesis
    by (simp add: sshFxpDataPacket_bytes sshFxpDataPacket_UnmarshalBinary_def codec_simps)
qed

theorem data_packet_roundtrip_witness:
  "\<exists>body. sshFxpDataPacket_MarshalBinary 3 2 [8, 9] = Some (sshFxpData # body)
    \<and> sshFxpDataPacket_UnmarshalBinary body = (sshFxpDataPacket 3 2 [8, 9], None)"
  by (rule data_packet_roundtrip) simp

text \<open>
  Decoding is total. An unknown packet type yields no packet and an error naming the type;
  every known type yields a packet, and if at least four bytes of payload arrived, its
  identifier is the big-endian number in these bytes even when the rest of the packet is
  malformed, so that an error response can be addressed to the request.
\<close>

theorem makePacket_total:
  "(case makePacket ty b of
      (None, err) \<Rightarrow> ty \<notin> set request_types
        \<and> err = Some (ErrorString (''unhandled packet type: '' @ fxp_String ty))
    | (Some p, err) \<Rightarrow> ty \<in> set request_types
        \<and> (4 \<le> length b \<and> ty \<noteq> sshFxpInit \<longrightarrow> request_id p = fst (the (unmarshalUint32 b))))"
proof (cases "ty \<in> set request_types")
  case True
  then obtain p err where "makePacket ty b = (Some p, err)" using makePacket_known by blast
  with True show ?thesis using makePacket_request_id by simp
next
  case False
  then show ?thesis by (simp add: makePacket_unknown)
qed

theorem makePacket_total_witness:
  "(case makePacket 13 [0, 0, 1, 2, 0, 0, 0, 9, 65] of
      (None, err) \<Rightarrow> False
    | (Some p, err) \<Rightarrow> err = Some ErrShortPacket \<and> request_id p = 258)"
proof -
  have "makePacket 13 [0, 0, 1, 2, 0, 0, 0, 9, 65] = (Some (sshFxpRemovePacket 258 []), Some ErrShortPacket)"
    by code_simp
  with makePacket_total [of 13 "[0, 0, 1, 2, 0, 0, 0, 9, 65]"] show ?thesis by simp
qed

end
