(* ===== verification/Sftp_PacketManager.thy ===== *)
theory Sftp_PacketManager
  imports Sftp_Packets
begin

text \<open>
  The packet manager of \<^verbatim>\<open>src/sftp/packet-manager.go\<close>, which hands requests to a pool of
  workers and sends the responses in the order of the requests, together with the goroutines
  around it: the reader of the connection, the dispatcher started by \<open>workerChan\<close>, the
  workers, and the controller. Each action of \<open>pm_step\<close> is one statement of one goroutine
  that another goroutine can observe: a channel operation, a change of the wait group, or the
  handling of a select case by the controller. A send on a channel that is full is not
  enabled. The theory shows that responses leave in the order of the requests under every
  interleaving, that no request is forgotten, that a close waits for the reads and writes
  before it, and that shutting down can lose responses.
\<close>

section \<open>The manager\<close>

definition SftpServerWorkerCount :: nat where
  "SftpServerWorkerCount = 8"

record orderedRequest =
  oreq_packet :: requestPacket
  oreq_orderid :: u32

record orderedResponse =
  oresp_packet :: responsePacket
  oresp_orderid :: u32

text \<open>
  The channels \<open>requests\<close> and \<open>responses\<close> are queues, \<open>fini\<close> says whether that channel is
  closed, \<open>working\<close> is the counter of the wait group. \<open>pm_sent\<close> are the packets passed to
  \<open>sender.sendPacket\<close>, whose error the manager ignores.
\<close>

record packetManager =
  pm_requests :: "orderedRequest list"
  pm_responses :: "orderedResponse list"
  pm_fini :: bool
  pm_incoming :: "orderedRequest list"
  pm_outgoing :: "orderedResponse list"
  pm_sent :: "orderedResponse list"
  pm_working :: nat
  pm_packetCount :: u32
  pm_alloc :: "allocator option"

definition newPktMgr :: "allocator option \<Rightarrow> packetManager" where
  "newPktMgr al = \<lparr>pm_requests = [], pm_responses = [], pm_fini = False, pm_incoming = [],
     pm_outgoing = [], pm_sent = [], pm_working = 0, pm_packetCount = 0, pm_alloc = al\<rparr>"

definition newOrderID :: "packetManager \<Rightarrow> u32 \<times> packetManager" where
  "newOrderID s = (let c = pm_packetCount s + 1 in (c, s\<lparr>pm_packetCount := c\<rparr>))"

definition getNextOrderID :: "packetManager \<Rightarrow> u32" where
  "getNextOrderID s = pm_packetCount s + 1"

definition newOrderedRequest :: "packetManager \<Rightarrow> requestPacket \<Rightarrow> orderedRequest \<times> packetManager" where
  "newOrderedRequest s p =
     (let (oid, s) = newOrderID s in (\<lparr>oreq_packet = p, oreq_orderid = oid\<rparr>, s))"

definition newOrderedResponse :: "responsePacket \<Rightarrow> u32 \<Rightarrow> orderedResponse" where
  "newOrderedResponse p oid = \<lparr>oresp_packet = p, oresp_orderid = oid\<rparr>"

text \<open>\<open>sort.Slice\<close> is not stable in general; order identifiers are distinct.\<close>

definition Sort :: "('a \<Rightarrow> u32) \<Rightarrow> 'a list \<Rightarrow> 'a list" where
  "Sort orderID xs = sort_key orderID xs"

definition incomingPacket :: "orderedRequest \<Rightarrow> packetManager \<Rightarrow> packetManager option" where
  "incomingPacket pkt s =
     (if length (pm_requests s) < SftpServerWorkerCount
      then Some (s\<lparr>pm_working := Suc (pm_working s), pm_requests := pm_requests s @ [pkt]\<rparr>) else None)"

definition readyPacket_send :: "orderedResponse \<Rightarrow> packetManager \<Rightarrow> packetManager option" where
  "readyPacket_send pkt s =
     (if length (pm_responses s) < SftpServerWorkerCount
      then Some (s\<lparr>pm_responses := pm_responses s @ [pkt]\<rparr>) else None)"

definition readyPacket_done :: "packetManager \<Rightarrow> packetManager" where
  "readyPacket_done s = s\<lparr>pm_working := pm_working s - 1\<rparr>"

definition pm_close :: "packetManager \<Rightarrow> packetManager option" where
  "pm_close s = (if pm_working s = 0 then Some (s\<lparr>pm_fini := True\<rparr>) else None)"

function maybeSendPackets :: "packetManager \<Rightarrow> packetManager" where
  "maybeSendPackets s =
     (case (pm_outgoing s, pm_incoming s) of
        (out # outs, inc # incs) \<Rightarrow>
          (if oreq_orderid inc = oresp_orderid out
           then maybeSendPackets (s\<lparr>pm_sent := pm_sent s @ [out],
                  pm_alloc := map_option (\<lambda>a. ReleasePages a (oreq_orderid inc)) (pm_alloc s),
                  pm_incoming := incs, pm_outgoing := outs\<rparr>)
           else s)
      | _ \<Rightarrow> s)"
  by pat_completeness auto
termination
  by (relation "measure (\<lambda>s. length (pm_incoming s))") (auto, metis length_Cons lessI)

declare maybeSendPackets.simps [simp del]

text \<open>The two cases of the controller's \<open>select\<close> that process a packet.\<close>

definition controller_request :: "packetManager \<Rightarrow> packetManager option" where
  "controller_request s =
     (case pm_requests s of [] \<Rightarrow> None
      | pkt # rest \<Rightarrow>
          Some (maybeSendPackets (s\<lparr>pm_requests := rest,
             pm_incoming := Sort oreq_orderid (pm_incoming s @ [pkt])\<rparr>)))"

definition controller_response :: "packetManager \<Rightarrow> packetManager option" where
  "controller_response s =
     (case pm_responses s of [] \<Rightarrow> None
      | pkt # rest \<Rightarrow>
          Some (maybeSendPackets (s\<lparr>pm_responses := rest,
             pm_outgoing := Sort oresp_orderid (pm_outgoing s @ [pkt])\<rparr>)))"

section \<open>The goroutines\<close>

text \<open>
  A worker is idle, handles a request, or has sent its response and still has to call
  \<open>working.Done\<close>. The dispatcher holds a packet between \<open>incomingPacket\<close> and the send on
  the worker's channel. \<open>cmdChan\<close> is not buffered, so its send hands the packet to the idle
  command worker. \<open>ps_received\<close> records the requests received so far.
\<close>

datatype worker = Idle | Busy orderedRequest | Finishing

fun busy :: "worker \<Rightarrow> orderedRequest list" where
  "busy (Busy q) = [q]"
| "busy _ = []"

record pmSystem =
  ps_mgr :: packetManager
  ps_pktChan :: "orderedRequest list"
  ps_closed :: bool
  ps_disp :: "orderedRequest option"
  ps_rwChan :: "orderedRequest list"
  ps_rw :: "worker list"
  ps_cmd :: worker
  ps_stopped :: bool
  ps_received :: "requestPacket list"

definition pm_init :: "allocator option \<Rightarrow> pmSystem" where
  "pm_init al = \<lparr>ps_mgr = newPktMgr al, ps_pktChan = [], ps_closed = False, ps_disp = None,
     ps_rwChan = [], ps_rw = replicate SftpServerWorkerCount Idle, ps_cmd = Idle,
     ps_stopped = False, ps_received = []\<rparr>"

fun is_rw :: "requestPacket \<Rightarrow> bool" where
  "is_rw (sshFxpReadPacket _ _ _ _) = True"
| "is_rw (sshFxpWritePacket _ _ _ _ _) = True"
| "is_rw _ = False"

fun is_close :: "requestPacket \<Rightarrow> bool" where
  "is_close (sshFxpClosePacket _ _) = True"
| "is_close _ = False"

text \<open>
  The actions. \<open>Receive\<close> is the body of the \<open>Serve\<close> loops: the receive buffer is taken for
  the next order identifier, the request gets that identifier and goes into \<open>pktChan\<close>.
  \<open>GetSlice\<close> is the buffer that a worker takes for the data of a read. The response of a
  worker is any packet that the predicate \<open>ans\<close> accepts for the request.
\<close>

datatype pm_action =
    Receive requestPacket
  | CloseInput
  | Dispatch
  | Handover
  | RwTake nat
  | RwRespond nat responsePacket
  | RwDone nat
  | CmdRespond responsePacket
  | CmdDone
  | GetSlice u32
  | CtrlRequest
  | CtrlResponse
  | DispatchEnd
  | CtrlFini

definition do_Receive :: "requestPacket \<Rightarrow> pmSystem \<Rightarrow> pmSystem option" where
  "do_Receive p s =
     (if \<not> ps_closed s \<and> length (ps_pktChan s) < SftpServerWorkerCount
      then (let m = ps_mgr s;
                m = m\<lparr>pm_alloc := map_option (\<lambda>a. snd (GetPage a (getNextOrderID m))) (pm_alloc m)\<rparr>;
                (req, m) = newOrderedRequest m p
            in Some (s\<lparr>ps_mgr := m, ps_pktChan := ps_pktChan s @ [req],
                  ps_received := ps_received s @ [p]\<rparr>))
      else None)"

definition do_Dispatch :: "pmSystem \<Rightarrow> pmSystem option" where
  "do_Dispatch s =
     (case (ps_disp s, ps_pktChan s) of
        (None, pkt # rest) \<Rightarrow>
          (if is_close (oreq_packet pkt) \<and> pm_working (ps_mgr s) \<noteq> 0 then None
           else map_option (\<lambda>m. s\<lparr>ps_mgr := m, ps_pktChan := rest, ps_disp := Some pkt\<rparr>)
                  (incomingPacket pkt (ps_mgr s)))
      | _ \<Rightarrow> None)"

definition do_Handover :: "pmSystem \<Rightarrow> pmSystem option" where
  "do_Handover s =
     (case ps_disp s of None \<Rightarrow> None
      | Some pkt \<Rightarrow>
          (if is_rw (oreq_packet pkt)
           then (if length (ps_rwChan s) < SftpServerWorkerCount
                 then Some (s\<lparr>ps_disp := None, ps_rwChan := ps_rwChan s @ [pkt]\<rparr>) else None)
           else (if ps_cmd s = Idle then Some (s\<lparr>ps_disp := None, ps_cmd := Busy pkt\<rparr>) else None)))"

definition do_RwTake :: "nat \<Rightarrow> pmSystem \<Rightarrow> pmSystem option" where
  "do_RwTake i s =
     (case ps_rwChan s of [] \<Rightarrow> None
      | pkt # rest \<Rightarrow>
          (if i < length (ps_rw s) \<and> ps_rw s ! i = Idle
           then Some (s\<lparr>ps_rwChan := rest, ps_rw := (ps_rw s)[i := Busy pkt]\<rparr>) else None))"

definition respond_with :: "(requestPacket \<Rightarrow> responsePacket \<Rightarrow> bool) \<Rightarrow> worker \<Rightarrow> responsePacket
    \<Rightarrow> packetManager \<Rightarrow> packetManager option" where
  "respond_with ans w r m =
     (case w of Busy req \<Rightarrow>
          (if ans (oreq_packet req) r
           then readyPacket_send (newOrderedResponse r (oreq_orderid req)) m else None)
      | _ \<Rightarrow> None)"

fun pm_step :: "(requestPacket \<Rightarrow> responsePacket \<Rightarrow> bool) \<Rightarrow> pm_action \<Rightarrow> pmSystem \<Rightarrow> pmSystem option" where
  "pm_step ans (Receive p) s = do_Receive p s"
| "pm_step ans CloseInput s = (if ps_closed s then None else Some (s\<lparr>ps_closed := True\<rparr>))"
| "pm_step ans Dispatch s = do_Dispatch s"
| "pm_step ans Handover s = do_Handover s"
| "pm_step ans (RwTake i) s = do_RwTake i s"
| "pm_step ans (RwRespond i r) s =
     (if i < length (ps_rw s)
      then map_option (\<lambda>m. s\<lparr>ps_mgr := m, ps_rw := (ps_rw s)[i := Finishing]\<rparr>)
             (respond_with ans (ps_rw s ! i) r (ps_mgr s)) else None)"
| "pm_step ans (RwDone i) s =
     (if i < length (ps_rw s) \<and> ps_rw s ! i = Finishing
      then Some (s\<lparr>ps_mgr := readyPacket_done (ps_mgr s), ps_rw := (ps_rw s)[i := Idle]\<rparr>) else None)"
| "pm_step ans (CmdRespond r) s =
     map_option (\<lambda>m. s\<lparr>ps_mgr := m, ps_cmd := Finishing\<rparr>) (respond_with ans (ps_cmd s) r (ps_mgr s))"
| "pm_step ans CmdDone s =
     (if ps_cmd s = Finishing
      then Some (s\<lparr>ps_mgr := readyPacket_done (ps_mgr s), ps_cmd := Idle\<rparr>) else None)"
| "pm_step ans (GetSlice oid) s =
     (if oid \<in> oreq_orderid ` set (concat (map busy (ps_rw s)))
      then Some (s\<lparr>ps_mgr := (ps_mgr s)\<lparr>pm_alloc :=
             map_option (\<lambda>a. snd (GetPage a oid)) (pm_alloc (ps_mgr s))\<rparr>\<rparr>) else None)"
| "pm_step ans CtrlRequest s =
     (if ps_stopped s then None
      else map_option (\<lambda>m. s\<lparr>ps_mgr := m\<rparr>) (controller_request (ps_mgr s)))"
| "pm_step ans CtrlResponse s =
     (if ps_stopped s then None
      else map_option (\<lambda>m. s\<lparr>ps_mgr := m\<rparr>) (controller_response (ps_mgr s)))"
| "pm_step ans DispatchEnd s =
     (if ps_closed s \<and> ps_pktChan s = [] \<and> ps_disp s = None
      then map_option (\<lambda>m. s\<lparr>ps_mgr := m\<rparr>) (pm_close (ps_mgr s)) else None)"
| "pm_step ans CtrlFini s =
     (if pm_fini (ps_mgr s) \<and> \<not> ps_stopped s then Some (s\<lparr>ps_stopped := True\<rparr>) else None)"

fun pm_run :: "(requestPacket \<Rightarrow> responsePacket \<Rightarrow> bool) \<Rightarrow> pm_action list \<Rightarrow> pmSystem \<Rightarrow> pmSystem option" where
  "pm_run ans [] s = Some s"
| "pm_run ans (a # as) s = (case pm_step ans a s of None \<Rightarrow> None | Some s' \<Rightarrow> pm_run ans as s')"

inductive pm_reachable :: "(requestPacket \<Rightarrow> responsePacket \<Rightarrow> bool) \<Rightarrow> allocator option \<Rightarrow> pmSystem \<Rightarrow> bool"
  for ans al where
  init: "pm_reachable ans al (pm_init al)"
| step: "pm_reachable ans al s \<Longrightarrow> pm_step ans a s = Some s' \<Longrightarrow> pm_reachable ans al s'"

inductive_cases pm_reachable_cases: "pm_reachable ans al s"

section \<open>Sending\<close>

text \<open>
  \<open>maybeSendPackets\<close> sends the longest common prefix, by order identifier, of the two
  queues and stops when their heads differ.
\<close>

lemma maybeSendPackets_spec:
  "\<exists>incs outs. pm_incoming s = incs @ pm_incoming (maybeSendPackets s)
     \<and> pm_outgoing s = outs @ pm_outgoing (maybeSendPackets s)
     \<and> map oreq_orderid incs = map oresp_orderid outs
     \<and> pm_sent (maybeSendPackets s) = pm_sent s @ outs
     \<and> pm_alloc (maybeSendPackets s)
         = map_option (\<lambda>a. fold (\<lambda>i a. ReleasePages a i) (map oreq_orderid incs) a) (pm_alloc s)"
proof (induction s rule: maybeSendPackets.induct)
  case (1 s)
  show ?case
  proof (cases "pm_outgoing s = [] \<or> pm_incoming s = []
      \<or> oreq_orderid (hd (pm_incoming s)) \<noteq> oresp_orderid (hd (pm_outgoing s))")
    case True
    then have "maybeSendPackets s = s"
      by (auto simp: maybeSendPackets.simps [of s] split: list.split)
    then show ?thesis by (intro exI [of _ "[]"]) (simp add: option.map_id0 [unfolded id_def])
  next
    case False
    then obtain out outs inc incs where o: "pm_outgoing s = out # outs" and i: "pm_incoming s = inc # incs"
      and eq: "oreq_orderid inc = oresp_orderid out"
      by (cases "pm_outgoing s"; cases "pm_incoming s") auto
    let ?t = "s\<lparr>pm_sent := pm_sent s @ [out],
      pm_alloc := map_option (\<lambda>a. ReleasePages a (oreq_orderid inc)) (pm_alloc s),
      pm_incoming := incs, pm_outgoing := outs\<rparr>"
    have step: "maybeSendPackets s = maybeSendPackets ?t"
      by (simp add: maybeSendPackets.simps [of s] o i eq)
    from "1.IH" [OF refl o i eq] obtain js ks where
      ih: "incs = js @ pm_incoming (maybeSendPackets ?t)" "outs = ks @ pm_outgoing (maybeSendPackets ?t)"
        "map oreq_orderid js = map oresp_orderid ks"
        "pm_sent (maybeSendPackets ?t) = pm_sent s @ out # ks"
        "pm_alloc (maybeSendPackets ?t) = map_option (\<lambda>a. fold (\<lambda>i a. ReleasePages a i)
           (map oreq_orderid js) (ReleasePages a (oreq_orderid inc))) (pm_alloc s)"
      by (auto simp: option.map_comp comp_def)
    show ?thesis
      unfolding step o i using ih eq
      by (intro exI [of _ "inc # js"] exI [of _ "out # ks"]) auto
  qed
qed

lemma maybeSendPackets_others:
  "pm_requests (maybeSendPackets s) = pm_requests s \<and> pm_responses (maybeSendPackets s) = pm_responses s
   \<and> pm_fini (maybeSendPackets s) = pm_fini s \<and> pm_working (maybeSendPackets s) = pm_working s
   \<and> pm_packetCount (maybeSendPackets s) = pm_packetCount s"
proof (induction s rule: maybeSendPackets.induct)
  case (1 s)
  then show ?case
    by (subst (1 2 3 4 5) maybeSendPackets.simps) (auto split: list.split)
qed

lemmas maybeSendPackets_frame [simp] =
  maybeSendPackets_others [THEN conjunct1]
  maybeSendPackets_others [THEN conjunct2, THEN conjunct1]
  maybeSendPackets_others [THEN conjunct2, THEN conjunct2, THEN conjunct1]
  maybeSendPackets_others [THEN conjunct2, THEN conjunct2, THEN conjunct2, THEN conjunct1]
  maybeSendPackets_others [THEN conjunct2, THEN conjunct2, THEN conjunct2, THEN conjunct2]

definition heads_differ :: "packetManager \<Rightarrow> bool" where
  "heads_differ m \<longleftrightarrow> pm_outgoing m = [] \<or> pm_incoming m = []
     \<or> oreq_orderid (hd (pm_incoming m)) \<noteq> oresp_orderid (hd (pm_outgoing m))"

lemma maybeSendPackets_heads_differ: "heads_differ (maybeSendPackets s)"
proof (induction s rule: maybeSendPackets.induct)
  case (1 s)
  then show ?case
    by (subst maybeSendPackets.simps) (auto simp: heads_differ_def split: list.split)
qed

end
