(* ===== verification/Sftp_Ordering.thy ===== *)
theory Sftp_Ordering
  imports Sftp_PacketManager
begin

text \<open>
  The invariants of the packet manager and the goroutines around it, preserved by every
  action of \<open>pm_step\<close>: the order of the requests (\<open>order_inv\<close>), the flow of requests and
  responses through the channels and workers (\<open>flow_inv\<close>), the matching of responses with
  requests (\<open>answer_inv\<close>), the barrier in front of a close (\<open>close_inv\<close>) and the life time of
  the buffers (\<open>pages_inv\<close>); a measure that every internal action decreases gives progress.
\<close>

section \<open>Invariant\<close>

definition roid :: "orderedRequest \<Rightarrow> nat" where
  "roid q = unat (oreq_orderid q)"

definition soid :: "orderedResponse \<Rightarrow> nat" where
  "soid r = unat (oresp_orderid r)"

definition in_flight :: "pmSystem \<Rightarrow> orderedRequest list" where
  "in_flight s = (case ps_disp s of None \<Rightarrow> [] | Some q \<Rightarrow> [q]) @ ps_rwChan s
     @ concat (map busy (ps_rw s)) @ busy (ps_cmd s)"

definition registered :: "packetManager \<Rightarrow> orderedRequest list" where
  "registered m = pm_incoming m @ pm_requests m"

fun fin :: "worker \<Rightarrow> nat" where
  "fin Finishing = 1"
| "fin _ = 0"

definition finishing :: "pmSystem \<Rightarrow> nat" where
  "finishing s = sum_list (map fin (ps_rw s)) + fin (ps_cmd s)"

text \<open>
  The requests that are not answered yet are, in this order, in \<open>incoming\<close>, in the channel
  \<open>requests\<close> and in \<open>pktChan\<close>, and their order identifiers are consecutive.
\<close>

definition order_inv :: "pmSystem \<Rightarrow> bool" where
  "order_inv s \<longleftrightarrow>
     (let m = ps_mgr s; k = length (pm_sent m); n = length (ps_received s)
      in map roid (registered m @ ps_pktChan s) = [Suc k ..< Suc n]
         \<and> map soid (pm_sent m) = [1 ..< Suc k] \<and> k \<le> n \<and> pm_packetCount m = word_of_nat n)"

text \<open>Every registered request is in flight or has a response that waits to be sent.\<close>

definition flow_inv :: "pmSystem \<Rightarrow> bool" where
  "flow_inv s \<longleftrightarrow>
     (let m = ps_mgr s
      in image_mset oreq_orderid (mset (in_flight s))
           + image_mset oresp_orderid (mset (pm_outgoing m @ pm_responses m))
         = image_mset oreq_orderid (mset (registered m))
       \<and> sorted (map oresp_orderid (pm_outgoing m)) \<and> heads_differ m
       \<and> pm_working m = length (in_flight s) + finishing s
       \<and> length (ps_rw s) = SftpServerWorkerCount)"

text \<open>Order identifiers name the requests, and responses answer the request of their identifier.\<close>

definition names :: "requestPacket list \<Rightarrow> orderedRequest \<Rightarrow> bool" where
  "names rs q \<longleftrightarrow> 0 < roid q \<and> roid q \<le> length rs \<and> rs ! (roid q - 1) = oreq_packet q"

definition answers_named :: "(requestPacket \<Rightarrow> responsePacket \<Rightarrow> bool) \<Rightarrow> requestPacket list
    \<Rightarrow> orderedResponse \<Rightarrow> bool" where
  "answers_named ans rs r \<longleftrightarrow> 0 < soid r \<and> soid r \<le> length rs \<and> ans (rs ! (soid r - 1)) (oresp_packet r)"

definition answer_inv :: "(requestPacket \<Rightarrow> responsePacket \<Rightarrow> bool) \<Rightarrow> pmSystem \<Rightarrow> bool" where
  "answer_inv ans s \<longleftrightarrow>
     (let m = ps_mgr s
      in list_all (names (ps_received s)) (registered m @ ps_pktChan s @ in_flight s)
       \<and> list_all (answers_named ans (ps_received s)) (pm_outgoing m @ pm_responses m @ pm_sent m))"

lemma mset_busy_update:
  "i < length ws \<Longrightarrow>
   mset (concat (map busy (ws[i := w]))) + mset (busy (ws ! i)) = mset (concat (map busy ws)) + mset (busy w)"
  by (induction ws arbitrary: i) (auto simp: nth_Cons split: nat.split)

lemma finishing_update:
  "i < length ws \<Longrightarrow>
   sum_list (map fin (ws[i := w])) + fin (ws ! i) = sum_list (map fin ws) + fin w"
  by (induction ws arbitrary: i) (auto simp: nth_Cons split: nat.split)

lemma concat_busy_nth: "i < length ws \<Longrightarrow> set (busy (ws ! i)) \<subseteq> set (concat (map busy ws))"
  by (auto dest: nth_mem)

lemma set_in_flight:
  "set (in_flight s) = set_option (ps_disp s) \<union> set (ps_rwChan s)
     \<union> set (concat (map busy (ps_rw s))) \<union> set (busy (ps_cmd s))"
  by (auto simp: in_flight_def split: option.split)

lemma mset_in_flight:
  "mset (in_flight s) = mset (case ps_disp s of None \<Rightarrow> [] | Some q \<Rightarrow> [q]) + mset (ps_rwChan s)
     + mset (concat (map busy (ps_rw s))) + mset (busy (ps_cmd s))"
  by (simp only: in_flight_def mset_append ac_simps)

lemma length_in_flight:
  "length (in_flight s) = (case ps_disp s of None \<Rightarrow> 0 | Some q \<Rightarrow> 1) + length (ps_rwChan s)
     + length (concat (map busy (ps_rw s))) + length (busy (ps_cmd s))"
  by (simp add: in_flight_def split: option.split)

lemma length_busy_update:
  assumes "i < length ws"
  shows "length (concat (map busy (ws[i := w]))) + length (busy (ws ! i))
    = length (concat (map busy ws)) + length (busy w)"
  using arg_cong [OF mset_busy_update [OF assms, of w], of size] by (simp only: size_union size_mset)

lemma upt_split:
  assumes "xs @ ys = [Suc k ..< Suc n]"
  shows "xs = [Suc k ..< Suc (k + length xs)] \<and> ys = [Suc (k + length xs) ..< Suc n]
    \<and> k + length xs \<le> max k n"
proof -
  have l: "length xs + length ys = n - k" using arg_cong [OF assms, of length] by (simp del: upt_Suc)
  have "xs = take (length xs) [Suc k ..< Suc n]" by (simp add: assms [symmetric] del: upt_Suc)
  moreover have "ys = drop (length xs) [Suc k ..< Suc n]" by (simp add: assms [symmetric] del: upt_Suc)
  ultimately show ?thesis
    using l by (cases "n < k") (auto simp: take_upt drop_upt simp del: upt_Suc)
qed

lemma sorted_oids: "sorted (map roid xs) \<longleftrightarrow> sorted (map oreq_orderid xs)"
  by (simp add: sorted_map roid_def word_le_nat_alt)

lemma sort_incoming:
  assumes "map roid (pm_incoming m @ pkt # rest) = [Suc k ..< Suc n]"
  shows "Sort oreq_orderid (pm_incoming m @ [pkt]) = pm_incoming m @ [pkt]"
proof -
  have "sorted (map roid (pm_incoming m @ pkt # rest))" using assms by (simp del: upt_Suc map_append)
  then have "sorted (map roid (pm_incoming m @ [pkt]))" by (auto simp: sorted_append)
  then show ?thesis by (simp add: Sort_def sorted_oids sort_key_id_if_sorted del: map_append)
qed

lemma send_order:
  assumes "map roid (pm_incoming m @ xs) = [Suc (length (pm_sent m)) ..< Suc n]"
    and "map soid (pm_sent m) = [1 ..< Suc (length (pm_sent m))]" and "length (pm_sent m) \<le> n"
  defines "m' \<equiv> maybeSendPackets m"
  shows "map roid (pm_incoming m' @ xs) = [Suc (length (pm_sent m')) ..< Suc n]
    \<and> map soid (pm_sent m') = [1 ..< Suc (length (pm_sent m'))] \<and> length (pm_sent m') \<le> n"
proof -
  obtain incs outs where i: "pm_incoming m = incs @ pm_incoming m'"
    and eq: "map oreq_orderid incs = map oresp_orderid outs" and sent: "pm_sent m' = pm_sent m @ outs"
    using maybeSendPackets_spec [of m] unfolding m'_def by blast
  have same: "map roid incs = map soid outs"
    using arg_cong [OF eq, of "map unat"] by (simp add: roid_def [abs_def] soid_def [abs_def] comp_def)
  then have len: "length incs = length outs" using map_eq_imp_length_eq by blast
  have split: "map roid incs @ map roid (pm_incoming m' @ xs) = [Suc (length (pm_sent m)) ..< Suc n]"
    using assms(1) by (simp add: i del: upt_Suc)
  note u = upt_split [OF split]
  have "map soid (pm_sent m') = [1 ..< Suc (length (pm_sent m))]
      @ [Suc (length (pm_sent m)) ..< Suc (length (pm_sent m) + length outs)]"
    using u assms(2) by (simp add: sent same [symmetric] len del: upt_Suc)
  also have "\<dots> = [1 ..< Suc (length (pm_sent m'))]"
    using upt_add_eq_append [of 1 "Suc (length (pm_sent m))" "length outs"] by (simp add: sent del: upt_Suc)
  finally show ?thesis using u assms(3) by (simp add: sent len del: upt_Suc)
qed

lemma order_Receive:
  assumes "do_Receive p s = Some s'" and "order_inv s" and "length (ps_received s') < 2 ^ 32"
  shows "order_inv s'"
proof -
  let ?n = "length (ps_received s)"
  have c: "pm_packetCount (ps_mgr s) = word_of_nat ?n" using assms(2) by (simp add: order_inv_def Let_def)
  have "?n + 1 < 2 ^ 32"
    using assms(1,3) by (auto simp: do_Receive_def newOrderedRequest_def newOrderID_def Let_def split: if_splits)
  then have u: "unat (word_of_nat ?n + 1 :: u32) = Suc ?n"
    using unat_word_of_nat_u32 [of "Suc ?n"] by (simp add: add.commute)
  show ?thesis
    using assms(1,2)
    by (auto simp: do_Receive_def newOrderedRequest_def newOrderID_def order_inv_def registered_def
        roid_def c u Let_def simp del: upt_Suc simp: upt_Suc [of _ "Suc ?n"] split: if_splits)
qed

lemma order_CtrlRequest:
  assumes "controller_request (ps_mgr s) = Some m'" and "order_inv s"
  shows "order_inv (s\<lparr>ps_mgr := m'\<rparr>)"
proof -
  let ?m = "ps_mgr s"
  obtain pkt rest where r: "pm_requests ?m = pkt # rest"
    using assms(1) by (cases "pm_requests ?m") (auto simp: controller_request_def)
  let ?t = "?m\<lparr>pm_requests := rest, pm_incoming := pm_incoming ?m @ [pkt]\<rparr>"
  have o: "map roid (pm_incoming ?m @ pkt # (rest @ ps_pktChan s))
      = [Suc (length (pm_sent ?m)) ..< Suc (length (ps_received s))]"
    using assms(2) by (simp add: order_inv_def registered_def r Let_def del: upt_Suc)
  have m': "m' = maybeSendPackets ?t"
    using assms(1) by (simp add: controller_request_def r sort_incoming [OF o])
  show ?thesis
    using send_order [of ?t "rest @ ps_pktChan s" "length (ps_received s)"] o assms(2)
    by (simp add: order_inv_def registered_def m' Let_def del: upt_Suc)
qed

lemma order_CtrlResponse:
  assumes "controller_response (ps_mgr s) = Some m'" and "order_inv s"
  shows "order_inv (s\<lparr>ps_mgr := m'\<rparr>)"
proof -
  let ?m = "ps_mgr s"
  obtain pkt rest where r: "pm_responses ?m = pkt # rest"
    using assms(1) by (cases "pm_responses ?m") (auto simp: controller_response_def)
  let ?t = "?m\<lparr>pm_responses := rest, pm_outgoing := Sort oresp_orderid (pm_outgoing ?m @ [pkt])\<rparr>"
  have m': "m' = maybeSendPackets ?t" using assms(1) by (simp add: controller_response_def r)
  show ?thesis
    using send_order [of ?t "pm_requests ?m @ ps_pktChan s" "length (ps_received s)"] assms(2)
    by (simp add: order_inv_def registered_def m' Let_def del: upt_Suc)
qed

lemma order_step:
  assumes "pm_step ans a s = Some s'" and "order_inv s" and "length (ps_received s') < 2 ^ 32"
  shows "order_inv s'"
proof (cases a)
  case (Receive p)
  then show ?thesis using assms order_Receive by simp
next
  case CtrlRequest
  then show ?thesis using assms order_CtrlRequest by (auto split: if_splits)
next
  case CtrlResponse
  then show ?thesis using assms order_CtrlResponse by (auto split: if_splits)
qed (use assms in \<open>auto simp: do_Dispatch_def do_Handover_def do_RwTake_def respond_with_def incomingPacket_def
      readyPacket_send_def readyPacket_done_def pm_close_def order_inv_def registered_def Let_def
      simp del: upt_Suc split: if_splits option.splits list.splits worker.splits\<close>)
lemma busy_take:
  assumes "i < length ws" and "ws ! i = Idle"
  shows "mset (concat (map busy (ws[i := Busy q]))) = add_mset q (mset (concat (map busy ws)))"
    and "sum_list (map fin (ws[i := Busy q])) = sum_list (map fin ws)"
  using mset_busy_update [OF assms(1), of "Busy q"] finishing_update [OF assms(1), of "Busy q"] assms(2)
  by simp_all

lemma busy_respond:
  assumes "i < length ws" and "ws ! i = Busy q"
  shows "mset (concat (map busy ws)) = add_mset q (mset (concat (map busy (ws[i := Finishing]))))"
    and "sum_list (map fin (ws[i := Finishing])) = Suc (sum_list (map fin ws))"
  using mset_busy_update [OF assms(1), of Finishing] finishing_update [OF assms(1), of Finishing] assms(2)
  by simp_all

lemma busy_done:
  assumes "i < length ws" and "ws ! i = Finishing"
  shows "mset (concat (map busy (ws[i := Idle]))) = mset (concat (map busy ws))"
    and "sum_list (map fin ws) = Suc (sum_list (map fin (ws[i := Idle])))"
  using mset_busy_update [OF assms(1), of Idle] finishing_update [OF assms(1), of Idle] assms(2)
  by simp_all

lemma flow_invI:
  assumes "image_mset oreq_orderid (mset (in_flight s))
        + image_mset oresp_orderid (mset (pm_outgoing (ps_mgr s) @ pm_responses (ps_mgr s)))
      = image_mset oreq_orderid (mset (registered (ps_mgr s)))"
    and "sorted (map oresp_orderid (pm_outgoing (ps_mgr s)))" and "heads_differ (ps_mgr s)"
    and "pm_working (ps_mgr s) = size (mset (in_flight s)) + finishing s"
    and "length (ps_rw s) = SftpServerWorkerCount"
  shows "flow_inv s"
  using assms unfolding flow_inv_def Let_def by simp

lemma flow_invD:
  assumes "flow_inv s"
  shows "image_mset oreq_orderid (mset (in_flight s))
        + image_mset oresp_orderid (mset (pm_outgoing (ps_mgr s) @ pm_responses (ps_mgr s)))
      = image_mset oreq_orderid (mset (registered (ps_mgr s)))"
    and "sorted (map oresp_orderid (pm_outgoing (ps_mgr s)))" and "heads_differ (ps_mgr s)"
    and "pm_working (ps_mgr s) = size (mset (in_flight s)) + finishing s"
    and "length (ps_rw s) = SftpServerWorkerCount"
  using assms unfolding flow_inv_def Let_def by simp_all

lemma flow_Dispatch:
  assumes "do_Dispatch s = Some s'" and "flow_inv s"
  shows "flow_inv s'"
proof -
  obtain pkt rest where "ps_disp s = None" and "s' = s\<lparr>ps_mgr := (ps_mgr s)\<lparr>pm_working := Suc (pm_working (ps_mgr s)),
      pm_requests := pm_requests (ps_mgr s) @ [pkt]\<rparr>, ps_pktChan := rest, ps_disp := Some pkt\<rparr>"
    using assms(1)
    by (auto simp: do_Dispatch_def incomingPacket_def split: option.splits list.splits if_splits)
  then show ?thesis
    using flow_invD [OF assms(2)]
    by (intro flow_invI) (simp_all add: mset_in_flight heads_differ_def registered_def finishing_def)
qed

lemma flow_Handover:
  assumes "do_Handover s = Some s'" and "flow_inv s"
  shows "flow_inv s'"
proof -
  obtain pkt where d: "ps_disp s = Some pkt"
    using assms(1) by (cases "ps_disp s") (auto simp: do_Handover_def)
  have "mset (in_flight s') = mset (in_flight s) \<and> finishing s' = finishing s \<and> ps_mgr s' = ps_mgr s
      \<and> ps_rw s' = ps_rw s"
    using assms(1) d by (auto simp: do_Handover_def mset_in_flight finishing_def split: if_splits)
  then show ?thesis using flow_invD [OF assms(2)] by (intro flow_invI) simp_all
qed

lemma flow_RwTake:
  assumes "do_RwTake i s = Some s'" and "flow_inv s"
  shows "flow_inv s'"
proof -
  obtain pkt rest where c: "ps_rwChan s = pkt # rest" and i: "i < length (ps_rw s)" "ps_rw s ! i = Idle"
    and s': "s' = s\<lparr>ps_rwChan := rest, ps_rw := (ps_rw s)[i := Busy pkt]\<rparr>"
    using assms(1) by (auto simp: do_RwTake_def split: list.splits if_splits)
  have "mset (in_flight s') = mset (in_flight s) \<and> finishing s' = finishing s"
    using busy_take [OF i, of pkt] by (simp add: s' c mset_in_flight finishing_def)
  then show ?thesis using flow_invD [OF assms(2)] by (intro flow_invI) (simp_all add: s')
qed

lemma flow_respond:
  assumes "flow_inv s" and "respond_with ans w r (ps_mgr s) = Some m"
    and "\<And>q. w = Busy q \<Longrightarrow> mset (in_flight s) = add_mset q (mset (in_flight s'))"
    and "finishing s' = Suc (finishing s)" and "ps_mgr s' = m" and "length (ps_rw s') = length (ps_rw s)"
  shows "flow_inv s'"
proof -
  obtain q where w: "w = Busy q" and m: "m = (ps_mgr s)\<lparr>pm_responses := pm_responses (ps_mgr s)
      @ [newOrderedResponse r (oreq_orderid q)]\<rparr>"
    using assms(2) by (auto simp: respond_with_def readyPacket_send_def split: worker.splits if_splits)
  show ?thesis
    using flow_invD [OF assms(1)] assms(3) [OF w] assms(4,6)
    by (intro flow_invI)
      (simp_all add: assms(5) m heads_differ_def registered_def newOrderedResponse_def)
qed

lemma flow_done:
  assumes "flow_inv s" and "mset (in_flight s') = mset (in_flight s)" and "finishing s = Suc (finishing s')"
    and "ps_mgr s' = readyPacket_done (ps_mgr s)" and "length (ps_rw s') = length (ps_rw s)"
  shows "flow_inv s'"
  using flow_invD [OF assms(1)] assms(2-)
  by (intro flow_invI) (simp_all add: readyPacket_done_def heads_differ_def registered_def)

lemma flow_send:
  assumes "image_mset oreq_orderid A + image_mset oresp_orderid (mset (pm_outgoing m @ pm_responses m))
      = image_mset oreq_orderid (mset (registered m))"
    and "sorted (map oresp_orderid (pm_outgoing m))"
  defines "m' \<equiv> maybeSendPackets m"
  shows "image_mset oreq_orderid A + image_mset oresp_orderid (mset (pm_outgoing m' @ pm_responses m'))
      = image_mset oreq_orderid (mset (registered m'))
    \<and> sorted (map oresp_orderid (pm_outgoing m')) \<and> heads_differ m'"
proof -
  obtain incs outs where "pm_incoming m = incs @ pm_incoming m'" "pm_outgoing m = outs @ pm_outgoing m'"
    and "map oreq_orderid incs = map oresp_orderid outs"
    using maybeSendPackets_spec [of m] unfolding m'_def by blast
  moreover from this(3) have "image_mset oreq_orderid (mset incs) = image_mset oresp_orderid (mset outs)"
    by (metis mset_map)
  ultimately show ?thesis
    using assms(1,2) maybeSendPackets_heads_differ [of m]
    by (auto simp: registered_def m'_def sorted_append ac_simps)
qed

lemma flow_Ctrl:
  assumes "flow_inv s" and "controller_request (ps_mgr s) = Some m \<or> controller_response (ps_mgr s) = Some m"
  shows "flow_inv (s\<lparr>ps_mgr := m\<rparr>)"
proof -
  note d = flow_invD [OF assms(1)]
  obtain t where m: "m = maybeSendPackets t" and w: "pm_working t = pm_working (ps_mgr s)"
    and t: "image_mset oreq_orderid (mset (in_flight s))
        + image_mset oresp_orderid (mset (pm_outgoing t @ pm_responses t))
      = image_mset oreq_orderid (mset (registered t))" "sorted (map oresp_orderid (pm_outgoing t))"
    using assms(2)
  proof
    assume "controller_request (ps_mgr s) = Some m"
    then show thesis
      using d by (intro that [of "(ps_mgr s)\<lparr>pm_requests := tl (pm_requests (ps_mgr s)),
          pm_incoming := Sort oreq_orderid (pm_incoming (ps_mgr s) @ [hd (pm_requests (ps_mgr s))])\<rparr>"])
        (auto simp: controller_request_def registered_def Sort_def split: list.splits)
  next
    assume "controller_response (ps_mgr s) = Some m"
    then show thesis
      using d by (intro that [of "(ps_mgr s)\<lparr>pm_responses := tl (pm_responses (ps_mgr s)),
          pm_outgoing := Sort oresp_orderid (pm_outgoing (ps_mgr s) @ [hd (pm_responses (ps_mgr s))])\<rparr>"])
        (auto simp: controller_response_def registered_def Sort_def split: list.splits)
  qed
  have "in_flight (s\<lparr>ps_mgr := m\<rparr>) = in_flight s" "finishing (s\<lparr>ps_mgr := m\<rparr>) = finishing s"
    by (simp_all add: in_flight_def finishing_def)
  then show ?thesis using flow_send [OF t] d w by (intro flow_invI) (simp_all add: m)
qed
lemma flow_same:
  assumes "flow_inv s" and "in_flight s' = in_flight s" and "finishing s' = finishing s" and "ps_rw s' = ps_rw s"
    and "registered (ps_mgr s') = registered (ps_mgr s)" and "pm_outgoing (ps_mgr s') = pm_outgoing (ps_mgr s)"
    and "pm_responses (ps_mgr s') = pm_responses (ps_mgr s)" and "pm_incoming (ps_mgr s') = pm_incoming (ps_mgr s)"
    and "pm_working (ps_mgr s') = pm_working (ps_mgr s)"
  shows "flow_inv s'"
  using flow_invD [OF assms(1)] assms(2-) by (intro flow_invI) (simp_all add: heads_differ_def)

lemmas same_simps = in_flight_def finishing_def registered_def

lemma flow_step:
  assumes step: "pm_step ans a s = Some s'" and inv: "flow_inv s"
  shows "flow_inv s'"
proof (cases a)
  case (RwRespond i r)
  then obtain m where i: "i < length (ps_rw s)" and m: "respond_with ans (ps_rw s ! i) r (ps_mgr s) = Some m"
    and s': "s' = s\<lparr>ps_mgr := m, ps_rw := (ps_rw s)[i := Finishing]\<rparr>"
    using step by (auto split: if_splits)
  then obtain q where q: "ps_rw s ! i = Busy q" by (auto simp: respond_with_def split: worker.splits)
  show ?thesis
    using busy_respond [OF i q]
    by (intro flow_respond [OF inv m]) (simp_all add: s' q mset_in_flight finishing_def)
next
  case (RwDone i)
  then have i: "i < length (ps_rw s)" "ps_rw s ! i = Finishing"
    and s': "s' = s\<lparr>ps_mgr := readyPacket_done (ps_mgr s), ps_rw := (ps_rw s)[i := Idle]\<rparr>"
    using step by (auto split: if_splits)
  show ?thesis
    using busy_done [OF i] by (intro flow_done [OF inv]) (simp_all add: s' mset_in_flight finishing_def)
next
  case (CmdRespond r)
  then obtain m where m: "respond_with ans (ps_cmd s) r (ps_mgr s) = Some m"
    and s': "s' = s\<lparr>ps_mgr := m, ps_cmd := Finishing\<rparr>" using step by auto
  then obtain q where q: "ps_cmd s = Busy q" by (auto simp: respond_with_def split: worker.splits)
  show ?thesis
    by (intro flow_respond [OF inv m]) (simp_all add: s' q mset_in_flight finishing_def)
next
  case CmdDone
  then have "ps_cmd s = Finishing" and s': "s' = s\<lparr>ps_mgr := readyPacket_done (ps_mgr s), ps_cmd := Idle\<rparr>"
    using step by (auto split: if_splits)
  then show ?thesis by (intro flow_done [OF inv]) (simp_all add: mset_in_flight finishing_def)
next
  case CtrlRequest
  then show ?thesis using step flow_Ctrl [OF inv] by (auto split: if_splits)
next
  case CtrlResponse
  then show ?thesis using step flow_Ctrl [OF inv] by (auto split: if_splits)
next
  case (Receive p)
  then show ?thesis using step
    by (intro flow_same [OF inv]) (auto simp: do_Receive_def newOrderedRequest_def newOrderID_def Let_def
        same_simps split: if_splits)
qed (use step inv flow_Dispatch flow_Handover flow_RwTake in
    \<open>auto simp: pm_close_def same_simps intro: flow_same [OF inv] split: if_splits\<close>)

section \<open>Responses answer their requests\<close>

lemma names_snoc: "names rs q \<Longrightarrow> names (rs @ [p]) q"
  by (auto simp: names_def nth_append)

lemma answers_snoc: "answers_named ans rs r \<Longrightarrow> answers_named ans (rs @ [p]) r"
  by (auto simp: answers_named_def nth_append)

lemma answer_invD:
  assumes "answer_inv ans s"
  shows "q \<in> set (pm_incoming (ps_mgr s)) \<or> q \<in> set (pm_requests (ps_mgr s)) \<or> q \<in> set (ps_pktChan s)
      \<or> q \<in> set (in_flight s) \<Longrightarrow> names (ps_received s) q"
    and "r \<in> set (pm_outgoing (ps_mgr s)) \<or> r \<in> set (pm_responses (ps_mgr s)) \<or> r \<in> set (pm_sent (ps_mgr s))
      \<Longrightarrow> answers_named ans (ps_received s) r"
  using assms by (auto simp: answer_inv_def registered_def list_all_iff Let_def)

lemma answer_invI:
  assumes "\<And>q. q \<in> set (pm_incoming (ps_mgr s)) \<or> q \<in> set (pm_requests (ps_mgr s))
      \<or> q \<in> set (ps_pktChan s) \<or> q \<in> set (in_flight s) \<Longrightarrow> names (ps_received s) q"
    and "\<And>r. r \<in> set (pm_outgoing (ps_mgr s)) \<or> r \<in> set (pm_responses (ps_mgr s))
      \<or> r \<in> set (pm_sent (ps_mgr s)) \<Longrightarrow> answers_named ans (ps_received s) r"
  shows "answer_inv ans s"
  using assms by (auto simp: answer_inv_def registered_def list_all_iff Let_def)

lemma answer_mono:
  assumes "answer_inv ans s" and "ps_received s' = ps_received s"
    and "set (pm_incoming (ps_mgr s')) \<union> set (pm_requests (ps_mgr s')) \<union> set (ps_pktChan s') \<union> set (in_flight s')
      \<subseteq> set (pm_incoming (ps_mgr s)) \<union> set (pm_requests (ps_mgr s)) \<union> set (ps_pktChan s) \<union> set (in_flight s)"
    and "set (pm_outgoing (ps_mgr s')) \<union> set (pm_responses (ps_mgr s')) \<union> set (pm_sent (ps_mgr s'))
      \<subseteq> set (pm_outgoing (ps_mgr s)) \<union> set (pm_responses (ps_mgr s)) \<union> set (pm_sent (ps_mgr s)) \<union> R"
    and "\<And>r. r \<in> R \<Longrightarrow> answers_named ans (ps_received s) r"
  shows "answer_inv ans s'"
proof (rule answer_invI)
  fix q
  assume "q \<in> set (pm_incoming (ps_mgr s')) \<or> q \<in> set (pm_requests (ps_mgr s'))
      \<or> q \<in> set (ps_pktChan s') \<or> q \<in> set (in_flight s')"
  then show "names (ps_received s') q"
    unfolding assms(2) using assms(3) by (intro answer_invD(1) [OF assms(1)]) auto
next
  fix r
  assume "r \<in> set (pm_outgoing (ps_mgr s')) \<or> r \<in> set (pm_responses (ps_mgr s'))
      \<or> r \<in> set (pm_sent (ps_mgr s'))"
  then have "r \<in> R \<or> r \<in> set (pm_outgoing (ps_mgr s)) \<or> r \<in> set (pm_responses (ps_mgr s))
      \<or> r \<in> set (pm_sent (ps_mgr s))" using assms(4) by auto
  then show "answers_named ans (ps_received s') r"
    unfolding assms(2) using answer_invD(2) [OF assms(1)] assms(5) by blast
qed

lemma send_subset:
  "set (pm_incoming (maybeSendPackets m)) \<subseteq> set (pm_incoming m)"
  "set (pm_outgoing (maybeSendPackets m)) \<union> set (pm_sent (maybeSendPackets m))
     = set (pm_outgoing m) \<union> set (pm_sent m)"
proof -
  obtain incs outs where "pm_incoming m = incs @ pm_incoming (maybeSendPackets m)"
    and "pm_outgoing m = outs @ pm_outgoing (maybeSendPackets m)"
    and "pm_sent (maybeSendPackets m) = pm_sent m @ outs"
    using maybeSendPackets_spec [of m] by blast
  then show "set (pm_incoming (maybeSendPackets m)) \<subseteq> set (pm_incoming m)"
    and "set (pm_outgoing (maybeSendPackets m)) \<union> set (pm_sent (maybeSendPackets m))
     = set (pm_outgoing m) \<union> set (pm_sent m)" by (metis set_append Un_upper2, auto)
qed

lemma answer_respond:
  assumes "answer_inv ans s" and "respond_with ans w r (ps_mgr s) = Some m"
    and "set (busy w) \<subseteq> set (in_flight s)"
    and "ps_mgr s' = m" and "ps_received s' = ps_received s" and "ps_pktChan s' = ps_pktChan s"
    and "set (in_flight s') \<subseteq> set (in_flight s)"
  shows "answer_inv ans s'"
proof -
  obtain q where w: "w = Busy q" and a: "ans (oreq_packet q) r" and m: "m = (ps_mgr s)\<lparr>pm_responses :=
      pm_responses (ps_mgr s) @ [newOrderedResponse r (oreq_orderid q)]\<rparr>"
    using assms(2) by (auto simp: respond_with_def readyPacket_send_def split: worker.splits if_splits)
  have "names (ps_received s) q" using answer_invD(1) [OF assms(1)] assms(3) w by auto
  then have "answers_named ans (ps_received s) (newOrderedResponse r (oreq_orderid q))"
    using a by (simp add: names_def answers_named_def newOrderedResponse_def roid_def soid_def)
  then show ?thesis
    using assms(4-)
    by (intro answer_mono [OF assms(1), of s' "{newOrderedResponse r (oreq_orderid q)}"]) (auto simp: m)
qed
lemma answer_step:
  assumes step: "pm_step ans a s = Some s'" and inv: "answer_inv ans s" and "order_inv s'"
  shows "answer_inv ans s'"
proof (cases a)
  case (Receive p)
  define q where "q = \<lparr>oreq_packet = p, oreq_orderid = pm_packetCount (ps_mgr s) + 1\<rparr>"
  have s': "ps_pktChan s' = ps_pktChan s @ [q]" "ps_received s' = ps_received s @ [p]"
    "pm_incoming (ps_mgr s') = pm_incoming (ps_mgr s)" "pm_requests (ps_mgr s') = pm_requests (ps_mgr s)"
    "in_flight s' = in_flight s" "pm_outgoing (ps_mgr s') = pm_outgoing (ps_mgr s)"
    "pm_responses (ps_mgr s') = pm_responses (ps_mgr s)" "pm_sent (ps_mgr s') = pm_sent (ps_mgr s)"
    using step Receive
    by (auto simp: do_Receive_def newOrderedRequest_def newOrderID_def Let_def in_flight_def q_def split: if_splits)
  have "map roid (registered (ps_mgr s') @ ps_pktChan s @ [q])
      = [Suc (length (pm_sent (ps_mgr s'))) ..< Suc (Suc (length (ps_received s)))]"
    using \<open>order_inv s'\<close> by (simp add: order_inv_def Let_def s' del: upt_Suc)
  then have "roid q = Suc (length (ps_received s))" by (auto split: if_splits)
  then have "names (ps_received s @ [p]) q" by (simp add: names_def q_def)
  then show ?thesis
    using answer_invD [OF inv] names_snoc answers_snoc by (intro answer_invI) (auto simp: s')
next
  case (RwRespond i r)
  then obtain m where i: "i < length (ps_rw s)" and m: "respond_with ans (ps_rw s ! i) r (ps_mgr s) = Some m"
    and s': "s' = s\<lparr>ps_mgr := m, ps_rw := (ps_rw s)[i := Finishing]\<rparr>"
    using step by (auto split: if_splits)
  then obtain q where q: "ps_rw s ! i = Busy q" by (auto simp: respond_with_def split: worker.splits)
  have "set (concat (map busy ((ps_rw s)[i := Finishing]))) \<subseteq> set (concat (map busy (ps_rw s)))"
    using arg_cong [OF busy_respond(1) [OF i q], of set_mset] by auto
  then show ?thesis
    using concat_busy_nth [OF i]
    by (intro answer_respond [OF inv m]) (auto simp: s' set_in_flight simp del: set_concat)
next
  case (CmdRespond r)
  then obtain m where m: "respond_with ans (ps_cmd s) r (ps_mgr s) = Some m"
    and s': "s' = s\<lparr>ps_mgr := m, ps_cmd := Finishing\<rparr>" using step by auto
  then show ?thesis by (intro answer_respond [OF inv m]) (auto simp: set_in_flight)
next
  case (RwDone i)
  then have i: "i < length (ps_rw s)" "ps_rw s ! i = Finishing"
    and s': "s' = s\<lparr>ps_mgr := readyPacket_done (ps_mgr s), ps_rw := (ps_rw s)[i := Idle]\<rparr>"
    using step by (auto split: if_splits)
  show ?thesis
    using busy_done(1) [OF i, THEN mset_eq_setD]
    by (intro answer_mono [OF inv, of _ "{}"]) (auto simp: s' set_in_flight readyPacket_done_def)
next
  case (RwTake i)
  then obtain pkt rest where c: "ps_rwChan s = pkt # rest" and i: "i < length (ps_rw s)" "ps_rw s ! i = Idle"
    and s': "s' = s\<lparr>ps_rwChan := rest, ps_rw := (ps_rw s)[i := Busy pkt]\<rparr>"
    using step by (auto simp: do_RwTake_def split: list.splits if_splits)
  show ?thesis
    using arg_cong [OF busy_take(1) [OF i, of pkt], of set_mset]
    by (intro answer_mono [OF inv, of _ "{}"]) (auto simp: s' c set_in_flight)
next
  case CtrlRequest
  then obtain pkt rest where r: "pm_requests (ps_mgr s) = pkt # rest"
    and s': "s' = s\<lparr>ps_mgr := maybeSendPackets ((ps_mgr s)\<lparr>pm_requests := rest,
             pm_incoming := Sort oreq_orderid (pm_incoming (ps_mgr s) @ [pkt])\<rparr>)\<rparr>" (is "_ = s\<lparr>ps_mgr := maybeSendPackets ?t\<rparr>")
    using step by (auto simp: controller_request_def split: if_splits list.splits)
  show ?thesis
    using send_subset [of ?t]
    by (intro answer_mono [OF inv, of _ "{}"]) (auto simp: s' r Sort_def set_in_flight)
next
  case CtrlResponse
  then obtain pkt rest where r: "pm_responses (ps_mgr s) = pkt # rest"
    and s': "s' = s\<lparr>ps_mgr := maybeSendPackets ((ps_mgr s)\<lparr>pm_responses := rest,
             pm_outgoing := Sort oresp_orderid (pm_outgoing (ps_mgr s) @ [pkt])\<rparr>)\<rparr>" (is "_ = s\<lparr>ps_mgr := maybeSendPackets ?t\<rparr>")
    using step by (auto simp: controller_response_def split: if_splits list.splits)
  show ?thesis
    using send_subset [of ?t]
    by (intro answer_mono [OF inv, of _ "{}"]) (auto simp: s' r Sort_def set_in_flight)
qed (use step in \<open>auto intro!: answer_mono [OF inv, of _ "{}"] simp: do_Dispatch_def do_Handover_def
       incomingPacket_def pm_close_def readyPacket_done_def set_in_flight
       split: if_splits option.splits list.splits\<close>)

section \<open>Closing waits\<close>

definition close_inv :: "pmSystem \<Rightarrow> bool" where
  "close_inv s \<longleftrightarrow>
     (\<forall>c \<in> set (in_flight s). is_close (oreq_packet c) \<longrightarrow> (\<forall>q \<in> set (in_flight s). roid c \<le> roid q))"

lemma close_mono: "close_inv s \<Longrightarrow> set (in_flight s') \<subseteq> set (in_flight s) \<Longrightarrow> close_inv s'"
  unfolding close_inv_def by blast

lemma in_flight_registered:
  assumes "flow_inv s" and "q \<in> set (in_flight s)"
  shows "roid q \<in> set (map roid (registered (ps_mgr s)))"
proof -
  have "oreq_orderid q \<in># image_mset oreq_orderid (mset (in_flight s))" using assms(2) by auto
  then have "oreq_orderid q \<in># image_mset oreq_orderid (mset (registered (ps_mgr s)))"
    unfolding flow_invD(1) [OF assms(1), symmetric] by simp
  then show ?thesis by (auto simp: roid_def)
qed

lemma registered_ids:
  assumes "order_inv s"
  defines "k \<equiv> length (pm_sent (ps_mgr s))" and "l \<equiv> length (registered (ps_mgr s))"
  shows "set (map roid (registered (ps_mgr s))) = {Suc k ..< Suc (k + l)}"
    and "set (map roid (ps_pktChan s)) = {Suc (k + l) ..< Suc (length (ps_received s))}"
proof -
  have "map roid (registered (ps_mgr s)) @ map roid (ps_pktChan s) = [Suc k ..< Suc (length (ps_received s))]"
    using assms(1) by (simp add: order_inv_def k_def Let_def del: upt_Suc)
  from upt_split [OF this]
  show "set (map roid (registered (ps_mgr s))) = {Suc k ..< Suc (k + l)}"
    and "set (map roid (ps_pktChan s)) = {Suc (k + l) ..< Suc (length (ps_received s))}"
    unfolding l_def by (metis set_upt length_map)+
qed

lemma pktChan_after_registered:
  assumes "order_inv s" and "x \<in> set (map roid (registered (ps_mgr s)))" and "q \<in> set (ps_pktChan s)"
  shows "x < roid q"
proof -
  have "roid q \<in> set (map roid (ps_pktChan s))" using assms(3) by simp
  then show ?thesis using assms(2) unfolding registered_ids [OF assms(1)] by simp
qed

lemma in_flight_step:
  assumes "pm_step ans a s = Some s'" and "a \<noteq> Dispatch"
  shows "set (in_flight s') \<subseteq> set (in_flight s)"
proof (cases a)
  case (RwRespond i r)
  then obtain q where i: "i < length (ps_rw s)" "ps_rw s ! i = Busy q"
    and s': "ps_rw s' = (ps_rw s)[i := Finishing]" "ps_disp s' = ps_disp s" "ps_rwChan s' = ps_rwChan s"
      "ps_cmd s' = ps_cmd s"
    using assms(1) by (auto simp: respond_with_def split: if_splits worker.splits)
  show ?thesis
    using arg_cong [OF busy_respond(1) [OF i], of set_mset] by (auto simp: set_in_flight s')
next
  case (RwDone i)
  then have i: "i < length (ps_rw s)" "ps_rw s ! i = Finishing"
    and s': "s' = s\<lparr>ps_mgr := readyPacket_done (ps_mgr s), ps_rw := (ps_rw s)[i := Idle]\<rparr>"
    using assms(1) by (auto split: if_splits)
  show ?thesis using busy_done(1) [OF i, THEN mset_eq_setD] by (auto simp: s' set_in_flight)
next
  case (RwTake i)
  then obtain pkt rest where c: "ps_rwChan s = pkt # rest" and i: "i < length (ps_rw s)" "ps_rw s ! i = Idle"
    and s': "s' = s\<lparr>ps_rwChan := rest, ps_rw := (ps_rw s)[i := Busy pkt]\<rparr>"
    using assms(1) by (auto simp: do_RwTake_def split: list.splits if_splits)
  show ?thesis
    using arg_cong [OF busy_take(1) [OF i, of pkt], of set_mset] by (auto simp: s' c set_in_flight)
qed (use assms in \<open>auto simp: do_Receive_def newOrderedRequest_def newOrderID_def do_Handover_def
       pm_close_def readyPacket_done_def set_in_flight Let_def split: if_splits option.splits\<close>)

lemma close_step:
  assumes step: "pm_step ans a s = Some s'" and inv: "close_inv s" and o: "order_inv s" and f: "flow_inv s"
  shows "close_inv s'"
proof (cases "a = Dispatch")
  case True
  then obtain pkt rest where d: "ps_disp s = None" and c: "ps_pktChan s = pkt # rest"
    and g: "is_close (oreq_packet pkt) \<Longrightarrow> pm_working (ps_mgr s) = 0"
    and s': "ps_disp s' = Some pkt" "ps_rwChan s' = ps_rwChan s" "ps_rw s' = ps_rw s" "ps_cmd s' = ps_cmd s"
    using step by (auto simp: do_Dispatch_def split: option.splits list.splits if_splits)
  have set': "set (in_flight s') = insert pkt (set (in_flight s))" by (auto simp: set_in_flight s' d)
  have later: "roid q < roid pkt" if "q \<in> set (in_flight s)" for q
    using pktChan_after_registered [OF o in_flight_registered [OF f that]] c by simp
  have "in_flight s = []" if "is_close (oreq_packet pkt)"
    using g [OF that] flow_invD(4) [OF f] by simp
  then show ?thesis using inv later by (auto simp: close_inv_def set' less_imp_le)
next
  case False
  then show ?thesis using close_mono [OF inv in_flight_step [OF step]] by simp
qed

section \<open>Reachable states\<close>

definition pm_inv :: "(requestPacket \<Rightarrow> responsePacket \<Rightarrow> bool) \<Rightarrow> pmSystem \<Rightarrow> bool" where
  "pm_inv ans s \<longleftrightarrow> order_inv s \<and> flow_inv s \<and> answer_inv ans s \<and> close_inv s"

lemma received_mono:
  assumes "pm_step ans a s = Some s'"
  shows "length (ps_received s) \<le> length (ps_received s')"
  using assms
  by (cases a) (auto simp: do_Receive_def newOrderedRequest_def newOrderID_def do_Dispatch_def do_Handover_def
      do_RwTake_def Let_def split: if_splits option.splits list.splits)

lemma pm_inv_init: "pm_inv ans (pm_init al)"
  by (auto simp: pm_inv_def order_inv_def flow_inv_def answer_inv_def close_inv_def pm_init_def newPktMgr_def
      registered_def in_flight_def finishing_def heads_differ_def SftpServerWorkerCount_def Let_def eval_nat_numeral)

lemma pm_reachable_inv:
  "pm_reachable ans al s \<Longrightarrow> length (ps_received s) < 2 ^ 32 \<Longrightarrow> pm_inv ans s"
proof (induction rule: pm_reachable.induct)
  case init
  show ?case by (rule pm_inv_init)
next
  case (step s a s')
  have inv: "pm_inv ans s" using step received_mono [OF step(2)] by simp
  moreover have "order_inv s'" using inv order_step [OF step(2)] step(4) by (simp add: pm_inv_def)
  ultimately show ?case
    using flow_step [OF step(2)] answer_step [OF step(2)] close_step [OF step(2)] by (simp add: pm_inv_def)
qed

section \<open>Buffers\<close>

text \<open>
  With the allocator enabled, exactly the requests that are not answered yet hold pages.
\<close>

definition pages_inv :: "pmSystem \<Rightarrow> bool" where
  "pages_inv s \<longleftrightarrow>
     (case pm_alloc (ps_mgr s) of None \<Rightarrow> True
      | Some a \<Rightarrow> alloc_inv a \<and> (\<forall>i. used_pages a i \<noteq> [] \<longleftrightarrow>
          length (pm_sent (ps_mgr s)) < unat i \<and> unat i \<le> length (ps_received s)))"

lemma fold_ReleasePages:
  "used_pages (fold (\<lambda>i a. ReleasePages a i) ids a) j = (if j \<in> set ids then [] else used_pages a j)"
  "alloc_inv a \<Longrightarrow> alloc_inv (fold (\<lambda>i a. ReleasePages a i) ids a)"
  by (induction ids arbitrary: a) (auto simp: ReleasePages_inv)

lemma pages_send:
  assumes "map roid (pm_incoming m @ xs) = [Suc (length (pm_sent m)) ..< Suc n]"
    and "pm_alloc (maybeSendPackets m) = Some b"
    and "\<And>a. pm_alloc m = Some a \<Longrightarrow> alloc_inv a \<and>
      (\<forall>i. used_pages a i \<noteq> [] \<longleftrightarrow> length (pm_sent m) < unat i \<and> unat i \<le> n)"
  shows "alloc_inv b \<and> (\<forall>i. used_pages b i \<noteq> [] \<longleftrightarrow>
      length (pm_sent (maybeSendPackets m)) < unat i \<and> unat i \<le> n)"
proof -
  let ?k = "length (pm_sent m)"
  obtain incs outs where i: "pm_incoming m = incs @ pm_incoming (maybeSendPackets m)"
    and eq: "map oreq_orderid incs = map oresp_orderid outs"
    and sent: "pm_sent (maybeSendPackets m) = pm_sent m @ outs"
    and al: "pm_alloc (maybeSendPackets m)
        = map_option (\<lambda>a. fold (\<lambda>i a. ReleasePages a i) (map oreq_orderid incs) a) (pm_alloc m)"
    using maybeSendPackets_spec [of m] by blast
  obtain a where a: "pm_alloc m = Some a" and b: "b = fold (\<lambda>i a. ReleasePages a i) (map oreq_orderid incs) a"
    using assms(2) al by auto
  have len: "length incs = length outs" using eq map_eq_imp_length_eq by blast
  have "map roid incs @ map roid (pm_incoming (maybeSendPackets m) @ xs) = [Suc ?k ..< Suc n]"
    using assms(1) by (simp add: i del: upt_Suc)
  from upt_split [OF this] have r: "map roid incs = [Suc ?k ..< Suc (?k + length outs)]"
    using len by (simp del: upt_Suc)
  have "j \<in> set (map oreq_orderid incs) \<longleftrightarrow> ?k < unat j \<and> unat j \<le> ?k + length outs" for j
  proof -
    have "j \<in> set (map oreq_orderid incs) \<longleftrightarrow> unat j \<in> set (map roid incs)"
      by (auto simp: roid_def word_unat_eq_iff [symmetric])
    also have "\<dots> \<longleftrightarrow> ?k < unat j \<and> unat j \<le> ?k + length outs" unfolding r by auto
    finally show ?thesis .
  qed
  then show ?thesis
    using assms(3) [OF a] by (auto simp: b sent fold_ReleasePages)
qed

lemma pages_GetPage:
  "used_pages (snd (GetPage a i)) j \<noteq> [] \<longleftrightarrow> j = i \<or> used_pages a j \<noteq> []"
  using GetPage_used [of a i "fst (GetPage a i)" "snd (GetPage a i)" j] by auto

lemma pages_Receive:
  assumes "do_Receive p s = Some s'" and "order_inv s" and "length (ps_received s') < 2 ^ 32" and "pages_inv s"
  shows "pages_inv s'"
proof -
  let ?n = "length (ps_received s)" and ?k = "length (pm_sent (ps_mgr s))"
  have c: "pm_packetCount (ps_mgr s) = word_of_nat ?n" and k: "?k \<le> ?n"
    using assms(2) by (simp_all add: order_inv_def Let_def)
  have s': "ps_received s' = ps_received s @ [p]" "pm_sent (ps_mgr s') = pm_sent (ps_mgr s)"
    "pm_alloc (ps_mgr s') = map_option (\<lambda>a. snd (GetPage a (getNextOrderID (ps_mgr s)))) (pm_alloc (ps_mgr s))"
    using assms(1) by (auto simp: do_Receive_def newOrderedRequest_def newOrderID_def Let_def split: if_splits)
  have "?n + 1 < 2 ^ 32" using assms(3) s'(1) by simp
  then have u: "unat (getNextOrderID (ps_mgr s)) = Suc ?n"
    using unat_word_of_nat_u32 [of "Suc ?n"] by (simp add: getNextOrderID_def c add.commute)
  have "j = getNextOrderID (ps_mgr s) \<longleftrightarrow> unat j = Suc ?n" for j using u by (metis word_unat_eq_iff)
  then show ?thesis
    using assms(4) k
    by (auto simp: pages_inv_def s' pages_GetPage le_Suc_eq
        intro: GetPage_inv [OF _ prod.collapse [symmetric]] split: option.splits)
qed

lemma pages_Ctrl:
  assumes "order_inv s" and "pages_inv s"
    and "controller_request (ps_mgr s) = Some m \<or> controller_response (ps_mgr s) = Some m"
  shows "pages_inv (s\<lparr>ps_mgr := m\<rparr>)"
proof -
  let ?n = "length (ps_received s)"
  have ord: "map roid (pm_incoming (ps_mgr s) @ pm_requests (ps_mgr s) @ ps_pktChan s)
      = [Suc (length (pm_sent (ps_mgr s))) ..< Suc ?n]"
    using assms(1) by (simp add: order_inv_def registered_def Let_def del: upt_Suc)
  obtain t xs where m: "m = maybeSendPackets t" and t: "pm_alloc t = pm_alloc (ps_mgr s)"
    "pm_sent t = pm_sent (ps_mgr s)"
    "map roid (pm_incoming t @ xs) = [Suc (length (pm_sent t)) ..< Suc ?n]"
    using assms(3)
  proof
    assume r: "controller_request (ps_mgr s) = Some m"
    then obtain pkt rest where q: "pm_requests (ps_mgr s) = pkt # rest"
      by (cases "pm_requests (ps_mgr s)") (auto simp: controller_request_def)
    show thesis
      using r ord sort_incoming [of "ps_mgr s" pkt "rest @ ps_pktChan s"]
      by (intro that [of "(ps_mgr s)\<lparr>pm_requests := rest,
          pm_incoming := Sort oreq_orderid (pm_incoming (ps_mgr s) @ [pkt])\<rparr>" "rest @ ps_pktChan s"])
        (simp_all add: controller_request_def q del: upt_Suc)
  next
    assume r: "controller_response (ps_mgr s) = Some m"
    then obtain pkt rest where q: "pm_responses (ps_mgr s) = pkt # rest"
      by (cases "pm_responses (ps_mgr s)") (auto simp: controller_response_def)
    show thesis
      using r ord
      by (intro that [of "(ps_mgr s)\<lparr>pm_responses := rest,
          pm_outgoing := Sort oresp_orderid (pm_outgoing (ps_mgr s) @ [pkt])\<rparr>"
            "pm_requests (ps_mgr s) @ ps_pktChan s"])
        (simp_all add: controller_response_def q del: upt_Suc)
  qed
  show ?thesis
  proof (cases "pm_alloc m")
    case (Some b)
    have "pm_alloc t = Some a \<Longrightarrow> alloc_inv a \<and> (\<forall>i. used_pages a i \<noteq> [] \<longleftrightarrow>
        length (pm_sent t) < unat i \<and> unat i \<le> ?n)" for a
      using assms(2) by (simp add: pages_inv_def t(1,2))
    from pages_send [OF t(3) Some [unfolded m] this] Some show ?thesis by (simp add: pages_inv_def m)
  qed (simp add: pages_inv_def)
qed

lemma pages_GetSlice:
  assumes "oid \<in> oreq_orderid ` set (concat (map busy (ps_rw s)))"
    and "order_inv s" and "flow_inv s" and "pages_inv s"
  shows "pages_inv (s\<lparr>ps_mgr := (ps_mgr s)\<lparr>pm_alloc :=
    map_option (\<lambda>a. snd (GetPage a oid)) (pm_alloc (ps_mgr s))\<rparr>\<rparr>)"
proof -
  obtain q where "q \<in> set (in_flight s)" and oid: "oreq_orderid q = oid"
    using assms(1) unfolding set_in_flight by blast
  then have "unat oid \<in> set (map roid (registered (ps_mgr s) @ ps_pktChan s))"
    using in_flight_registered [OF assms(3)] by (auto simp: roid_def)
  then have "length (pm_sent (ps_mgr s)) < unat oid \<and> unat oid \<le> length (ps_received s)"
    unfolding assms(2) [unfolded order_inv_def Let_def, THEN conjunct1] by auto
  then show ?thesis
    using assms(4)
    by (auto simp: pages_inv_def pages_GetPage intro: GetPage_inv [OF _ prod.collapse [symmetric]]
        split: option.splits)
qed

lemma pages_step:
  assumes step: "pm_step ans a s = Some s'" and o: "order_inv s" and f: "flow_inv s"
    and b: "length (ps_received s') < 2 ^ 32" and p: "pages_inv s"
  shows "pages_inv s'"
proof (cases a)
  case (Receive r)
  then show ?thesis using step pages_Receive [OF _ o b p] by simp
next
  case CtrlRequest
  then show ?thesis using step pages_Ctrl [OF o p] by (auto split: if_splits)
next
  case CtrlResponse
  then show ?thesis using step pages_Ctrl [OF o p] by (auto split: if_splits)
next
  case (GetSlice i)
  then show ?thesis using step pages_GetSlice [OF _ o f p] by (auto split: if_splits)
qed (use step p in \<open>auto simp: pages_inv_def do_Dispatch_def do_Handover_def do_RwTake_def respond_with_def
      incomingPacket_def readyPacket_send_def readyPacket_done_def pm_close_def
      split: if_splits option.splits list.splits worker.splits\<close>)

lemma pm_reachable_pages:
  assumes "alloc_inv a" and "\<And>i. used_pages a i = []"
  shows "pm_reachable ans (Some a) s \<Longrightarrow> length (ps_received s) < 2 ^ 32 \<Longrightarrow> pages_inv s"
proof (induction rule: pm_reachable.induct)
  case init
  show ?case using assms by (auto simp: pages_inv_def pm_init_def newPktMgr_def)
next
  case (step s c s')
  have "length (ps_received s) < 2 ^ 32" using step received_mono [OF step(2)] by simp
  then show ?case
    using step pages_step [OF step(2)] pm_reachable_inv [OF step(1)] by (simp add: pm_inv_def)
qed

section \<open>Progress\<close>

text \<open>
  The actions of the dispatcher, the workers and the controller that process what has been
  received; the others are input, the buffer of a read, and shutting down.
\<close>

fun internal :: "pm_action \<Rightarrow> bool" where
  "internal (Receive _) = False"
| "internal CloseInput = False"
| "internal (GetSlice _) = False"
| "internal DispatchEnd = False"
| "internal CtrlFini = False"
| "internal _ = True"

definition stuck :: "(requestPacket \<Rightarrow> responsePacket \<Rightarrow> bool) \<Rightarrow> pmSystem \<Rightarrow> bool" where
  "stuck ans s \<longleftrightarrow> (\<forall>a. internal a \<longrightarrow> pm_step ans a s = None)"

definition pm_measure :: "pmSystem \<Rightarrow> nat" where
  "pm_measure s = 7 * length (ps_pktChan s) + (case ps_disp s of None \<Rightarrow> 0 | Some _ \<Rightarrow> 5)
     + 4 * length (ps_rwChan s) + 3 * size (mset (concat (map busy (ps_rw s)))) + 3 * length (busy (ps_cmd s))
     + finishing s + length (pm_requests (ps_mgr s)) + length (pm_responses (ps_mgr s))"

lemma internal_decreases:
  assumes step: "pm_step ans a s = Some s'" and "internal a"
  shows "pm_measure s' < pm_measure s"
proof (cases a)
  case (RwRespond i r)
  then obtain q m where i: "i < length (ps_rw s)" "ps_rw s ! i = Busy q"
    and s': "s' = s\<lparr>ps_mgr := (ps_mgr s)\<lparr>pm_responses := pm_responses (ps_mgr s) @ [m]\<rparr>,
      ps_rw := (ps_rw s)[i := Finishing]\<rparr>"
    using step by (auto simp: respond_with_def readyPacket_send_def split: if_splits worker.splits)
  show ?thesis
    using arg_cong [OF busy_respond(1) [OF i], of size] busy_respond(2) [OF i]
    by (simp add: s' pm_measure_def finishing_def split: option.split)
next
  case (RwDone i)
  then have i: "i < length (ps_rw s)" "ps_rw s ! i = Finishing"
    and s': "s' = s\<lparr>ps_mgr := readyPacket_done (ps_mgr s), ps_rw := (ps_rw s)[i := Idle]\<rparr>"
    using step by (auto split: if_splits)
  show ?thesis
    using arg_cong [OF busy_done(1) [OF i], of size] busy_done(2) [OF i]
    by (simp add: s' pm_measure_def finishing_def readyPacket_done_def split: option.split)
next
  case (RwTake i)
  then obtain pkt rest where c: "ps_rwChan s = pkt # rest" and i: "i < length (ps_rw s)" "ps_rw s ! i = Idle"
    and s': "s' = s\<lparr>ps_rwChan := rest, ps_rw := (ps_rw s)[i := Busy pkt]\<rparr>"
    using step by (auto simp: do_RwTake_def split: list.splits if_splits)
  show ?thesis
    using arg_cong [OF busy_take(1) [OF i, of pkt], of size] busy_take(2) [OF i, of pkt]
    by (simp add: s' c pm_measure_def finishing_def split: option.split)
qed (use assms in \<open>auto simp: pm_measure_def finishing_def do_Dispatch_def do_Handover_def respond_with_def
      incomingPacket_def readyPacket_send_def readyPacket_done_def controller_request_def controller_response_def
      split: if_splits option.splits list.splits worker.splits\<close>)

lemma internal_frame:
  assumes "pm_step ans a s = Some s'" and "internal a"
  shows "ps_received s' = ps_received s" and "ps_stopped s' = ps_stopped s"
  using assms
  by (cases a, auto simp: do_Dispatch_def do_Handover_def do_RwTake_def split: if_splits option.splits list.splits)+

lemma stuck_workers:
  assumes "stuck ans s" and "\<not> ps_stopped s" and "flow_inv s" and "\<And>q. \<exists>r. ans q r"
  shows "pm_requests (ps_mgr s) = [] \<and> pm_responses (ps_mgr s) = [] \<and> in_flight s = [] \<and> ps_pktChan s = []"
proof -
  have no: "pm_step ans a s = None" if "internal a" for a using assms(1) that by (simp add: stuck_def)
  have rq: "pm_requests (ps_mgr s) = []"
    using no [of CtrlRequest] assms(2) by (auto simp: controller_request_def split: list.splits)
  have rs: "pm_responses (ps_mgr s) = []"
    using no [of CtrlResponse] assms(2) by (auto simp: controller_response_def split: list.splits)
  have free: "respond_with ans (Busy q) r (ps_mgr s) \<noteq> None" if "ans (oreq_packet q) r" for q r
    using rs that by (simp add: respond_with_def readyPacket_send_def SftpServerWorkerCount_def)
  have cmd: "ps_cmd s = Idle"
  proof (cases "ps_cmd s")
    case (Busy q)
    obtain r where "ans (oreq_packet q) r" using assms(4) by blast
    from free [OF this] show ?thesis using no [of "CmdRespond r"] by (simp add: Busy)
  qed (use no [of CmdDone] in simp_all)
  have rw: "ps_rw s ! i = Idle" if i: "i < length (ps_rw s)" for i
  proof (cases "ps_rw s ! i")
    case (Busy q)
    obtain r where "ans (oreq_packet q) r" using assms(4) by blast
    from free [OF this] show ?thesis using no [of "RwRespond i r"] i by (simp add: Busy)
  qed (use no [of "RwDone i"] i in simp_all)
  have rwc: "ps_rwChan s = []"
    using no [of "RwTake 0"] rw [of 0] flow_invD(5) [OF assms(3)]
    by (auto simp: do_RwTake_def SftpServerWorkerCount_def split: list.splits)
  have d: "ps_disp s = None"
    using no [of Handover] cmd rwc
    by (auto simp: do_Handover_def SftpServerWorkerCount_def split: option.splits if_splits)
  have idle: "ps_rw s = replicate (length (ps_rw s)) Idle" using rw by (intro nth_equalityI) simp_all
  have "concat (map busy (ps_rw s)) = []" by (subst idle) simp
  with d cmd rwc have fl: "in_flight s = []" by (simp add: in_flight_def)
  have "finishing s = 0" using cmd by (subst finishing_def, subst idle) (simp add: sum_list_replicate)
  with fl have "pm_working (ps_mgr s) = 0" using flow_invD(4) [OF assms(3)] by simp
  then have "ps_pktChan s = []"
    using no [of Dispatch] d rq
    by (auto simp: do_Dispatch_def incomingPacket_def SftpServerWorkerCount_def split: list.splits if_splits)
  with rq rs fl show ?thesis by simp
qed

lemma stuck_all_answered:
  assumes "stuck ans s" and "\<not> ps_stopped s" and "pm_inv ans s" and "\<And>q. \<exists>r. ans q r"
  shows "length (pm_sent (ps_mgr s)) = length (ps_received s)"
proof -
  let ?m = "ps_mgr s"
  have o: "order_inv s" and f: "flow_inv s" using assms(3) by (simp_all add: pm_inv_def)
  from stuck_workers [OF assms(1,2) f assms(4)]
  have e: "pm_requests ?m = []" "pm_responses ?m = []" "in_flight s = []" "ps_pktChan s = []" by simp_all
  have "mset (map oresp_orderid (pm_outgoing ?m)) = mset (map oreq_orderid (pm_incoming ?m))"
    using flow_invD(1) [OF f] by (simp add: registered_def e)
  moreover have ord: "map roid (pm_incoming ?m) = [Suc (length (pm_sent ?m)) ..< Suc (length (ps_received s))]"
    and le: "length (pm_sent ?m) \<le> length (ps_received s)"
    using o by (simp_all add: order_inv_def registered_def e Let_def del: upt_Suc)
  moreover have "sorted (map oreq_orderid (pm_incoming ?m))"
    unfolding sorted_oids [symmetric] ord by (simp del: upt_Suc)
  ultimately have "map oresp_orderid (pm_outgoing ?m) = map oreq_orderid (pm_incoming ?m)"
    using flow_invD(2) [OF f] by (metis properties_for_sort)
  then have "pm_incoming ?m = []"
    using flow_invD(3) [OF f] by (cases "pm_incoming ?m"; cases "pm_outgoing ?m") (auto simp: heads_differ_def)
  then show ?thesis using ord le by (simp split: if_splits)
qed

lemma internal_run:
  "pm_run ans acts s = Some s' \<Longrightarrow> list_all internal acts \<Longrightarrow> pm_reachable ans al s \<Longrightarrow>
   pm_reachable ans al s' \<and> ps_received s' = ps_received s \<and> ps_stopped s' = ps_stopped s
     \<and> length acts + pm_measure s' \<le> pm_measure s"
proof (induction acts arbitrary: s)
  case (Cons a acts)
  then obtain t where t: "pm_step ans a s = Some t" "pm_run ans acts t = Some s'" and a: "internal a"
    by (auto split: option.splits)
  have "pm_reachable ans al t" using Cons.prems(3) t(1) by (rule pm_reachable.step)
  from Cons.IH [OF t(2) _ this] Cons.prems(2) internal_frame [OF t(1) a] internal_decreases [OF t(1) a]
  show ?case by simp
qed simp

lemma internal_run_exists: "\<exists>acts s'. list_all internal acts \<and> pm_run ans acts s = Some s' \<and> stuck ans s'"
proof (induction "pm_measure s" arbitrary: s rule: less_induct)
  case less
  show ?case
  proof (cases "stuck ans s")
    case True
    then show ?thesis by (intro exI [of _ "[]"]) simp
  next
    case False
    then obtain a t where a: "internal a" and t: "pm_step ans a s = Some t" by (auto simp: stuck_def)
    from less [OF internal_decreases [OF t a]] obtain acts s' where
      "list_all internal acts" "pm_run ans acts t = Some s'" "stuck ans s'" by blast
    then show ?thesis using a t by (intro exI [of _ "a # acts"]) simp
  qed
qed

section \<open>Properties\<close>

lemma pm_run_reachable: "pm_run ans acts s = Some s' \<Longrightarrow> pm_reachable ans al s \<Longrightarrow> pm_reachable ans al s'"
  by (induction acts arbitrary: s) (auto split: option.splits intro: pm_reachable.step)

text \<open>A response with the identifier of the request, as every handler produces it.\<close>

definition same_id :: "requestPacket \<Rightarrow> responsePacket \<Rightarrow> bool" where
  "same_id q r \<longleftrightarrow> response_id r = request_id q"

definition ok_status :: "u32 \<Rightarrow> responsePacket" where
  "ok_status i = sshFxpStatusPacket i \<lparr>se_Code = sshFxOk, se_msg = [], se_lang = []\<rparr>"

text \<open>Two reads whose workers finish in the opposite order, a close, and its response.\<close>

definition demo_run :: "pm_action list" where
  "demo_run = [Receive (sshFxpReadPacket 40 8 0 ''1''), Receive (sshFxpReadPacket 41 8 8 ''1''),
     Receive (sshFxpClosePacket 42 ''1''), Dispatch, Handover, RwTake 0, Dispatch, Handover, RwTake 1,
     RwRespond 1 (sshFxpDataPacket 41 1 [7]), RwDone 1, CtrlRequest, CtrlResponse, CtrlRequest,
     RwRespond 0 (sshFxpDataPacket 40 1 [6]), RwDone 0, CtrlResponse,
     Dispatch, Handover]"

definition demo_state :: "allocator option \<Rightarrow> pmSystem" where
  "demo_state al = the (pm_run same_id demo_run (pm_init al))"

lemma demo_run_None: "pm_run same_id demo_run (pm_init None) = Some (demo_state None)"
  unfolding demo_state_def by code_simp

lemma demo_run_Some:
  "pm_run same_id demo_run (pm_init (Some (newAllocator 0))) = Some (demo_state (Some (newAllocator 0)))"
  unfolding demo_state_def by code_simp

lemmas demo_reachable =
  pm_run_reachable [OF demo_run_None pm_reachable.init]
  pm_run_reachable [OF demo_run_Some pm_reachable.init]

lemma demo_state_facts:
  "length (ps_received (demo_state None)) = 3"
  "length (ps_received (demo_state (Some (newAllocator 0)))) = 3"
  "map (response_id \<circ> oresp_packet) (pm_sent (ps_mgr (demo_state None))) = [40, 41]"
  "length (pm_sent (ps_mgr (demo_state (Some (newAllocator 0))))) = 2"
  "ps_cmd (demo_state None) = Busy \<lparr>oreq_packet = sshFxpClosePacket 42 ''1'', oreq_orderid = 3\<rparr>"
  "\<not> ps_stopped (demo_state None)"
  by code_simp+

text \<open>
  C4. Responses leave in the order of the requests, whatever the workers, the dispatcher and
  the controller do and in whatever order they do it: in every reachable state the \<open>k\<close>-th packet
  sent answers the \<open>k\<close>-th packet received. The order counter is a \<open>uint32\<close>, so this holds for a
  connection with fewer than \<open>2 ^ 32\<close> requests.
\<close>

theorem responses_in_order:
  assumes "pm_reachable ans al s" and "length (ps_received s) < 2 ^ 32"
  shows "length (pm_sent (ps_mgr s)) \<le> length (ps_received s) \<and>
    (\<forall>k < length (pm_sent (ps_mgr s)). ans (ps_received s ! k) (oresp_packet (pm_sent (ps_mgr s) ! k)))"
proof -
  let ?sent = "pm_sent (ps_mgr s)"
  have inv: "order_inv s" "answer_inv ans s" using pm_reachable_inv [OF assms] by (simp_all add: pm_inv_def)
  have le: "length ?sent \<le> length (ps_received s)" and ids: "map soid ?sent = [1 ..< Suc (length ?sent)]"
    using inv(1) by (simp_all add: order_inv_def Let_def del: upt_Suc)
  have "ans (ps_received s ! k) (oresp_packet (?sent ! k))" if k: "k < length ?sent" for k
  proof -
    have "soid (?sent ! k) = map soid ?sent ! k" using k by simp
    then have "soid (?sent ! k) = Suc k" using k unfolding ids by (simp del: upt_Suc)
    then show ?thesis
      using answer_invD(2) [OF inv(2), of "?sent ! k"] k by (simp add: answers_named_def)
  qed
  with le show ?thesis by blast
qed

theorem responses_in_order_witness:
  "map (response_id \<circ> oresp_packet) (pm_sent (ps_mgr (demo_state None))) = [40, 41]
   \<and> same_id (ps_received (demo_state None) ! 0) (oresp_packet (pm_sent (ps_mgr (demo_state None)) ! 0))
   \<and> same_id (ps_received (demo_state None) ! 1) (oresp_packet (pm_sent (ps_mgr (demo_state None)) ! 1))"
proof -
  have "length (pm_sent (ps_mgr (demo_state None))) = 2"
    using arg_cong [OF demo_state_facts(3), of length] by simp
  then show ?thesis
    using responses_in_order [OF demo_reachable(1)] demo_state_facts(1,3) by simp
qed



text \<open>
  C18. A close waits. While a close request is registered and not yet answered, every request
  received before it, reads and writes on other workers included, already has its response.
\<close>

theorem close_waits:
  assumes "pm_reachable ans al s" and "length (ps_received s) < 2 ^ 32"
    and "ps_cmd s = Busy c" and "is_close (oreq_packet c)" and "0 < i" and "i < oreq_orderid c"
  shows "i \<in> oresp_orderid ` set (pm_outgoing (ps_mgr s) @ pm_responses (ps_mgr s) @ pm_sent (ps_mgr s))"
proof -
  let ?m = "ps_mgr s" and ?k = "length (pm_sent (ps_mgr s))"
  have o: "order_inv s" and f: "flow_inv s" and cl: "close_inv s"
    using pm_reachable_inv [OF assms(1,2)] by (simp_all add: pm_inv_def)
  have c: "c \<in> set (in_flight s)" using assms(3) by (simp add: set_in_flight)
  have ui: "0 < unat i" "unat i < roid c"
    using assms(5,6) by (simp_all add: unat_gt_0 roid_def word_less_nat_alt)
  show ?thesis
  proof (cases "unat i \<le> ?k")
    case True
    have "set (map soid (pm_sent ?m)) = {1 ..< Suc ?k}"
      unfolding o [unfolded order_inv_def Let_def, THEN conjunct2, THEN conjunct1] by (rule set_upt)
    then have "unat i \<in> set (map soid (pm_sent ?m))" using True ui by simp
    then show ?thesis by (auto simp: soid_def word_unat_eq_iff [symmetric])
  next
    case False
    have "roid c \<in> set (map roid (registered ?m))" by (rule in_flight_registered [OF f c])
    then have "unat i \<in> set (map roid (registered ?m))"
      using False ui(2) unfolding registered_ids [OF o] by simp
    then have "i \<in># image_mset oreq_orderid (mset (registered ?m))"
      by (auto simp: roid_def word_unat_eq_iff [symmetric])
    moreover have "i \<noteq> oreq_orderid q" if "q \<in> set (in_flight s)" for q
      using cl c assms(4) that ui(2) by (force simp: close_inv_def roid_def)
    ultimately show ?thesis unfolding flow_invD(1) [OF f, symmetric] by auto
  qed
qed

theorem close_waits_witness:
  "1 \<in> oresp_orderid ` set (pm_outgoing (ps_mgr (demo_state None)) @ pm_responses (ps_mgr (demo_state None))
     @ pm_sent (ps_mgr (demo_state None)))"
  by (rule close_waits [OF demo_reachable(1) _ demo_state_facts(5)]) (simp_all add: demo_state_facts(1))



definition shutdown_run :: "pm_action list" where
  "shutdown_run = [Receive (sshFxpRemovePacket 9 ''/f''), CloseInput, Dispatch, Handover, CtrlRequest,
     CmdRespond (ok_status 9), CmdDone, DispatchEnd, CtrlFini]"

text \<open>
  Shutting down can lose a response. \<open>close\<close> waits for the wait group only, and a worker
  leaves the wait group once its response is in the channel; the controller's \<open>select\<close> may then
  take the case \<open>fini\<close> before it takes the response. There is a run that ends with the
  controller returned and no worker busy, in which a request that was handled is not answered.
\<close>

theorem shutdown_drops_response:
  "\<exists>s. pm_run same_id shutdown_run (pm_init None) = Some s \<and> ps_stopped s \<and> pm_working (ps_mgr s) = 0
     \<and> length (ps_received s) = 1 \<and> pm_sent (ps_mgr s) = []
     \<and> pm_responses (ps_mgr s) = [newOrderedResponse (ok_status 9) 1]
     \<and> pm_step same_id CtrlResponse s = None"
proof -
  let ?s = "the (pm_run same_id shutdown_run (pm_init None))"
  have "pm_run same_id shutdown_run (pm_init None) = Some ?s" by code_simp
  moreover have "ps_stopped ?s" "pm_working (ps_mgr ?s) = 0" "length (ps_received ?s) = 1"
    "pm_sent (ps_mgr ?s) = []" "pm_responses (ps_mgr ?s) = [newOrderedResponse (ok_status 9) 1]"
    "pm_step same_id CtrlResponse ?s = None"
    by code_simp+
  ultimately show ?thesis by blast
qed

end
