(* ===== verification/Go_Path.thy ===== *)
theory Go_Path
  imports Serv_Prelude "HOL-Library.Sublist"
begin

text \<open>
  The lexical path functions of the Go packages \<open>path\<close> and \<open>path/filepath\<close> on a Unix
  system, as far as the sources use them: \<open>Clean\<close>, \<open>Join\<close>, \<open>IsAbs\<close>, \<open>Base\<close>, \<open>Dir\<close>, \<open>Rel\<close>,
  and \<open>strings.Split\<close>. \<open>Clean\<close> is given by the rules of its documentation, applied element by
  element from left to right; a clean path is determined by its list of elements. The
  lemmas say that cleaning a rooted path leaves no \<open>..\<close> element, that cleaning is idempotent,
  and how joining acts on the elements.
\<close>

section \<open>Splitting and joining\<close>

fun split_on :: "char \<Rightarrow> string \<Rightarrow> string list" where
  "split_on c [] = [[]]"
| "split_on c (x # xs) =
     (if x = c then [] # split_on c xs
      else (case split_on c xs of [] \<Rightarrow> [[x]] | s # ss \<Rightarrow> (x # s) # ss))"

fun join_with :: "char \<Rightarrow> string list \<Rightarrow> string" where
  "join_with c [] = []"
| "join_with c [s] = s"
| "join_with c (s # t # ss) = s @ c # join_with c (t # ss)"

abbreviation slash :: char where "slash \<equiv> CHR ''/''"

abbreviation dot :: string where "dot \<equiv> ''.''"

abbreviation dotdot :: string where "dotdot \<equiv> ''..''"

lemma split_on_not_Nil [simp]: "split_on c s \<noteq> []"
  by (induction s) (auto split: list.split)

lemma split_on_no_sep: "c \<notin> set s \<Longrightarrow> split_on c s = [s]"
  by (induction s) auto

lemma split_on_parts: "x \<in> set (split_on c s) \<Longrightarrow> c \<notin> set x"
  by (induction s arbitrary: x) (auto split: list.splits if_splits)

lemma split_on_append_sep: "c \<notin> set s \<Longrightarrow> split_on c (s @ c # t) = s # split_on c t"
  by (induction s) auto

lemma split_on_snoc: "split_on c (s @ c # t) = split_on c s @ split_on c t"
  by (induction s) (auto split: list.split)

lemma split_on_join:
  "ss \<noteq> [] \<Longrightarrow> list_all (\<lambda>s. c \<notin> set s) ss \<Longrightarrow> split_on c (join_with c ss) = ss"
  by (induction ss rule: induct_list012) (auto simp: split_on_no_sep split_on_append_sep)

lemma join_split_on: "join_with c (split_on c s) = s"
proof (induction s)
  case (Cons x xs)
  then show ?case by (cases "split_on c xs"; cases "tl (split_on c xs)") auto
qed simp

lemma join_with_snoc: "join_with c (ss @ [s]) = (if ss = [] then s else join_with c ss @ c # s)"
  by (induction ss rule: induct_list012) auto

section \<open>Clean\<close>

text \<open>
  One element of the path is pushed on the stack of the elements kept so far: empty
  elements and \<open>.\<close> vanish, \<open>..\<close> removes the element before it, is dropped at the root, and
  is kept at the front of a relative path.
\<close>

definition clean_push :: "bool \<Rightarrow> string list \<Rightarrow> string \<Rightarrow> string list" where
  "clean_push rooted stack c =
     (if c = [] \<or> c = dot then stack
      else if c = dotdot
           then (case stack of
                   [] \<Rightarrow> (if rooted then [] else [dotdot])
                 | t # rest \<Rightarrow> (if t = dotdot then dotdot # stack else rest))
           else c # stack)"

definition clean_elems :: "bool \<Rightarrow> string list \<Rightarrow> string list" where
  "clean_elems rooted cs = rev (foldl (clean_push rooted) [] cs)"

definition path_IsAbs :: "string \<Rightarrow> bool" where
  "path_IsAbs p \<longleftrightarrow> p \<noteq> [] \<and> hd p = slash"

definition path_elems :: "string \<Rightarrow> string list" where
  "path_elems p = clean_elems (path_IsAbs p) (split_on slash p)"

definition make_path :: "bool \<Rightarrow> string list \<Rightarrow> string" where
  "make_path rooted cs =
     (if rooted then slash # join_with slash cs else if cs = [] then dot else join_with slash cs)"

definition path_Clean :: "string \<Rightarrow> string" where
  "path_Clean p = make_path (path_IsAbs p) (path_elems p)"

text \<open>Elements that can occur in a clean path.\<close>

definition elem_ok :: "string \<Rightarrow> bool" where
  "elem_ok c \<longleftrightarrow> c \<noteq> [] \<and> c \<noteq> dot \<and> slash \<notin> set c"

definition name_ok :: "string \<Rightarrow> bool" where
  "name_ok c \<longleftrightarrow> elem_ok c \<and> c \<noteq> dotdot"

lemma clean_push_name [simp]: "name_ok c \<Longrightarrow> clean_push r st c = c # st"
  by (simp add: clean_push_def name_ok_def elem_ok_def)

lemma clean_push_trivial [simp]: "clean_push r st [] = st" "clean_push r st dot = st"
  by (simp_all add: clean_push_def)

lemma foldl_names: "list_all name_ok cs \<Longrightarrow> foldl (clean_push r) st cs = rev cs @ st"
  by (induction cs arbitrary: st) auto

lemma clean_push_rooted:
  assumes "list_all name_ok st" and "slash \<notin> set c"
  shows "list_all name_ok (clean_push True st c)"
  using assms by (auto simp: clean_push_def name_ok_def elem_ok_def split: list.split)

lemma foldl_rooted:
  "list_all name_ok st \<Longrightarrow> list_all (\<lambda>c. slash \<notin> set c) cs \<Longrightarrow> list_all name_ok (foldl (clean_push True) st cs)"
  by (induction cs arbitrary: st) (auto simp: clean_push_rooted)

lemma split_parts_ok: "list_all (\<lambda>c. slash \<notin> set c) (split_on slash p)"
  by (auto simp: list_all_iff dest: split_on_parts)

lemma rooted_elems: "path_IsAbs p \<Longrightarrow> list_all name_ok (path_elems p)"
  using foldl_rooted [OF _ split_parts_ok, of "[]" p]
  by (simp add: path_elems_def clean_elems_def)

lemma name_ok_sep: "list_all name_ok cs \<Longrightarrow> list_all (\<lambda>c. slash \<notin> set c) cs"
  by (auto simp: list_all_iff name_ok_def elem_ok_def)

lemma path_elems_rooted:
  assumes "list_all name_ok cs"
  shows "path_elems (slash # join_with slash cs) = cs"
proof (cases "cs = []")
  case False
  then show ?thesis
    using assms split_on_join [OF False name_ok_sep [OF assms]]
    by (simp add: path_elems_def clean_elems_def path_IsAbs_def foldl_names)
qed (simp add: path_elems_def clean_elems_def path_IsAbs_def)

lemma IsAbs_Clean: "path_IsAbs p \<Longrightarrow> path_IsAbs (path_Clean p)"
  by (simp add: path_Clean_def make_path_def path_IsAbs_def)

lemma path_elems_Clean: "path_IsAbs p \<Longrightarrow> path_elems (path_Clean p) = path_elems p"
  using path_elems_rooted [OF rooted_elems] by (simp add: path_Clean_def make_path_def)

lemma Clean_Clean_rooted: "path_IsAbs p \<Longrightarrow> path_Clean (path_Clean p) = path_Clean p"
  using path_elems_Clean [of p] IsAbs_Clean [of p] by (simp add: path_Clean_def)

lemma path_elems_join_rooted:
  assumes "path_IsAbs a"
  shows "path_elems (a @ slash # b) = rev (foldl (clean_push True) (rev (path_elems a)) (split_on slash b))"
  using assms
  by (simp add: path_elems_def clean_elems_def split_on_snoc path_IsAbs_def hd_append)

section \<open>Join, Base, Dir and Rel\<close>

text \<open>\<open>Join\<close> ignores empty elements and returns the empty string when there is no other.\<close>

definition path_Join :: "string list \<Rightarrow> string" where
  "path_Join es = (let es = filter (\<lambda>e. e \<noteq> []) es
                   in if es = [] then [] else path_Clean (join_with slash es))"

definition path_Base :: "string \<Rightarrow> string" where
  "path_Base p =
     (if p = [] then dot
      else (let p = rev (dropWhile (\<lambda>c. c = slash) (rev p));
                p = rev (takeWhile (\<lambda>c. c \<noteq> slash) (rev p))
            in if p = [] then [slash] else p))"

definition path_Dir :: "string \<Rightarrow> string" where
  "path_Dir p = path_Clean (rev (dropWhile (\<lambda>c. c \<noteq> slash) (rev p)))"

fun strip_common :: "string list \<Rightarrow> string list \<Rightarrow> string list \<times> string list" where
  "strip_common (x # xs) (y # ys) = (if x = y then strip_common xs ys else (x # xs, y # ys))"
| "strip_common xs ys = (xs, ys)"

definition filepath_Rel :: "string \<Rightarrow> string \<Rightarrow> goerr + string" where
  "filepath_Rel base targ =
     (let fail = Inl (ErrorString (''Rel: can't make '' @ targ @ '' relative to '' @ base))
      in if path_IsAbs base \<noteq> path_IsAbs targ then fail
         else (let (b, t) = strip_common (path_elems base) (path_elems targ)
               in if b \<noteq> [] \<and> hd b = dotdot then fail
                  else Inr (make_path False (replicate (length b) dotdot @ t))))"

lemma strip_common_append: "strip_common xs (xs @ ys) = ([], ys)"
  by (induction xs) auto

lemma Join_rooted:
  assumes "path_IsAbs a" and "b \<noteq> []"
  shows "path_Join [a, b] = make_path True (rev (foldl (clean_push True) (rev (path_elems a)) (split_on slash b)))"
  using assms path_elems_join_rooted [OF assms(1), of b]
  by (auto simp: path_Join_def path_Clean_def path_IsAbs_def hd_append)

lemma Join_rooted_names:
  assumes "path_IsAbs a" and "path_IsAbs b" and "b = path_Clean b"
  shows "path_Join [a, b] = make_path True (path_elems a @ path_elems b)"
proof -
  let ?es = "path_elems b"
  have ok: "list_all name_ok ?es" by (rule rooted_elems [OF assms(2)])
  have "b = slash # join_with slash ?es"
    using assms(2,3) by (simp add: path_Clean_def make_path_def)
  then have "split_on slash b = [] # split_on slash (join_with slash ?es)" by (metis split_on.simps(2))
  then have "foldl (clean_push True) (rev (path_elems a)) (split_on slash b) = rev ?es @ rev (path_elems a)"
    using ok split_on_join [OF _ name_ok_sep [OF ok]] by (cases "?es = []") (simp_all add: foldl_names)
  moreover have "b \<noteq> []" using assms(2) by (simp add: path_IsAbs_def)
  ultimately show ?thesis using Join_rooted [OF assms(1)] by simp
qed

lemma IsAbs_make_path [simp]: "path_IsAbs (make_path True cs)"
  by (simp add: make_path_def path_IsAbs_def)

lemma path_elems_make_path [simp]: "list_all name_ok cs \<Longrightarrow> path_elems (make_path True cs) = cs"
  by (simp add: make_path_def path_elems_rooted)

lemma Clean_make_path [simp]: "list_all name_ok cs \<Longrightarrow> path_Clean (make_path True cs) = make_path True cs"
  using path_elems_make_path [of cs] by (simp add: path_Clean_def)

lemma make_path_inj:
  "list_all name_ok cs \<Longrightarrow> list_all name_ok ds \<Longrightarrow> make_path True cs = make_path True ds \<Longrightarrow> cs = ds"
  by (metis path_elems_make_path)

lemma Join_abs: "path_IsAbs a \<Longrightarrow> path_IsAbs (path_Join [a, b])"
  by (cases "b = []") (auto simp: Join_rooted path_Join_def path_IsAbs_def IsAbs_Clean [unfolded path_IsAbs_def])

text \<open>The directory and the base of a clean rooted path.\<close>

lemma make_path_not_Nil [simp]: "make_path True es \<noteq> []"
  by (simp add: make_path_def)

lemma make_path_snoc: "make_path True (es @ [c]) = (if es = [] then [slash] else make_path True es @ [slash]) @ c"
  by (simp add: make_path_def join_with_snoc)

lemma Clean_trailing_slash:
  assumes "list_all name_ok es"
  shows "path_Clean (make_path True es @ [slash]) = make_path True es"
proof -
  have "path_elems (make_path True es @ [slash]) = path_elems (make_path True es)"
    using split_on_snoc [of slash "make_path True es" "[]"]
    by (simp add: path_elems_def clean_elems_def path_IsAbs_def hd_append make_path_def [of True])
  moreover have "path_IsAbs (make_path True es @ [slash])" by (simp add: make_path_def path_IsAbs_def)
  ultimately show ?thesis using assms by (simp add: path_Clean_def)
qed

lemma path_Dir_make_path:
  assumes "list_all name_ok es"
  shows "path_Dir (make_path True es) = make_path True (butlast es)"
proof (cases es rule: rev_cases)
  case Nil
  then show ?thesis by (simp add: path_Dir_def make_path_def path_Clean_def path_elems_def clean_elems_def path_IsAbs_def)
next
  case (snoc xs c)
  then have ok: "list_all name_ok xs" "slash \<notin> set c" using assms by (auto simp: name_ok_def elem_ok_def)
  have "rev (dropWhile (\<lambda>x. x \<noteq> slash) (rev (p @ [slash] @ c))) = p @ [slash]" for p
    using ok(2) by (simp add: dropWhile_append)
  from this [of "[]"] this [of "make_path True xs"]
  have "path_Dir (make_path True es) = path_Clean (if xs = [] then [slash] else make_path True xs @ [slash])"
    using snoc make_path_snoc [of xs c] by (simp add: path_Dir_def)
  also have "\<dots> = make_path True xs"
    using Clean_trailing_slash [OF ok(1)] Clean_make_path [of "[]"] by (auto simp: make_path_def [of True "[]"])
  finally show ?thesis using snoc by simp
qed

lemma path_Base_make_path:
  assumes "name_ok c"
  shows "path_Base (make_path True (es @ [c])) = c"
proof -
  have c: "slash \<notin> set c" "c \<noteq> []" using assms by (auto simp: name_ok_def elem_ok_def)
  have "dropWhile (\<lambda>x. x = slash) (rev c @ p) = rev c @ p" for p
    using c by (cases c rule: rev_cases) auto
  moreover have "takeWhile (\<lambda>x. x \<noteq> slash) (rev c @ slash # p) = rev c" for p
    using c(1) by (simp add: takeWhile_append)
  ultimately show ?thesis
    using c(2) make_path_snoc [of es c] by (cases "es = []") (simp_all add: path_Base_def)
qed

lemma Join_name:
  assumes "list_all name_ok es" and "name_ok b"
  shows "path_Join [make_path True es, b] = make_path True (es @ [b])"
proof -
  have "b \<noteq> []" "split_on slash b = [b]" using assms(2) by (auto simp: name_ok_def elem_ok_def split_on_no_sep)
  then show ?thesis using assms by (simp add: Join_rooted)
qed

end
