(* ===== verification/Sftp_Status.thy ===== *)
theory Sftp_Status
  imports Sftp_Packets Go_Path
begin

text \<open>
  What the two servers of the package share: the translation of errors to status packets
  (\<^verbatim>\<open>src/sftp/server.go\<close>, \<^verbatim>\<open>src/sftp/stat_posix.go\<close>), the extensions that are announced
  (\<^verbatim>\<open>src/sftp/sftp.go\<close>), the cleaning of client paths (\<^verbatim>\<open>src/sftp/request-server.go\<close>), and
  the long listing of directory entries (\<^verbatim>\<open>src/sftp/server_unix.go\<close>).
\<close>

section \<open>Status packets\<close>

definition wrapPathError :: "string \<Rightarrow> goerr \<Rightarrow> goerr" where
  "wrapPathError filepath err =
     (case err of SysErrno n \<Rightarrow> PathError [] filepath (SysErrno n) | _ \<Rightarrow> err)"

definition translateErrno :: "errno \<Rightarrow> u32" where
  "translateErrno errno =
     (if errno_num errno = 0 then sshFxOk
      else if errno_num errno = errno_num ENOENT then sshFxNoSuchFile
      else if errno_num errno = errno_num EPERM then sshFxPermissionDenied
      else sshFxFailure)"

definition translateSyscallError :: "goerr \<Rightarrow> u32 option" where
  "translateSyscallError err =
     (case err of
        SysErrno e \<Rightarrow> Some (translateErrno e)
      | PathError _ _ (SysErrno e) \<Rightarrow> Some (translateErrno e)
      | _ \<Rightarrow> None)"

definition statusFromError :: "u32 \<Rightarrow> goerr option \<Rightarrow> responsePacket" where
  "statusFromError i err =
     (case err of
        None \<Rightarrow> sshFxpStatusPacket i \<lparr>se_Code = sshFxOk, se_msg = [], se_lang = []\<rparr>
      | Some err \<Rightarrow>
          (let ret = \<lparr>se_Code = sshFxFailure, se_msg = error_text err, se_lang = []\<rparr>
           in if os_IsNotExist err then sshFxpStatusPacket i (ret\<lparr>se_Code := sshFxNoSuchFile\<rparr>)
              else (case translateSyscallError err of
                      Some code \<Rightarrow> sshFxpStatusPacket i (ret\<lparr>se_Code := code\<rparr>)
                    | None \<Rightarrow>
                        (case err of
                           Fxerr e \<Rightarrow> sshFxpStatusPacket i (ret\<lparr>se_Code := e\<rparr>)
                         | IoEOF \<Rightarrow> sshFxpStatusPacket i (ret\<lparr>se_Code := sshFxEOF\<rparr>)
                         | _ \<Rightarrow> sshFxpStatusPacket i ret))))"

definition status_code :: "responsePacket \<Rightarrow> u32 option" where
  "status_code r = (case r of sshFxpStatusPacket _ se \<Rightarrow> Some (se_Code se) | _ \<Rightarrow> None)"

lemma response_id_status [simp]: "response_id (statusFromError i err) = i"
  by (auto simp: statusFromError_def Let_def split: option.split goerr.split)

lemma statusFromError_is_status: "\<exists>se. statusFromError i err = sshFxpStatusPacket i se"
  by (auto simp: statusFromError_def Let_def split: option.split goerr.split)

lemma status_code_None [simp]: "status_code (statusFromError i None) = Some sshFxOk"
  by (simp add: statusFromError_def status_code_def)

lemma status_code_Fxerr [simp]: "status_code (statusFromError i (Some (Fxerr e))) = Some e"
  by (simp add: statusFromError_def translateSyscallError_def status_code_def)

definition sftpProtocolVersion :: u32 where "sftpProtocolVersion = 3"

definition ErrSSHFxOk :: goerr where "ErrSSHFxOk = Fxerr sshFxOk"
definition ErrSSHFxNoSuchFile :: goerr where "ErrSSHFxNoSuchFile = Fxerr sshFxNoSuchFile"
definition ErrSSHFxPermissionDenied :: goerr where "ErrSSHFxPermissionDenied = Fxerr sshFxPermissionDenied"
definition ErrSSHFxFailure :: goerr where "ErrSSHFxFailure = Fxerr sshFxFailure"
definition ErrSSHFxOpUnsupported :: goerr where "ErrSSHFxOpUnsupported = Fxerr sshFxOPUnsupported"

lemmas fxerr_defs = ErrSSHFxOk_def ErrSSHFxNoSuchFile_def ErrSSHFxPermissionDenied_def
  ErrSSHFxFailure_def ErrSSHFxOpUnsupported_def

section \<open>Extensions\<close>

definition supportedSFTPExtensions :: "extensionPair list" where
  "supportedSFTPExtensions = [\<lparr>ep_Name = ''hardlink@openssh.com'', ep_Data = ''1''\<rparr>,
     \<lparr>ep_Name = ''posix-rename@openssh.com'', ep_Data = ''1''\<rparr>]"

definition getSupportedExtensionByName :: "string \<Rightarrow> goerr + extensionPair" where
  "getSupportedExtensionByName extensionName =
     (case find (\<lambda>e. ep_Name e = extensionName) supportedSFTPExtensions of
        Some e \<Rightarrow> Inr e
      | None \<Rightarrow> Inl (ErrorString (''Unsupported extension: '' @ extensionName)))"

fun collectExtensions :: "string list \<Rightarrow> goerr + extensionPair list" where
  "collectExtensions [] = Inr []"
| "collectExtensions (e # es) =
     (case getSupportedExtensionByName e of
        Inl err \<Rightarrow> Inl err
      | Inr x \<Rightarrow> (case collectExtensions es of Inl err \<Rightarrow> Inl err | Inr xs \<Rightarrow> Inr (x # xs)))"

text \<open>The package variable \<open>sftpExtensions\<close> before and after the call.\<close>

definition SetSFTPExtensions :: "string list \<Rightarrow> extensionPair list \<Rightarrow> goerr option \<times> extensionPair list" where
  "SetSFTPExtensions extensions sftpExtensions =
     (case collectExtensions extensions of
        Inl err \<Rightarrow> (Some err, sftpExtensions)
      | Inr xs \<Rightarrow> (None, xs))"

section \<open>Paths and buffers\<close>

definition cleanPath :: "string \<Rightarrow> string" where
  "cleanPath p = (let p = (if path_IsAbs p then p else slash # p) in path_Clean p)"

lemma IsAbs_slash [simp]: "path_IsAbs (slash # p)"
  by (simp add: path_IsAbs_def)

lemma cleanPath_abs [simp]: "path_IsAbs (cleanPath p)"
  by (simp add: cleanPath_def Let_def IsAbs_Clean)

lemma cleanPath_names: "list_all name_ok (path_elems (cleanPath p))"
  by (rule rooted_elems) simp

lemma cleanPath_clean [simp]: "path_Clean (cleanPath p) = cleanPath p"
  by (simp add: cleanPath_def Let_def Clean_Clean_rooted)

lemma cleanPath_idem [simp]: "cleanPath (cleanPath p) = cleanPath p"
  using cleanPath_abs [of p] cleanPath_clean [of p] by (simp only: cleanPath_def [of "cleanPath p"] Let_def if_True)

definition clamp :: "u32 \<Rightarrow> u32 \<Rightarrow> u32" where
  "clamp v mx = (if v > mx then mx else v)"

definition maxTxPacket :: u32 where
  "maxTxPacket = push_bit 15 1"

text \<open>
  \<open>getDataSlice\<close>: the contents of a page are what its last user left there, the function
  \<open>mem\<close>; a slice that is made is zero.
\<close>

definition getDataSlice :: "(nat \<Rightarrow> bytes) \<Rightarrow> u32 \<Rightarrow> allocator option \<Rightarrow> u32 \<Rightarrow> bytes \<times> allocator option" where
  "getDataSlice mem len alloc orderID =
     (let dataLen = clamp len maxTxPacket
      in case alloc of
           Some a \<Rightarrow> (let (p, a) = GetPage a orderID in (take (unat dataLen) (mem p), Some a))
         | None \<Rightarrow> (replicate (unat dataLen) 0, None))"

definition emptyFileStat :: "gval list" where
  "emptyFileStat = [GU32 0]"

section \<open>Long listing\<close>

text \<open>
  The calendar of the host, that is the time zone and the year, month, day, hour and minute
  of a time stamp in it, is a parameter, and so is the current time.
\<close>

record civil =
  cv_year :: nat
  cv_month :: nat
  cv_day :: nat
  cv_hour :: nat
  cv_minute :: nat

record clock =
  ck_now :: int
  ck_civil :: "int \<Rightarrow> civil"

definition month_names :: "string list" where
  "month_names = [''Jan'', ''Feb'', ''Mar'', ''Apr'', ''May'', ''Jun'', ''Jul'', ''Aug'', ''Sep'', ''Oct'',
     ''Nov'', ''Dec'']"

definition ls_line :: "clock \<Rightarrow> fileInfo \<Rightarrow> u64 \<Rightarrow> string \<Rightarrow> string \<Rightarrow> string" where
  "ls_line ck dirent numLinks username groupname =
     (let typeword = runLsTypeWord (fi_mode dirent);
          mtime = sint (fi_mtime dirent);
          cv = ck_civil ck mtime;
          monthStr = month_names ! (cv_month cv - 1);
          isOld = (mtime < ck_now ck - 60 * 60 * 24 * 365 div 2);
          yearOrTime = (if isOld then itoa (cv_year cv)
             else pad_left 2 CHR ''0'' (itoa (cv_hour cv)) @ '':'' @ pad_left 2 CHR ''0'' (itoa (cv_minute cv)))
      in typeword @ '' '' @ pad_left 4 CHR '' '' (itoa (unat numLinks)) @ '' '' @ pad_right 8 username @ '' ''
         @ pad_right 8 groupname @ '' '' @ pad_left 8 CHR '' '' (itoa_int (sint (fi_size dirent))) @ '' ''
         @ monthStr @ '' '' @ pad_left 2 CHR '' '' (itoa (cv_day cv)) @ '' ''
         @ pad_left 5 CHR '' '' yearOrTime @ '' '' @ fi_name dirent)"

definition runLsStatt_1 :: "clock \<Rightarrow> fileInfo \<Rightarrow> SftpFileAttr \<Rightarrow> string" where
  "runLsStatt_1 ck dirent statt =
     (let username = (if at_Uname statt = [] then itoa (unat (at_Uid statt)) else at_Uname statt);
          groupname = at_Gname statt
      in ls_line ck dirent (at_Nlink statt) username groupname)"

definition runLsStatt :: "clock \<Rightarrow> fileInfo \<Rightarrow> u64 \<Rightarrow> u32 \<Rightarrow> u32 \<Rightarrow> string" where
  "runLsStatt ck dirent nlink uid gid = ls_line ck dirent nlink (itoa (unat uid)) (itoa (unat gid))"

definition runLs :: "clock \<Rightarrow> string \<Rightarrow> fileInfo \<Rightarrow> string" where
  "runLs ck dirname dirent =
     (case fi_sys dirent of
        SysStat_t nlink uid gid \<Rightarrow> runLsStatt ck dirent nlink uid gid
      | SysSftpFileAttr a \<Rightarrow> runLsStatt_1 ck dirent a
      | _ \<Rightarrow> path_Join [dirname, fi_name dirent])"

section \<open>Properties\<close>


text \<open>
  C32. \<open>cleanPath\<close> always returns an absolute path in normal form: it is a fixed point of
  cleaning, none of its elements is empty, \<open>.\<close> or \<open>..\<close>, and cleaning it twice changes nothing,
  whatever the client sent.
\<close>

theorem cleanPath_normal:
  "path_IsAbs (cleanPath p) \<and> path_Clean (cleanPath p) = cleanPath p \<and> cleanPath (cleanPath p) = cleanPath p
   \<and> list_all (\<lambda>c. c \<noteq> [] \<and> c \<noteq> dot \<and> c \<noteq> dotdot \<and> slash \<notin> set c) (path_elems (cleanPath p))
   \<and> cleanPath p = make_path True (path_elems (cleanPath p))"
proof -
  have "cleanPath p = make_path True (path_elems (cleanPath p))"
    using cleanPath_abs [of p] cleanPath_clean [of p] by (simp only: path_Clean_def)
  moreover have "list_all (\<lambda>c. c \<noteq> [] \<and> c \<noteq> dot \<and> c \<noteq> dotdot \<and> slash \<notin> set c) (path_elems (cleanPath p))"
    using cleanPath_names [of p] by (simp add: name_ok_def elem_ok_def list_all_iff)
  ultimately show ?thesis by simp
qed

lemma collectExtensions_iff:
  "(case collectExtensions es of
      Inr xs \<Rightarrow> map ep_Name xs = es \<and> set xs \<subseteq> set supportedSFTPExtensions
    | Inl err \<Rightarrow> \<exists>e \<in> set es. e \<notin> set (map ep_Name supportedSFTPExtensions)
        \<and> err = ErrorString (''Unsupported extension: '' @ e))"
proof (induction es)
  case (Cons e es)
  have "case getSupportedExtensionByName e of
      Inr x \<Rightarrow> ep_Name x = e \<and> x \<in> set supportedSFTPExtensions
    | Inl err \<Rightarrow> e \<notin> set (map ep_Name supportedSFTPExtensions)
        \<and> err = ErrorString (''Unsupported extension: '' @ e)"
    by (auto simp: getSupportedExtensionByName_def find_Some_iff find_None_iff split: option.split)
  with Cons show ?case by (auto split: sum.splits)
qed simp

text \<open>
  C33. \<open>SetSFTPExtensions\<close> either installs exactly the named extensions, all of which are
  supported, or returns an error and leaves the announced extensions as they were.
\<close>

theorem extensions_all_or_nothing:
  "case SetSFTPExtensions es old of
     (None, new) \<Rightarrow> map ep_Name new = es \<and> set new \<subseteq> set supportedSFTPExtensions
   | (Some err, new) \<Rightarrow> new = old \<and> \<not> set es \<subseteq> set (map ep_Name supportedSFTPExtensions)"
  using collectExtensions_iff [of es] by (auto simp: SetSFTPExtensions_def split: sum.splits)

end
