(* ===== verification/Sftp_Handles.thy ===== *)
theory Sftp_Handles
  imports Serv_Prelude
begin

text \<open>
  The interface of a table of open handles, which \<open>Server\<close> (\<^verbatim>\<open>src/sftp/server.go\<close>) and
  \<open>RequestServer\<close> (\<^verbatim>\<open>src/sftp/request-server.go\<close>) both implement: a new entry gets a handle
  that was never used before, and closing removes only the entry it names. From these laws
  follows that a handle, once closed, never becomes valid again, so that a late packet for a
  closed file cannot reach another one.
\<close>

datatype 'a table_op = OpenEntry 'a | CloseEntry string

fun run_table :: "('s \<Rightarrow> 'a \<Rightarrow> string \<times> 's) \<Rightarrow> ('s \<Rightarrow> string \<Rightarrow> 's) \<Rightarrow> 's \<Rightarrow> 'a table_op list
    \<Rightarrow> string list \<times> 's" where
  "run_table nxt del s [] = ([], s)"
| "run_table nxt del s (OpenEntry a # ops) =
     (let (h, s) = nxt s a; (hs, s) = run_table nxt del s ops in (h # hs, s))"
| "run_table nxt del s (CloseEntry h # ops) = run_table nxt del (del s h) ops"

locale handle_table =
  fixes nxt :: "'s \<Rightarrow> 'a \<Rightarrow> string \<times> 's"
    and get :: "'s \<Rightarrow> string \<Rightarrow> 'b option"
    and del :: "'s \<Rightarrow> string \<Rightarrow> 's"
    and entry :: "string \<Rightarrow> 'a \<Rightarrow> 'b"
    and issued :: "'s \<Rightarrow> string set"
    and inv :: "'s \<Rightarrow> bool"
  assumes nxt_fresh: "inv s \<Longrightarrow> nxt s a = (h, s') \<Longrightarrow> h \<notin> issued s \<and> issued s' = insert h (issued s)"
    and nxt_get: "inv s \<Longrightarrow> nxt s a = (h, s') \<Longrightarrow> get s' k = (if k = h then Some (entry h a) else get s k)"
    and nxt_inv: "inv s \<Longrightarrow> nxt s a = (h, s') \<Longrightarrow> inv s'"
    and del_get: "inv s \<Longrightarrow> get (del s h) k = (if k = h then None else get s k)"
    and del_inv: "inv s \<Longrightarrow> inv (del s h)"
    and del_issued: "issued (del s h) = issued s"
    and get_issued: "inv s \<Longrightarrow> get s h \<noteq> None \<Longrightarrow> h \<in> issued s"
begin

lemma run_inv: "inv s \<Longrightarrow> run_table nxt del s ops = (hs, s') \<Longrightarrow> inv s' \<and> issued s \<subseteq> issued s'"
proof (induction ops arbitrary: s hs)
  case (Cons c ops)
  show ?case
  proof (cases c)
    case (OpenEntry a)
    obtain h t where n: "nxt s a = (h, t)" by force
    obtain gs where "run_table nxt del t ops = (gs, s')"
      using Cons.prems(2) by (auto simp: OpenEntry n split: prod.splits)
    from Cons.IH [OF nxt_inv [OF Cons.prems(1) n] this] show ?thesis
      using nxt_fresh [OF Cons.prems(1) n] by auto
  next
    case (CloseEntry h)
    have "inv s' \<and> issued (del s h) \<subseteq> issued s'"
      using Cons.prems Cons.IH [OF del_inv [OF Cons.prems(1)], of h hs] by (simp add: CloseEntry)
    then show ?thesis by (simp add: del_issued)
  qed
qed simp

lemma run_fresh: "inv s \<Longrightarrow> run_table nxt del s ops = (hs, s') \<Longrightarrow> distinct hs \<and> set hs \<inter> issued s = {}"
proof (induction ops arbitrary: s hs)
  case (Cons c ops)
  show ?case
  proof (cases c)
    case (OpenEntry a)
    obtain h t where n: "nxt s a = (h, t)" by force
    obtain gs where g: "run_table nxt del t ops = (gs, s')" and hs: "hs = h # gs"
      using Cons.prems(2) by (auto simp: OpenEntry n split: prod.splits)
    from Cons.IH [OF nxt_inv [OF Cons.prems(1) n] g] show ?thesis
      using nxt_fresh [OF Cons.prems(1) n] by (auto simp: hs)
  next
    case (CloseEntry h)
    have "distinct hs \<and> set hs \<inter> issued (del s h) = {}"
      using Cons.prems Cons.IH [OF del_inv [OF Cons.prems(1)], of h hs] by (simp add: CloseEntry)
    then show ?thesis by (simp add: del_issued)
  qed
qed simp

lemma closed_stays_closed:
  "inv s \<Longrightarrow> h \<in> issued s \<Longrightarrow> get s h = None \<Longrightarrow> run_table nxt del s ops = (hs, s') \<Longrightarrow>
   get s' h = None \<and> h \<notin> set hs"
proof (induction ops arbitrary: s hs)
  case (Cons c ops)
  show ?case
  proof (cases c)
    case (OpenEntry a)
    obtain k t where n: "nxt s a = (k, t)" by force
    obtain gs where g: "run_table nxt del t ops = (gs, s')" and hs: "hs = k # gs"
      using Cons.prems(4) by (auto simp: OpenEntry n split: prod.splits)
    have k: "k \<notin> issued s" "issued t = insert k (issued s)" using nxt_fresh [OF Cons.prems(1) n] by auto
    then have ne: "k \<noteq> h" using Cons.prems(2) by auto
    have "get t h = None" using nxt_get [OF Cons.prems(1) n, of h] Cons.prems(3) ne by simp
    with Cons.IH [OF nxt_inv [OF Cons.prems(1) n] _ _ g] k ne Cons.prems(2) show ?thesis by (auto simp: hs)
  next
    case (CloseEntry k)
    have "get (del s k) h = None" using del_get [OF Cons.prems(1), of k h] Cons.prems(3) by simp
    then show ?thesis
      using Cons.prems Cons.IH [OF del_inv [OF Cons.prems(1)], of k hs] by (simp add: CloseEntry del_issued)
  qed
qed simp

lemma open_entry_stays:
  "inv s \<Longrightarrow> get s h = Some x \<Longrightarrow> CloseEntry h \<notin> set ops \<Longrightarrow> run_table nxt del s ops = (hs, s') \<Longrightarrow>
   get s' h = Some x"
proof (induction ops arbitrary: s hs)
  case (Cons c ops)
  show ?case
  proof (cases c)
    case (OpenEntry a)
    obtain k t where n: "nxt s a = (k, t)" by force
    obtain gs where g: "run_table nxt del t ops = (gs, s')"
      using Cons.prems(4) by (auto simp: OpenEntry n split: prod.splits)
    have "h \<in> issued s" using get_issued [OF Cons.prems(1)] Cons.prems(2) by simp
    then have "k \<noteq> h" using nxt_fresh [OF Cons.prems(1) n] by auto
    then have "get t h = Some x" using nxt_get [OF Cons.prems(1) n, of h] Cons.prems(2) by simp
    with Cons.IH [OF nxt_inv [OF Cons.prems(1) n] _ _ g] Cons.prems(3) show ?thesis by simp
  next
    case (CloseEntry k)
    with Cons.prems have "get (del s k) h = Some x" using del_get [OF Cons.prems(1), of k h] by auto
    then show ?thesis
      using Cons.prems Cons.IH [OF del_inv [OF Cons.prems(1)], of k hs] by (simp add: CloseEntry)
  qed
qed simp

end

end
