(* ===== verification/Sftp_Request.thy ===== *)
theory Sftp_Request
  imports Sftp_Status Sftp_Handles "HOL-Library.AList"
begin

text \<open>
  The request server of \<^verbatim>\<open>src/sftp/request.go\<close> and \<^verbatim>\<open>src/sftp/request-server.go\<close>: it turns
  packets into requests and calls the four handlers it was given. The handlers are an
  interface, a record of functions on a world of any type; the program provides them with the
  connection of \<^verbatim>\<open>src/serv/filehandler.go\<close>. Contexts and locks have no effect on the result of
  the sequential code here and are left out. A run-time panic is the result \<open>None\<close>.
\<close>

section \<open>Requests and handlers\<close>

definition MaxFilelist :: nat where
  "MaxFilelist = 100"

record ('h, 'l) Request =
  rq_Method :: string
  rq_Filepath :: string
  rq_Flags :: u32
  rq_Attrs :: bytes
  rq_Target :: string
  rq_handle :: string
  rq_writerAt :: "'h option"
  rq_readerAt :: "'h option"
  rq_writerReaderAt :: "'h option"
  rq_listerAt :: "'l option"
  rq_lsoffset :: int

text \<open>
  \<open>'h\<close> are the values behind \<open>io.ReaderAt\<close> and \<open>io.WriterAt\<close>, \<open>'l\<close> those behind \<open>ListerAt\<close>. The
  optional interfaces are options: \<open>OpenFileWriter\<close>, \<open>PosixRenameFileCmder\<close>, \<open>LstatFileLister\<close>,
  \<open>io.Closer\<close> and \<open>TransferError\<close>. \<open>ReadAt\<close> returns the bytes it put in front of the buffer.
\<close>

record ('w, 'h, 'l) Handlers =
  h_Fileread :: "('h, 'l) Request \<Rightarrow> 'w \<Rightarrow> (goerr + 'h) \<times> 'w"
  h_Filewrite :: "('h, 'l) Request \<Rightarrow> 'w \<Rightarrow> (goerr + 'h) \<times> 'w"
  h_OpenFile :: "(('h, 'l) Request \<Rightarrow> 'w \<Rightarrow> (goerr + 'h) \<times> 'w) option"
  h_Filecmd :: "('h, 'l) Request \<Rightarrow> 'w \<Rightarrow> goerr option \<times> 'w"
  h_PosixRename :: "(('h, 'l) Request \<Rightarrow> 'w \<Rightarrow> goerr option \<times> 'w) option"
  h_Filelist :: "('h, 'l) Request \<Rightarrow> 'w \<Rightarrow> (goerr + 'l) \<times> 'w"
  h_Lstat :: "(('h, 'l) Request \<Rightarrow> 'w \<Rightarrow> (goerr + 'l) \<times> 'w) option"
  h_ReadAt :: "'h \<Rightarrow> nat \<Rightarrow> int \<Rightarrow> 'w \<Rightarrow> (bytes \<times> goerr option) \<times> 'w"
  h_WriteAt :: "'h \<Rightarrow> bytes \<Rightarrow> int \<Rightarrow> 'w \<Rightarrow> goerr option \<times> 'w"
  h_Close :: "'h \<Rightarrow> ('w \<Rightarrow> goerr option \<times> 'w) option"
  h_TransferError :: "'h \<Rightarrow> (goerr \<Rightarrow> 'w \<Rightarrow> 'w) option"
  h_ListAt :: "'l \<Rightarrow> nat \<Rightarrow> int \<Rightarrow> 'w \<Rightarrow> (fileInfo list \<times> goerr option) \<times> 'w"

definition NewRequest :: "string \<Rightarrow> string \<Rightarrow> ('h, 'l) Request" where
  "NewRequest method path =
     \<lparr>rq_Method = method, rq_Filepath = cleanPath path, rq_Flags = 0, rq_Attrs = [], rq_Target = [],
      rq_handle = [], rq_writerAt = None, rq_readerAt = None, rq_writerReaderAt = None,
      rq_listerAt = None, rq_lsoffset = 0\<rparr>"

text \<open>
  What the worker switches on: a request packet, or the specific packet of an extended one.
\<close>

datatype wpkt = PReq requestPacket | PExt extendedPacket

fun wpkt_of :: "requestPacket \<Rightarrow> wpkt" where
  "wpkt_of (sshFxpExtendedPacket i r (Some e)) = PExt e"
| "wpkt_of p = PReq p"

fun wpkt_id :: "wpkt \<Rightarrow> u32" where
  "wpkt_id (PReq p) = request_id p"
| "wpkt_id (PExt e) = ext_ID e"

fun wpkt_getPath :: "wpkt \<Rightarrow> string option" where
  "wpkt_getPath (PReq p) = getPath p"
| "wpkt_getPath (PExt e) = ext_getPath e"

fun wpkt_getHandle :: "wpkt \<Rightarrow> string option" where
  "wpkt_getHandle (PReq p) = getHandle_of p"
| "wpkt_getHandle (PExt e) = None"

text \<open>The type assertion \<open>p.Attrs.([]byte)\<close>.\<close>

definition attrs_bytes :: "gval \<Rightarrow> bytes option" where
  "attrs_bytes a = (case a of GBytes b \<Rightarrow> Some b | _ \<Rightarrow> None)"

fun requestMethod :: "wpkt \<Rightarrow> string" where
  "requestMethod (PReq (sshFxpSetstatPacket _ _ _ _)) = ''Setstat''"
| "requestMethod (PReq (sshFxpFsetstatPacket _ _ _ _)) = ''Setstat''"
| "requestMethod (PReq (sshFxpRenamePacket _ _ _)) = ''Rename''"
| "requestMethod (PReq (sshFxpSymlinkPacket _ _ _)) = ''Symlink''"
| "requestMethod (PReq (sshFxpRemovePacket _ _)) = ''Remove''"
| "requestMethod (PReq (sshFxpStatPacket _ _)) = ''Stat''"
| "requestMethod (PReq (sshFxpFstatPacket _ _)) = ''Stat''"
| "requestMethod (PReq (sshFxpLstatPacket _ _)) = ''Lstat''"
| "requestMethod (PReq (sshFxpRmdirPacket _ _)) = ''Rmdir''"
| "requestMethod (PReq (sshFxpReadlinkPacket _ _)) = ''Readlink''"
| "requestMethod (PReq (sshFxpMkdirPacket _ _ _)) = ''Mkdir''"
| "requestMethod (PExt (sshFxpExtendedPacketHardlink _ _ _ _)) = ''Link''"
| "requestMethod _ = []"

definition requestFromPacket :: "wpkt \<Rightarrow> string \<Rightarrow> ('h, 'l) Request option" where
  "requestFromPacket pkt path =
     (let request = NewRequest (requestMethod pkt) path
      in case pkt of
           PReq (sshFxpOpenPacket _ _ pflags _) \<Rightarrow> Some (request\<lparr>rq_Flags := pflags\<rparr>)
         | PReq (sshFxpSetstatPacket _ flags _ attrs) \<Rightarrow>
             (case attrs_bytes attrs of None \<Rightarrow> None
              | Some b \<Rightarrow> Some (request\<lparr>rq_Flags := flags, rq_Attrs := b\<rparr>))
         | PReq (sshFxpRenamePacket _ _ newpath) \<Rightarrow> Some (request\<lparr>rq_Target := cleanPath newpath\<rparr>)
         | PReq (sshFxpSymlinkPacket _ _ linkpath) \<Rightarrow> Some (request\<lparr>rq_Target := cleanPath linkpath\<rparr>)
         | PExt (sshFxpExtendedPacketHardlink _ _ _ newpath) \<Rightarrow> Some (request\<lparr>rq_Target := cleanPath newpath\<rparr>)
         | _ \<Rightarrow> Some request)"

definition lsNext :: "('h, 'l) Request \<Rightarrow> int" where
  "lsNext r = rq_lsoffset r"

definition lsInc :: "int \<Rightarrow> ('h, 'l) Request \<Rightarrow> ('h, 'l) Request" where
  "lsInc offset r = r\<lparr>rq_lsoffset := rq_lsoffset r + offset\<rparr>"

text \<open>The flag accessors of \<^verbatim>\<open>src/sftp/request-attrs.go\<close>.\<close>

definition Request_Pflags :: "('h, 'l) Request \<Rightarrow> FileOpenFlags" where
  "Request_Pflags r = newFileOpenFlags (rq_Flags r)"

definition Request_AttrFlags :: "('h, 'l) Request \<Rightarrow> FileAttrFlags" where
  "Request_AttrFlags r = newFileAttrFlags (rq_Flags r)"

definition Request_Attributes :: "('h, 'l) Request \<Rightarrow> FileStat" where
  "Request_Attributes r = fst (getFileStat (rq_Flags r) (rq_Attrs r))"

section \<open>Closing\<close>

definition close_obj :: "('w, 'h, 'l) Handlers \<Rightarrow> 'h option \<Rightarrow> 'w \<Rightarrow> (goerr option \<times> 'w) option" where
  "close_obj hs obj w =
     (case obj of None \<Rightarrow> None
      | Some h \<Rightarrow> (case h_Close hs h of None \<Rightarrow> None | Some c \<Rightarrow> Some (c w)))"

definition Request_close :: "('w, 'h, 'l) Handlers \<Rightarrow> ('h, 'l) Request \<Rightarrow> 'w
    \<Rightarrow> goerr option \<times> ('h, 'l) Request \<times> 'w" where
  "Request_close hs r w =
     (let wr = rq_writerAt r; rd = rq_readerAt r; rw = rq_writerReaderAt r; err = None;
          (err, w) = (case close_obj hs wr w of None \<Rightarrow> (err, w)
             | Some (err2, w) \<Rightarrow> (if err = None then (err2, w) else (err, w)));
          (err, r, w) = (case close_obj hs rw w of None \<Rightarrow> (err, r, w)
             | Some (err2, w) \<Rightarrow>
                 (if err = None then (err2, r\<lparr>rq_writerReaderAt := None\<rparr>, w) else (err, r, w)));
          (err, w) = (case close_obj hs rd w of None \<Rightarrow> (err, w)
             | Some (err2, w) \<Rightarrow> (if err = None then (err2, w) else (err, w)))
      in (err, r, w))"

definition notify :: "('w, 'h, 'l) Handlers \<Rightarrow> goerr \<Rightarrow> 'h option \<Rightarrow> 'w \<Rightarrow> 'w" where
  "notify hs err obj w =
     (case obj of None \<Rightarrow> w
      | Some h \<Rightarrow> (case h_TransferError hs h of None \<Rightarrow> w | Some t \<Rightarrow> t err w))"

definition Request_transferError :: "('w, 'h, 'l) Handlers \<Rightarrow> goerr option \<Rightarrow> ('h, 'l) Request \<Rightarrow> 'w \<Rightarrow> 'w" where
  "Request_transferError hs err r w =
     (case err of None \<Rightarrow> w
      | Some e \<Rightarrow>
          (let w = notify hs e (rq_writerAt r) w; w = notify hs e (rq_writerReaderAt r) w
           in notify hs e (rq_readerAt r) w))"

section \<open>Calling the handlers\<close>

definition packetData :: "(nat \<Rightarrow> bytes) \<Rightarrow> wpkt \<Rightarrow> allocator option \<Rightarrow> u32
    \<Rightarrow> bytes \<times> int \<times> allocator option" where
  "packetData mem p alloc orderID =
     (case p of
        PReq (sshFxpReadPacket _ len offset _) \<Rightarrow>
          (let (data, alloc) = getDataSlice mem len alloc orderID in (data, sint offset, alloc))
      | PReq (sshFxpWritePacket _ _ offset _ data) \<Rightarrow> (data, sint offset, alloc)
      | _ \<Rightarrow> ([], 0, alloc))"

text \<open>The common part of the two reading branches.\<close>

definition read_response :: "u32 \<Rightarrow> bytes \<times> goerr option \<Rightarrow> responsePacket" where
  "read_response i = (\<lambda>(bs, err).
     (if err \<noteq> None \<and> (err \<noteq> Some IoEOF \<or> length bs = 0) then statusFromError i err
      else sshFxpDataPacket i (word_of_nat (length bs)) bs))"

definition fileget :: "('w, 'h, 'l) Handlers \<Rightarrow> (nat \<Rightarrow> bytes) \<Rightarrow> ('h, 'l) Request \<Rightarrow> wpkt \<Rightarrow> allocator option
    \<Rightarrow> u32 \<Rightarrow> 'w \<Rightarrow> responsePacket \<times> allocator option \<times> 'w" where
  "fileget hs mem r pkt alloc orderID w =
     (case rq_readerAt r of
        None \<Rightarrow> (statusFromError (wpkt_id pkt) (Some (ErrorString ''unexpected read packet'')), alloc, w)
      | Some reader \<Rightarrow>
          (let (data, offset, alloc) = packetData mem pkt alloc orderID;
               (res, w) = h_ReadAt hs reader (length data) offset w
           in (read_response (wpkt_id pkt) res, alloc, w)))"

definition fileput :: "('w, 'h, 'l) Handlers \<Rightarrow> (nat \<Rightarrow> bytes) \<Rightarrow> ('h, 'l) Request \<Rightarrow> wpkt \<Rightarrow> allocator option
    \<Rightarrow> u32 \<Rightarrow> 'w \<Rightarrow> responsePacket \<times> allocator option \<times> 'w" where
  "fileput hs mem r pkt alloc orderID w =
     (case rq_writerAt r of
        None \<Rightarrow> (statusFromError (wpkt_id pkt) (Some (ErrorString ''unexpected write packet'')), alloc, w)
      | Some writer \<Rightarrow>
          (let (data, offset, alloc) = packetData mem pkt alloc orderID;
               (err, w) = h_WriteAt hs writer data offset w
           in (statusFromError (wpkt_id pkt) err, alloc, w)))"

definition fileputget :: "('w, 'h, 'l) Handlers \<Rightarrow> (nat \<Rightarrow> bytes) \<Rightarrow> ('h, 'l) Request \<Rightarrow> wpkt \<Rightarrow> allocator option
    \<Rightarrow> u32 \<Rightarrow> 'w \<Rightarrow> responsePacket \<times> allocator option \<times> 'w" where
  "fileputget hs mem r pkt alloc orderID w =
     (case rq_writerReaderAt r of
        None \<Rightarrow> (statusFromError (wpkt_id pkt) (Some (ErrorString ''unexpected write and read packet'')), alloc, w)
      | Some wr \<Rightarrow>
          (case pkt of
             PReq (sshFxpReadPacket _ _ _ _) \<Rightarrow>
               (let (data, offset, alloc) = packetData mem pkt alloc orderID;
                    (res, w) = h_ReadAt hs wr (length data) offset w
                in (read_response (wpkt_id pkt) res, alloc, w))
           | PReq (sshFxpWritePacket _ _ _ _ _) \<Rightarrow>
               (let (data, offset, alloc) = packetData mem pkt alloc orderID;
                    (err, w) = h_WriteAt hs wr data offset w
                in (statusFromError (wpkt_id pkt) err, alloc, w))
           | _ \<Rightarrow> (statusFromError (wpkt_id pkt)
                    (Some (ErrorString ''unexpected packet type for read or write'')), alloc, w)))"

definition filecmd :: "('w, 'h, 'l) Handlers \<Rightarrow> ('h, 'l) Request \<Rightarrow> wpkt \<Rightarrow> 'w
    \<Rightarrow> (responsePacket \<times> ('h, 'l) Request \<times> 'w) option" where
  "filecmd hs r pkt w =
     (let r = (case pkt of
                 PReq (sshFxpFsetstatPacket _ flags _ attrs) \<Rightarrow>
                   map_option (\<lambda>b. r\<lparr>rq_Flags := flags, rq_Attrs := b\<rparr>) (attrs_bytes attrs)
               | _ \<Rightarrow> Some r)
      in case r of None \<Rightarrow> None
         | Some r \<Rightarrow>
             (if rq_Method r = ''PosixRename''
              then (case h_PosixRename hs of
                      Some posixRename \<Rightarrow>
                        (let (err, w) = posixRename r w in Some (statusFromError (wpkt_id pkt) err, r, w))
                    | None \<Rightarrow>
                        (let r = r\<lparr>rq_Method := ''Rename''\<rparr>; (err, w) = h_Filecmd hs r w
                         in Some (statusFromError (wpkt_id pkt) err, r, w)))
              else (let (err, w) = h_Filecmd hs r w in Some (statusFromError (wpkt_id pkt) err, r, w))))"

definition filelist :: "('w, 'h, 'l) Handlers \<Rightarrow> clock \<Rightarrow> ('h, 'l) Request \<Rightarrow> wpkt \<Rightarrow> 'w
    \<Rightarrow> responsePacket \<times> ('h, 'l) Request \<times> 'w" where
  "filelist hs ck r pkt w =
     (case rq_listerAt r of
        None \<Rightarrow> (statusFromError (wpkt_id pkt) (Some (ErrorString ''unexpected dir packet'')), r, w)
      | Some lister \<Rightarrow>
          (let ((finfo, err), w) = h_ListAt hs lister MaxFilelist (lsNext r) w;
               r = lsInc (int (length finfo)) r
           in if rq_Method r = ''List''
              then (if err \<noteq> None \<and> err \<noteq> Some IoEOF then (statusFromError (wpkt_id pkt) err, r, w)
                    else if err = Some IoEOF \<and> length finfo = 0
                         then (statusFromError (wpkt_id pkt) (Some IoEOF), r, w)
                    else (let dirname = path_Base (rq_Filepath r)
                          in (sshFxpNamePacket (wpkt_id pkt)
                                (map (\<lambda>fi. \<lparr>na_Name = fi_name fi, na_LongName = runLs ck dirname fi,
                                    na_Attrs = [GFileInfo fi]\<rparr>) finfo), r, w)))
              else (statusFromError (wpkt_id pkt)
                      (Some (ErrorString (''unexpected method: '' @ rq_Method r))), r, w)))"

text \<open>The answer to a stat or readlink request, from the result of \<open>ListAt\<close>.\<close>

definition stat_reply :: "u32 \<Rightarrow> ('h, 'l) Request \<Rightarrow> fileInfo list \<Rightarrow> goerr option \<Rightarrow> responsePacket" where
  "stat_reply i r finfo err =
     (if rq_Method r = ''Stat'' \<or> rq_Method r = ''Lstat''
      then (if err \<noteq> None \<and> err \<noteq> Some IoEOF then statusFromError i err
            else (case finfo of
                    [] \<Rightarrow> statusFromError i (Some (PathError (if rq_Method r = ''Stat'' then ''stat'' else ''lstat'')
                           (rq_Filepath r) (SysErrno ENOENT)))
                  | fi # _ \<Rightarrow> sshFxpStatResponse i fi))
      else if rq_Method r = ''Readlink''
      then (if err \<noteq> None \<and> err \<noteq> Some IoEOF then statusFromError i err
            else (case finfo of
                    [] \<Rightarrow> statusFromError i (Some (PathError ''readlink'' (rq_Filepath r) (SysErrno ENOENT)))
                  | fi # _ \<Rightarrow> sshFxpNamePacket i [\<lparr>na_Name = fi_name fi, na_LongName = fi_name fi,
                                na_Attrs = emptyFileStat\<rparr>]))
      else statusFromError i (Some (ErrorString (''unexpected method: '' @ rq_Method r))))"

definition filestat :: "('w, 'h, 'l) Handlers \<Rightarrow> ('h, 'l) Request \<Rightarrow> wpkt \<Rightarrow> 'w
    \<Rightarrow> responsePacket \<times> ('h, 'l) Request \<times> 'w" where
  "filestat hs r pkt w =
     (let (lister, r, w) =
        (if rq_Method r = ''Lstat''
         then (case h_Lstat hs of
                 Some lstat \<Rightarrow> (let (l, w) = lstat r w in (l, r, w))
               | None \<Rightarrow> (let r = r\<lparr>rq_Method := ''Stat''\<rparr>; (l, w) = h_Filelist hs r w in (l, r, w)))
         else (let (l, w) = h_Filelist hs r w in (l, r, w)))
      in case lister of
           Inl err \<Rightarrow> (statusFromError (wpkt_id pkt) (Some err), r, w)
         | Inr lister \<Rightarrow>
             (let ((finfo, err), w) = h_ListAt hs lister 1 0 w
              in (stat_reply (wpkt_id pkt) r finfo err, r, w)))"

definition Request_call :: "('w, 'h, 'l) Handlers \<Rightarrow> clock \<Rightarrow> (nat \<Rightarrow> bytes) \<Rightarrow> ('h, 'l) Request \<Rightarrow> wpkt
    \<Rightarrow> allocator option \<Rightarrow> u32 \<Rightarrow> 'w \<Rightarrow> (responsePacket \<times> ('h, 'l) Request \<times> allocator option \<times> 'w) option" where
  "Request_call hs ck mem r pkt alloc orderID w =
     (if rq_Method r = ''Get''
      then (let (p, alloc, w) = fileget hs mem r pkt alloc orderID w in Some (p, r, alloc, w))
      else if rq_Method r = ''Put''
      then (let (p, alloc, w) = fileput hs mem r pkt alloc orderID w in Some (p, r, alloc, w))
      else if rq_Method r = ''Open''
      then (let (p, alloc, w) = fileputget hs mem r pkt alloc orderID w in Some (p, r, alloc, w))
      else if rq_Method r \<in> {''Setstat'', ''Rename'', ''Rmdir'', ''Mkdir'', ''Link'', ''Symlink'', ''Remove'',
                ''PosixRename''}
      then map_option (\<lambda>(p, r, w). (p, r, alloc, w)) (filecmd hs r pkt w)
      else if rq_Method r = ''List''
      then (let (p, r, w) = filelist hs ck r pkt w in Some (p, r, alloc, w))
      else if rq_Method r \<in> {''Stat'', ''Lstat'', ''Readlink''}
      then (let (p, r, w) = filestat hs r pkt w in Some (p, r, alloc, w))
      else Some (statusFromError (wpkt_id pkt)
                   (Some (ErrorString (''unexpected method: '' @ rq_Method r))), r, alloc, w))"

definition Request_open :: "('w, 'h, 'l) Handlers \<Rightarrow> ('h, 'l) Request \<Rightarrow> wpkt \<Rightarrow> 'w
    \<Rightarrow> responsePacket \<times> ('h, 'l) Request \<times> 'w" where
  "Request_open hs r pkt w =
     (let flags = Request_Pflags r; i = wpkt_id pkt
      in if fo_Write flags \<or> fo_Append flags \<or> fo_Creat flags \<or> fo_Trunc flags
         then (case (if fo_Read flags then h_OpenFile hs else None) of
                 Some openFile \<Rightarrow>
                   (let r = r\<lparr>rq_Method := ''Open''\<rparr>
                    in case openFile r w of
                         (Inl err, w) \<Rightarrow> (statusFromError i (Some err), r, w)
                       | (Inr rw, w) \<Rightarrow> (sshFxpHandlePacket i (rq_handle r), r\<lparr>rq_writerReaderAt := Some rw\<rparr>, w))
               | None \<Rightarrow>
                   (let r = r\<lparr>rq_Method := ''Put''\<rparr>
                    in case h_Filewrite hs r w of
                         (Inl err, w) \<Rightarrow> (statusFromError i (Some err), r, w)
                       | (Inr wr, w) \<Rightarrow> (sshFxpHandlePacket i (rq_handle r), r\<lparr>rq_writerAt := Some wr\<rparr>, w)))
         else if fo_Read flags
         then (let r = r\<lparr>rq_Method := ''Get''\<rparr>
               in case h_Fileread hs r w of
                    (Inl err, w) \<Rightarrow> (statusFromError i (Some err), r, w)
                  | (Inr rd, w) \<Rightarrow> (sshFxpHandlePacket i (rq_handle r), r\<lparr>rq_readerAt := Some rd\<rparr>, w))
         else (statusFromError i (Some (ErrorString ''bad file flags'')), r, w))"

definition Request_opendir :: "('w, 'h, 'l) Handlers \<Rightarrow> ('h, 'l) Request \<Rightarrow> wpkt \<Rightarrow> 'w
    \<Rightarrow> responsePacket \<times> ('h, 'l) Request \<times> 'w" where
  "Request_opendir hs r pkt w =
     (let r = r\<lparr>rq_Method := ''List''\<rparr>
      in case h_Filelist hs r w of
           (Inl err, w) \<Rightarrow> (statusFromError (wpkt_id pkt) (Some (wrapPathError (rq_Filepath r) err)), r, w)
         | (Inr la, w) \<Rightarrow> (sshFxpHandlePacket (wpkt_id pkt) (rq_handle r), r\<lparr>rq_listerAt := Some la\<rparr>, w))"

end
