(* ===== verification/Sftp_RequestServer.thy ===== *)
theory Sftp_RequestServer
  imports Sftp_Request Sftp_Roundtrip
begin

text \<open>
  The state of \<open>RequestServer\<close> (\<^verbatim>\<open>src/sftp/request-server.go\<close>), the work of \<open>packetWorker\<close> on one
  packet, the receiving loop and the end of a session. Requests are pointers in the source:
  a change of an open request is written back to the table. The table is an instance of
  \<open>handle_table\<close>.
\<close>

section \<open>Open requests\<close>

record ('h, 'l) RequestServer =
  rsv_openRequests :: "(string \<times> ('h, 'l) Request) list"
  rsv_handleCount :: nat
  rsv_alloc :: "allocator option"

definition NewRequestServer :: "allocator option \<Rightarrow> ('h, 'l) RequestServer" where
  "NewRequestServer al = \<lparr>rsv_openRequests = [], rsv_handleCount = 0, rsv_alloc = al\<rparr>"

definition nextRequest :: "('h, 'l) RequestServer \<Rightarrow> ('h, 'l) Request \<Rightarrow> string \<times> ('h, 'l) RequestServer" where
  "nextRequest rs r =
     (let c = Suc (rsv_handleCount rs); handle = itoa c
      in (handle, rs\<lparr>rsv_handleCount := c,
            rsv_openRequests := AList.update handle (r\<lparr>rq_handle := handle\<rparr>) (rsv_openRequests rs)\<rparr>))"

definition getRequest :: "('h, 'l) RequestServer \<Rightarrow> string \<Rightarrow> ('h, 'l) Request option" where
  "getRequest rs handle = map_of (rsv_openRequests rs) handle"

definition deleteRequest :: "('h, 'l) RequestServer \<Rightarrow> string \<Rightarrow> ('h, 'l) RequestServer" where
  "deleteRequest rs handle = rs\<lparr>rsv_openRequests := AList.delete handle (rsv_openRequests rs)\<rparr>"

definition setRequest :: "('h, 'l) RequestServer \<Rightarrow> string \<Rightarrow> ('h, 'l) Request \<Rightarrow> ('h, 'l) RequestServer" where
  "setRequest rs handle r = rs\<lparr>rsv_openRequests := AList.update handle r (rsv_openRequests rs)\<rparr>"

definition closeRequest :: "('w, 'h, 'l) Handlers \<Rightarrow> ('h, 'l) RequestServer \<Rightarrow> string \<Rightarrow> 'w
    \<Rightarrow> goerr option \<times> ('h, 'l) RequestServer \<times> 'w" where
  "closeRequest hs rs handle w =
     (case getRequest rs handle of
        Some r \<Rightarrow> (let rs = deleteRequest rs handle; (err, r, w) = Request_close hs r w in (err, rs, w))
      | None \<Rightarrow> (Some (SysErrno EBADF), rs, w))"

text \<open>The handles given out so far are the numbers up to \<open>handleCount\<close>.\<close>

definition issued_handles :: "nat \<Rightarrow> string set" where
  "issued_handles n = itoa ` {1 .. n}"

definition rs_inv :: "('h, 'l) RequestServer \<Rightarrow> bool" where
  "rs_inv rs \<longleftrightarrow> (\<forall>h. getRequest rs h \<noteq> None \<longrightarrow> h \<in> issued_handles (rsv_handleCount rs))"

lemma issued_Suc: "issued_handles (Suc n) = insert (itoa (Suc n)) (issued_handles n)"
  by (simp add: issued_handles_def atLeastAtMostSuc_conv)

lemma issued_fresh: "itoa (Suc n) \<notin> issued_handles n"
  by (auto simp: issued_handles_def)

lemma rs_inv_new [simp]: "rs_inv (NewRequestServer al)"
  by (simp add: rs_inv_def NewRequestServer_def getRequest_def)

interpretation requests: handle_table nextRequest getRequest deleteRequest
  "\<lambda>h r. r\<lparr>rq_handle := h\<rparr>" "\<lambda>rs. issued_handles (rsv_handleCount rs)" rs_inv
proof
  fix s :: "('a, 'b) RequestServer" and a h s' k
  assume inv: "rs_inv s"
  show "h \<notin> issued_handles (rsv_handleCount s)
      \<and> issued_handles (rsv_handleCount s') = insert h (issued_handles (rsv_handleCount s))"
    if "nextRequest s a = (h, s')"
    using that by (auto simp: nextRequest_def Let_def issued_Suc issued_fresh)
  show "getRequest s' k = (if k = h then Some (a\<lparr>rq_handle := h\<rparr>) else getRequest s k)"
    if "nextRequest s a = (h, s')"
    using that by (auto simp: nextRequest_def Let_def getRequest_def update_conv')
  show "rs_inv s'" if "nextRequest s a = (h, s')"
    using that inv by (auto simp: nextRequest_def Let_def rs_inv_def getRequest_def issued_Suc update_conv' split: if_splits)
  show "getRequest (deleteRequest s h) k = (if k = h then None else getRequest s k)"
    by (simp add: deleteRequest_def getRequest_def delete_conv')
  show "rs_inv (deleteRequest s h)"
    using inv by (auto simp: deleteRequest_def rs_inv_def getRequest_def delete_conv' split: if_splits)
  show "h \<in> issued_handles (rsv_handleCount s)" if "getRequest s h \<noteq> None"
    using that inv by (auto simp: getRequest_def rs_inv_def)
qed (simp add: deleteRequest_def)

section \<open>The worker\<close>

text \<open>
  The branches of the type switch in their order. \<open>emit\<close> is the response with the new state.
\<close>

definition call_on_open :: "('w, 'h, 'l) Handlers \<Rightarrow> clock \<Rightarrow> (nat \<Rightarrow> bytes) \<Rightarrow> u32 \<Rightarrow> wpkt \<Rightarrow> string
    \<Rightarrow> ('h, 'l) RequestServer \<Rightarrow> 'w \<Rightarrow> (responsePacket \<times> ('h, 'l) RequestServer \<times> 'w) option" where
  "call_on_open hs ck mem orderID pkt handle rs w =
     (case getRequest rs handle of
        None \<Rightarrow> Some (statusFromError (wpkt_id pkt) (Some (SysErrno EBADF)), rs, w)
      | Some request \<Rightarrow>
          (case Request_call hs ck mem request pkt (rsv_alloc rs) orderID w of
             None \<Rightarrow> None
           | Some (rpkt, request, al, w) \<Rightarrow> Some (rpkt, (setRequest rs handle request)\<lparr>rsv_alloc := al\<rparr>, w)))"

definition call_on_copy :: "('w, 'h, 'l) Handlers \<Rightarrow> clock \<Rightarrow> (nat \<Rightarrow> bytes) \<Rightarrow> u32 \<Rightarrow> wpkt \<Rightarrow> string \<Rightarrow> string
    \<Rightarrow> ('h, 'l) RequestServer \<Rightarrow> 'w \<Rightarrow> (responsePacket \<times> ('h, 'l) RequestServer \<times> 'w) option" where
  "call_on_copy hs ck mem orderID pkt method handle rs w =
     (case getRequest rs handle of
        None \<Rightarrow> Some (statusFromError (wpkt_id pkt) (Some (SysErrno EBADF)), rs, w)
      | Some request \<Rightarrow>
          (case Request_call hs ck mem (NewRequest method (rq_Filepath request)) pkt (rsv_alloc rs) orderID w of
             None \<Rightarrow> None
           | Some (rpkt, _, al, w) \<Rightarrow> Some (rpkt, rs\<lparr>rsv_alloc := al\<rparr>, w)))"

definition is_handle :: "responsePacket \<Rightarrow> bool" where
  "is_handle p = (case p of sshFxpHandlePacket _ _ \<Rightarrow> True | _ \<Rightarrow> False)"

definition open_with :: "('w, 'h, 'l) Handlers
    \<Rightarrow> (('h, 'l) Request \<Rightarrow> wpkt \<Rightarrow> 'w \<Rightarrow> responsePacket \<times> ('h, 'l) Request \<times> 'w)
    \<Rightarrow> wpkt \<Rightarrow> string \<Rightarrow> ('h, 'l) RequestServer \<Rightarrow> 'w \<Rightarrow> (responsePacket \<times> ('h, 'l) RequestServer \<times> 'w) option" where
  "open_with hs opn pkt path rs w =
     (case requestFromPacket pkt path of None \<Rightarrow> None
      | Some request \<Rightarrow>
          (let (handle, rs) = nextRequest rs request;
               (rpkt, request, w) = opn (request\<lparr>rq_handle := handle\<rparr>) pkt w;
               rs = setRequest rs handle request
           in if is_handle rpkt then Some (rpkt, rs, w)
              else (let (err, rs, w) = closeRequest hs rs handle w in Some (rpkt, rs, w))))"

definition cleanPacketPath :: "u32 \<Rightarrow> string \<Rightarrow> responsePacket" where
  "cleanPacketPath i p =
     (let path = cleanPath p
      in sshFxpNamePacket i [\<lparr>na_Name = path, na_LongName = path, na_Attrs = emptyFileStat\<rparr>])"

text \<open>The last three cases of the switch: \<open>hasHandle\<close>, \<open>hasPath\<close> and the default.\<close>

definition worker_other :: "('w, 'h, 'l) Handlers \<Rightarrow> clock \<Rightarrow> (nat \<Rightarrow> bytes) \<Rightarrow> u32 \<Rightarrow> wpkt
    \<Rightarrow> ('h, 'l) RequestServer \<Rightarrow> 'w \<Rightarrow> (responsePacket \<times> ('h, 'l) RequestServer \<times> 'w) option" where
  "worker_other hs ck mem orderID pkt rs w =
     (case wpkt_getHandle pkt of
        Some handle \<Rightarrow> call_on_open hs ck mem orderID pkt handle rs w
      | None \<Rightarrow>
          (case wpkt_getPath pkt of
             Some path \<Rightarrow>
               (case requestFromPacket pkt path of None \<Rightarrow> None
                | Some request \<Rightarrow>
                    (case Request_call hs ck mem request pkt (rsv_alloc rs) orderID w of
                       None \<Rightarrow> None
                     | Some (rpkt, request, al, w) \<Rightarrow>
                         (let (err, request, w) = Request_close hs request w
                          in Some (rpkt, rs\<lparr>rsv_alloc := al\<rparr>, w))))
           | None \<Rightarrow> Some (statusFromError (wpkt_id pkt) (Some ErrSSHFxOpUnsupported), rs, w)))"

definition packetWorker :: "extensionPair list \<Rightarrow> ('w, 'h, 'l) Handlers \<Rightarrow> clock \<Rightarrow> (nat \<Rightarrow> bytes) \<Rightarrow> u32
    \<Rightarrow> requestPacket \<Rightarrow> ('h, 'l) RequestServer \<Rightarrow> 'w
    \<Rightarrow> (responsePacket \<times> ('h, 'l) RequestServer \<times> 'w) option" where
  "packetWorker sftpExtensions hs ck mem orderID p rs w =
     (let pkt = wpkt_of p
      in case pkt of
           PReq (sshFxInitPacket _ _) \<Rightarrow> Some (sshFxVersionPacket sftpProtocolVersion sftpExtensions, rs, w)
         | PReq (sshFxpClosePacket i handle) \<Rightarrow>
             (let (err, rs, w) = closeRequest hs rs handle w in Some (statusFromError i err, rs, w))
         | PReq (sshFxpRealpathPacket i path) \<Rightarrow> Some (cleanPacketPath i path, rs, w)
         | PReq (sshFxpOpendirPacket _ path) \<Rightarrow> open_with hs (Request_opendir hs) pkt path rs w
         | PReq (sshFxpOpenPacket _ path _ _) \<Rightarrow> open_with hs (Request_open hs) pkt path rs w
         | PReq (sshFxpFstatPacket _ handle) \<Rightarrow> call_on_copy hs ck mem orderID pkt ''Stat'' handle rs w
         | PReq (sshFxpFsetstatPacket _ _ handle _) \<Rightarrow>
             call_on_copy hs ck mem orderID pkt ''Setstat'' handle rs w
         | PExt (sshFxpExtendedPacketPosixRename _ _ oldpath newpath) \<Rightarrow>
             (case Request_call hs ck mem ((NewRequest ''PosixRename'' oldpath)\<lparr>rq_Target := newpath\<rparr>)
                     pkt (rsv_alloc rs) orderID w of
                None \<Rightarrow> None
              | Some (rpkt, _, al, w) \<Rightarrow> Some (rpkt, rs\<lparr>rsv_alloc := al\<rparr>, w))
         | _ \<Rightarrow> worker_other hs ck mem orderID pkt rs w)"

section \<open>The loop and the end of a session\<close>

text \<open>
  \<open>serveLoop\<close> delivers the packets for the channel, in order, until it returns an error. The
  order identifiers that mark the receive buffers are those of \<open>getNextOrderID\<close>.
\<close>

lemma recvPacket_shorter:
  assumes "recvPacket r alloc orderID = (Inr tb, r', alloc')"
  shows "length (rd_data r') < length (rd_data r)"
proof -
  obtain ty b where "tb = (ty, b)" by force
  with recvPacket_bounds assms have "rd_data r = PutUint32 (word_of_nat (Suc (length b))) @ ty # b @ rd_data r'"
    by blast
  then show ?thesis by simp
qed

function serveLoop :: "reader \<Rightarrow> allocator option \<Rightarrow> u32 \<Rightarrow> requestPacket list \<times> goerr" where
  "serveLoop r alloc orderID =
     (case recvPacket r alloc orderID of
        (Inl err, _) \<Rightarrow> ([], err)
      | (Inr (pktType, pktBytes), r', alloc') \<Rightarrow>
          (case makePacket pktType pktBytes of
             (Some pkt, err) \<Rightarrow>
               (if err = None \<or> err = Some ErrUnknownExtendedPacket
                then (let (pkts, e) = serveLoop r' alloc' (orderID + 1) in (pkt # pkts, e))
                else ([], the err))
           | (None, err) \<Rightarrow> ([], the err)))"
  by pat_completeness auto
termination
  by (relation "measure (\<lambda>(r, alloc, orderID). length (rd_data r))")
    (auto dest: recvPacket_shorter [OF sym])

declare serveLoop.simps [simp del]

definition Serve_cleanup :: "('w, 'h, 'l) Handlers \<Rightarrow> goerr option \<Rightarrow> ('h, 'l) RequestServer \<Rightarrow> 'w
    \<Rightarrow> goerr option \<times> ('h, 'l) RequestServer \<times> 'w" where
  "Serve_cleanup hs err rs w =
     fold (\<lambda>(handle, req) (err, rs, w).
        (let err = (if err = Some IoEOF then Some IoUnexpectedEOF else err);
             w = Request_transferError hs err req w;
             rs = deleteRequest rs handle;
             (_, _, w) = Request_close hs req w
         in (err, rs, w))) (rsv_openRequests rs) (err, rs, w)"

end
