(* ===== verification/Sftp_RequestProps.thy ===== *)
theory Sftp_RequestProps
  imports Sftp_RequestServer
begin

text \<open>
  The theorems on the request server of \<open>Sftp_RequestServer\<close>: every decodable packet gets
  exactly one response with its identifier, handles are never reused, a failing open leaves
  no handle behind, an unknown handle reaches no handler, and a byte stream of encoded
  requests is served packet by packet.
\<close>

section \<open>Decoded packets\<close>

fun decoded_ok :: "requestPacket \<Rightarrow> bool" where
  "decoded_ok (sshFxpSetstatPacket _ _ _ a) \<longleftrightarrow> is_bytes a"
| "decoded_ok (sshFxpFsetstatPacket _ _ _ a) \<longleftrightarrow> is_bytes a"
| "decoded_ok (sshFxpExtendedPacket i _ (Some e)) \<longleftrightarrow> ext_ID e = i"
| "decoded_ok _ \<longleftrightarrow> True"

lemma unmarshal_errors:
  "unmarshalUint32Safe b = Inl e \<Longrightarrow> e = ErrShortPacket"
  "unmarshalStringSafe b = Inl e \<Longrightarrow> e = ErrShortPacket"
  by (auto simp: unmarshalUint32Safe_def unmarshalStringSafe_def split: if_splits sum.splits prod.splits)

lemma extended_decoded_ok:
  assumes "sshFxpExtendedPacket_UnmarshalBinary b = (p, err)" and "err = None \<or> err = Some ErrUnknownExtendedPacket"
  shows "decoded_ok p"
  using assms
  by (auto simp: extended_defs Let_def split: sum.splits prod.splits if_splits)

lemma makePacket_decoded_ok:
  assumes "makePacket ty b = (Some p, err)" and "err = None \<or> err = Some ErrUnknownExtendedPacket"
  shows "decoded_ok p"
proof -
  consider (idstring) "ty \<in> {sshFxpLstat, sshFxpClose, sshFxpFstat, sshFxpOpendir, sshFxpReaddir,
      sshFxpRemove, sshFxpRmdir, sshFxpRealpath, sshFxpStat, sshFxpReadlink}"
    | (multi) "ty \<in> {sshFxpOpen, sshFxpRead, sshFxpWrite, sshFxpSetstat, sshFxpFsetstat, sshFxpMkdir,
      sshFxpRename, sshFxpSymlink}"
    | (extended) "ty = sshFxpExtended" | (initp) "ty = sshFxpInit"
    using assms(1) makePacket_unknown [of ty b] unfolding request_types_def by force
  then show ?thesis
  proof cases
    case idstring
    then show ?thesis
      using assms(1) by (auto simp: makePacket_simps idstring_defs Let_def split: prod.splits)
  next
    case multi
    then show ?thesis
      using assms
      by (auto simp: makePacket_simps decoder_defs Let_def split: prod.splits sum.splits if_splits
          dest!: unmarshal_errors)
  next
    case extended
    then show ?thesis
      using assms extended_decoded_ok [of b p err] by (simp add: makePacket_simps split: prod.splits)
  next
    case initp
    then show ?thesis
      using assms(1)
      by (auto simp: makePacket_simps sshFxInitPacket_UnmarshalBinary_def Let_def split: prod.splits sum.splits)
  qed
qed

section \<open>One response per packet\<close>

lemma response_id_read [simp]: "response_id (read_response i res) = i"
  by (cases res) (simp add: read_response_def)

lemma response_id_fileget [simp]: "response_id (fst (fileget hs mem r pkt alloc oid w)) = wpkt_id pkt"
  by (simp add: fileget_def split: option.split prod.split)

lemma response_id_fileput [simp]: "response_id (fst (fileput hs mem r pkt alloc oid w)) = wpkt_id pkt"
  by (simp add: fileput_def split: option.split prod.split)

lemma response_id_fileputget [simp]: "response_id (fst (fileputget hs mem r pkt alloc oid w)) = wpkt_id pkt"
  by (simp add: fileputget_def split: option.split prod.split wpkt.split requestPacket.split)

lemma response_id_filelist [simp]: "response_id (fst (filelist hs ck r pkt w)) = wpkt_id pkt"
  by (simp add: filelist_def Let_def split: option.split prod.split)

lemma response_id_stat_reply [simp]: "response_id (stat_reply i r finfo err) = i"
  by (simp add: stat_reply_def split: list.split)

lemma response_id_filestat [simp]: "response_id (fst (filestat hs r pkt w)) = wpkt_id pkt"
  unfolding filestat_def Let_def by (simp split: prod.split sum.split)

lemma response_id_open [simp]: "response_id (fst (Request_open hs r pkt w)) = wpkt_id pkt"
  by (simp add: Request_open_def Let_def split: option.split prod.split sum.split)

lemma response_id_opendir [simp]: "response_id (fst (Request_opendir hs r pkt w)) = wpkt_id pkt"
  by (simp add: Request_opendir_def Let_def split: prod.split sum.split)

fun wpkt_ok :: "wpkt \<Rightarrow> bool" where
  "wpkt_ok (PReq p) = decoded_ok p"
| "wpkt_ok (PExt _) = True"

lemma is_bytes_iff: "is_bytes a \<longleftrightarrow> attrs_bytes a \<noteq> None"
  by (cases a) (simp_all add: attrs_bytes_def)

lemma filecmd_ok:
  assumes "wpkt_ok pkt"
  shows "\<exists>rp r' w'. filecmd hs r pkt w = Some (rp, r', w') \<and> response_id rp = wpkt_id pkt"
proof -
  have "(case pkt of
         PReq (sshFxpFsetstatPacket _ flags _ attrs) \<Rightarrow>
           map_option (\<lambda>b. r\<lparr>rq_Flags := flags, rq_Attrs := b\<rparr>) (attrs_bytes attrs)
       | _ \<Rightarrow> Some r) \<noteq> None"
    using assms by (auto simp: is_bytes_iff split: wpkt.split requestPacket.split)
  then show ?thesis
    by (auto simp: filecmd_def Let_def split: option.splits prod.splits)
qed

lemma Request_call_ok:
  assumes "wpkt_ok pkt"
  shows "\<exists>rp r' al' w'. Request_call hs ck mem r pkt al oid w = Some (rp, r', al', w')
    \<and> response_id rp = wpkt_id pkt"
proof -
  obtain rp r' w' where "filecmd hs r pkt w = Some (rp, r', w')" and "response_id rp = wpkt_id pkt"
    using filecmd_ok [OF assms, of hs r w] by blast
  then show ?thesis
    by (auto simp: Request_call_def Let_def case_prod_unfold)
qed

lemma call_on_open_ok:
  assumes "wpkt_ok pkt"
  shows "\<exists>rp rs' w'. call_on_open hs ck mem oid pkt h rs w = Some (rp, rs', w') \<and> response_id rp = wpkt_id pkt"
proof (cases "getRequest rs h")
  case (Some r)
  then show ?thesis
    using Request_call_ok [OF assms, of hs ck mem r "rsv_alloc rs" oid w] by (auto simp: call_on_open_def)
qed (simp add: call_on_open_def)

lemma call_on_copy_ok:
  assumes "wpkt_ok pkt"
  shows "\<exists>rp rs' w'. call_on_copy hs ck mem oid pkt m h rs w = Some (rp, rs', w') \<and> response_id rp = wpkt_id pkt"
proof (cases "getRequest rs h")
  case (Some r)
  then show ?thesis
    using Request_call_ok [OF assms, of hs ck mem "NewRequest m (rq_Filepath r)" "rsv_alloc rs" oid w]
    by (auto simp: call_on_copy_def)
qed (simp add: call_on_copy_def)

lemma open_with_ok:
  fixes r0 :: "('h, 'l) Request" and rs :: "('h, 'l) RequestServer"
  assumes "requestFromPacket pkt path = Some r0" and "\<And>r w. response_id (fst (opn r pkt w)) = wpkt_id pkt"
  shows "\<exists>rp rs' w'. open_with hs opn pkt path rs w = Some (rp, rs', w') \<and> response_id rp = wpkt_id pkt"
proof -
  obtain h rs1 where n: "nextRequest rs r0 = (h, rs1)" by force
  obtain rp r w1 where o: "opn (r0\<lparr>rq_handle := h\<rparr>) pkt w = (rp, r, w1)" by (metis prod.exhaust)
  have "response_id rp = wpkt_id pkt" using assms(2) [of "r0\<lparr>rq_handle := h\<rparr>" w] by (simp add: o)
  then show ?thesis by (auto simp: open_with_def assms(1) n o Let_def case_prod_unfold)
qed

lemma path_request_ok:
  assumes "wpkt_ok pkt"
  shows "\<exists>r. requestFromPacket pkt path = Some r"
  using assms
  by (auto simp: requestFromPacket_def is_bytes_iff Let_def split: wpkt.split requestPacket.split extendedPacket.split
      option.split)

lemma path_call_ok:
  assumes "wpkt_ok pkt" and "requestFromPacket pkt path = Some r"
  shows "\<exists>rp rs' w'. (case Request_call hs ck mem r pkt (rsv_alloc rs) oid w of
      None \<Rightarrow> None
    | Some (rpkt, request, al, w) \<Rightarrow>
        (let (err, request, w) = Request_close hs request w
         in Some (rpkt, rs\<lparr>rsv_alloc := al\<rparr>, w))) = Some (rp, rs', w') \<and> response_id rp = wpkt_id pkt"
  using Request_call_ok [OF assms(1), of hs ck mem r "rsv_alloc rs" oid w] by (auto split: prod.split)

lemma wpkt_id_of: "decoded_ok p \<Longrightarrow> wpkt_id (wpkt_of p) = request_id p"
  by (cases p rule: wpkt_of.cases) auto

lemma wpkt_ok_of: "decoded_ok p \<Longrightarrow> wpkt_ok (wpkt_of p)"
  by (cases p rule: wpkt_of.cases) auto

lemma worker_other_ok:
  fixes hs :: "('w, 'h, 'l) Handlers"
  assumes "wpkt_ok pkt"
  shows "\<exists>rp rs' w'. worker_other hs ck mem orderID pkt rs w = Some (rp, rs', w') \<and> response_id rp = wpkt_id pkt"
proof (cases "wpkt_getHandle pkt")
  case None
  note no_handle = None
  show ?thesis
  proof (cases "wpkt_getPath pkt")
    case (Some path)
    obtain r :: "('h, 'l) Request" where r: "requestFromPacket pkt path = Some r"
      using path_request_ok [OF assms] by blast
    from path_call_ok [OF assms r, where hs = hs and ck = ck and mem = mem and rs = rs and oid = orderID and w = w]
    show ?thesis by (simp add: worker_other_def no_handle Some r)
  qed (simp add: worker_other_def no_handle)
next
  case (Some h)
  show ?thesis unfolding worker_other_def Some option.case by (rule call_on_open_ok [OF assms])
qed

lemma packetWorker_ok:
  fixes hs :: "('w, 'h, 'l) Handlers"
  assumes "decoded_ok p"
  shows "\<exists>rp rs' w'. packetWorker exts hs ck mem oid p rs w = Some (rp, rs', w') \<and> response_id rp = request_id p"
proof -
  let ?pkt = "wpkt_of p"
  have ok: "wpkt_ok ?pkt" and i: "wpkt_id ?pkt = request_id p" using assms wpkt_ok_of wpkt_id_of by auto
  note default = worker_other_ok [OF ok, where hs = hs and ck = ck and mem = mem and orderID = oid
      and rs = rs and w = w]
  note copy = call_on_copy_ok [OF ok, where hs = hs and ck = ck and mem = mem and oid = oid and rs = rs and w = w]
  have op_ok: "\<exists>rp rs' w'. open_with hs opn ?pkt path rs w = Some (rp, rs', w') \<and> response_id rp = request_id p"
    if "opn = Request_open hs \<or> opn = Request_opendir hs" for opn path
  proof -
    obtain r0 :: "('h, 'l) Request" where "requestFromPacket ?pkt path = Some r0" using path_request_ok [OF ok] by blast
    from open_with_ok [OF this, where opn = opn and hs = hs and rs = rs and w = w] that i show ?thesis by auto
  qed
  show ?thesis
  proof (cases ?pkt)
    case (PReq q)
    then show ?thesis
      using default i copy op_ok [of "Request_open hs"] op_ok [of "Request_opendir hs"]
      by (cases q) (auto simp: packetWorker_def cleanPacketPath_def Let_def case_prod_unfold)
  next
    case (PExt e)
    show ?thesis
    proof (cases e)
      case (sshFxpExtendedPacketPosixRename j q old new)
      then show ?thesis
        using Request_call_ok [OF ok, where hs = hs and ck = ck and mem = mem and al = "rsv_alloc rs"
            and oid = oid and w = w and r = "(NewRequest ''PosixRename'' old)\<lparr>rq_Target := new\<rparr>"] i
        by (auto simp: packetWorker_def PExt)
    qed (use default i in \<open>simp_all add: packetWorker_def PExt\<close>)
  qed
qed

section \<open>Opening\<close>

lemma getRequest_setRequest: "getRequest (setRequest rs h r) k = (if k = h then Some r else getRequest rs k)"
  by (simp add: getRequest_def setRequest_def update_conv')

lemma getRequest_alloc [simp]: "getRequest (rs\<lparr>rsv_alloc := al\<rparr>) k = getRequest rs k"
  by (simp add: getRequest_def)

lemma closeRequest_get:
  assumes "closeRequest hs rs h w = (err, rs', w')"
  shows "getRequest rs' k = (if k = h then None else getRequest rs k)"
  using assms
  by (auto simp: closeRequest_def getRequest_def deleteRequest_def delete_conv' Let_def case_prod_unfold
      split: option.splits)

lemma is_handle_status [simp]: "\<not> is_handle (statusFromError i err)"
  using statusFromError_is_status [of i err] by (auto simp: is_handle_def)

lemma Request_open_handle: "is_handle (fst (Request_open hs r pkt w)) \<Longrightarrow>
    fst (Request_open hs r pkt w) = sshFxpHandlePacket (wpkt_id pkt) (rq_handle r)"
  by (auto simp: Request_open_def Let_def split: option.splits prod.splits sum.splits if_splits)

lemma Request_opendir_handle: "is_handle (fst (Request_opendir hs r pkt w)) \<Longrightarrow>
    fst (Request_opendir hs r pkt w) = sshFxpHandlePacket (wpkt_id pkt) (rq_handle r)"
  by (auto simp: Request_opendir_def Let_def split: prod.splits sum.splits)

lemma open_with_get:
  fixes rs :: "('h, 'l) RequestServer"
  assumes "open_with hs opn pkt path rs w = Some (rp, rs', w')" and inv: "rs_inv rs"
    and hd: "\<And>r w. is_handle (fst (opn r pkt w)) \<Longrightarrow> fst (opn r pkt w) = sshFxpHandlePacket (wpkt_id pkt) (rq_handle r)"
  shows "if is_handle rp
    then \<exists>h r. rp = sshFxpHandlePacket (wpkt_id pkt) h \<and> h \<notin> issued_handles (rsv_handleCount rs)
           \<and> getRequest rs' = (getRequest rs)(h \<mapsto> r)
    else getRequest rs' = getRequest rs"
proof -
  obtain r0 :: "('h, 'l) Request" where r0: "requestFromPacket pkt path = Some r0"
    using assms(1) by (auto simp: open_with_def split: option.splits)
  obtain h rs1 where n: "nextRequest rs r0 = (h, rs1)" by force
  obtain rq r w1 where o: "opn (r0\<lparr>rq_handle := h\<rparr>) pkt w = (rq, r, w1)" by (metis prod.exhaust)
  have rq: "rq = rp" and s': "(rs', w') = (if is_handle rp then (setRequest rs1 h r, w1)
            else snd (closeRequest hs (setRequest rs1 h r) h w1))"
    using assms(1) by (auto simp: open_with_def r0 n o Let_def case_prod_unfold split: if_splits)
  have fresh: "h \<notin> issued_handles (rsv_handleCount rs)"
    and g1: "getRequest rs1 k = (if k = h then Some (r0\<lparr>rq_handle := h\<rparr>) else getRequest rs k)" for k
    using requests.nxt_fresh [OF inv n] requests.nxt_get [OF inv n] by simp_all
  then have none: "getRequest rs h = None" using requests.get_issued [OF inv, of h] by blast
  show ?thesis
  proof (cases "is_handle rp")
    case True
    then have "rp = sshFxpHandlePacket (wpkt_id pkt) h" using hd [of "r0\<lparr>rq_handle := h\<rparr>" w] by (simp add: o rq)
    moreover have "getRequest rs' = (getRequest rs)(h \<mapsto> r)"
      using True s' by (auto simp: getRequest_setRequest g1)
    ultimately show ?thesis using True fresh by auto
  next
    case False
    then obtain err where "closeRequest hs (setRequest rs1 h r) h w1 = (err, rs', w')"
      using s' by (metis prod.collapse)
    from closeRequest_get [OF this] have "getRequest rs' = getRequest rs"
      using none by (auto simp: getRequest_setRequest g1)
    with False show ?thesis by simp
  qed
qed

section \<open>Sessions\<close>

definition frame :: "bytes \<Rightarrow> bytes" where
  "frame bb = fst (sendPacket (\<lambda>w b. (w @ b, None)) [] (Inr bb))"

definition sendable :: "requestPacket \<Rightarrow> bytes \<Rightarrow> bool" where
  "sendable p bb \<longleftrightarrow> wf_request p \<and> request_MarshalBinary p = Some bb \<and> length bb \<le> maxMsgLength"

lemma serveLoop_frame:
  assumes "sendable p bb" and "rd_data r = frame bb @ rest"
  shows "\<exists>alloc'. serveLoop r alloc oid =
    (p # fst (serveLoop (r\<lparr>rd_data := rest\<rparr>) alloc' (oid + 1)), snd (serveLoop (r\<lparr>rd_data := rest\<rparr>) alloc' (oid + 1)))"
proof -
  obtain t body where bb: "bb = t # body" and dec: "makePacket t body = (Some p, None)"
    using makePacket_request_MarshalBinary [of p] assms(1) by (auto simp: sendable_def)
  have "rd_data r = PutUint32 (word_of_nat (length bb)) @ bb @ rest"
    using assms(2) by (simp add: frame_def frame_bytes)
  then have "recvPacket r alloc oid = (Inr (t, body), r\<lparr>rd_data := rest\<rparr>,
      map_option (\<lambda>a. snd (GetPage a oid)) alloc)"
    using recvPacket_frame [of bb r rest] assms(1) bb by (simp add: sendable_def)
  then show ?thesis
    using dec by (subst serveLoop.simps) (auto simp: case_prod_unfold Let_def)
qed

lemma serveLoop_end: "rd_data r = [] \<Longrightarrow> serveLoop r alloc oid = ([], rd_err r)"
  by (subst serveLoop.simps) (simp add: recvPacket_def io_ReadFull_def Let_def)

lemma serveLoop_frames:
  "list_all2 sendable ps bbs \<Longrightarrow> rd_data r = concat (map frame bbs) \<Longrightarrow>
   serveLoop r alloc oid = (ps, rd_err r)"
proof (induction ps bbs arbitrary: r alloc oid rule: list_all2_induct)
  case Nil
  then show ?case by (simp add: serveLoop_end)
next
  case (Cons p ps bb bbs)
  have "rd_data r = frame bb @ concat (map frame bbs)" using Cons.prems by simp
  from serveLoop_frame [OF Cons.hyps(1) this, of alloc oid] obtain al where
    "serveLoop r alloc oid = (p # fst (serveLoop (r\<lparr>rd_data := concat (map frame bbs)\<rparr>) al (oid + 1)),
       snd (serveLoop (r\<lparr>rd_data := concat (map frame bbs)\<rparr>) al (oid + 1)))" by blast
  then show ?case using Cons.IH [of "r\<lparr>rd_data := concat (map frame bbs)\<rparr>" al "oid + 1"] by simp
qed

section \<open>Properties\<close>

text \<open>
  Handlers that refuse everything, on a world that counts the calls made to them.
\<close>

definition deny_handlers :: "(nat, nat, nat) Handlers" where
  "deny_handlers =
     \<lparr>h_Fileread = (\<lambda>_ w. (Inl ErrSSHFxPermissionDenied, Suc w)),
      h_Filewrite = (\<lambda>_ w. (Inr 7, Suc w)), h_OpenFile = None,
      h_Filecmd = (\<lambda>_ w. (Some ErrSSHFxPermissionDenied, Suc w)), h_PosixRename = None,
      h_Filelist = (\<lambda>_ w. (Inl ErrSSHFxPermissionDenied, Suc w)), h_Lstat = None,
      h_ReadAt = (\<lambda>_ _ _ w. (([], Some IoEOF), Suc w)), h_WriteAt = (\<lambda>_ d _ w. (None, w + length d)),
      h_Close = (\<lambda>_. None), h_TransferError = (\<lambda>_. None), h_ListAt = (\<lambda>_ _ _ w. (([], Some IoEOF), Suc w))\<rparr>"

definition utc :: clock where
  "utc = \<lparr>ck_now = 0, ck_civil = (\<lambda>_. \<lparr>cv_year = 1970, cv_month = 1, cv_day = 1, cv_hour = 0, cv_minute = 0\<rparr>)\<rparr>"

text \<open>
  C11. Every packet that \<open>serveLoop\<close> accepts, that is one that \<open>makePacket\<close> decodes or rejects only
  for an unknown extension, is handled without a panic and answered by exactly one response,
  which carries the identifier of the request, whatever the handlers do.
\<close>

theorem one_response_per_packet:
  assumes "makePacket ty b = (Some p, err)" and "err = None \<or> err = Some ErrUnknownExtendedPacket"
  shows "\<exists>rp rs' w'. packetWorker exts hs ck mem orderID p rs w = Some (rp, rs', w') \<and> response_id rp = request_id p"
  by (rule packetWorker_ok [OF makePacket_decoded_ok [OF assms]])

theorem one_response_per_packet_witness:
  "\<exists>rp rs' w'. packetWorker [] deny_handlers utc (\<lambda>_. []) 1 (sshFxpRemovePacket 5 ''A'') (NewRequestServer None) 0
     = Some (rp, rs', w') \<and> response_id rp = 5"
proof -
  have "makePacket 13 [0, 0, 0, 5, 0, 0, 0, 1, 65] = (Some (sshFxpRemovePacket 5 ''A''), None)" by code_simp
  from one_response_per_packet [OF this, of "[]" deny_handlers utc "\<lambda>_. []" 1 "NewRequestServer None" 0]
  show ?thesis by simp
qed

text \<open>
  A packet for a handle that is not open is answered with an error and reaches no handler:
  neither the table of open requests nor the world of the handlers changes.
\<close>

theorem unknown_handle_rejected:
  assumes "getHandle_of p = Some h" and "getRequest rs h = None"
  shows "packetWorker exts hs ck mem orderID p rs w
    = Some (statusFromError (request_id p) (Some (SysErrno EBADF)), rs, w)
    \<and> status_code (statusFromError (request_id p) (Some (SysErrno EBADF))) = Some sshFxFailure"
proof
  show "packetWorker exts hs ck mem orderID p rs w
    = Some (statusFromError (request_id p) (Some (SysErrno EBADF)), rs, w)"
    using assms
    by (cases p) (simp_all add: packetWorker_def worker_other_def call_on_open_def call_on_copy_def closeRequest_def)
  show "status_code (statusFromError (request_id p) (Some (SysErrno EBADF))) = Some sshFxFailure"
    by (simp add: statusFromError_def status_code_def os_IsNotExist_def underlyingError_def
        translateSyscallError_def translateErrno_def errno_defs)
qed

theorem unknown_handle_rejected_witness:
  "packetWorker [] deny_handlers utc (\<lambda>_. []) 1 (sshFxpReadPacket 5 8 0 ''1'') (NewRequestServer None) 0
     = Some (statusFromError 5 (Some (SysErrno EBADF)), NewRequestServer None, 0)"
proof -
  have "getHandle_of (sshFxpReadPacket 5 8 0 ''1'') = Some ''1''" by simp
  moreover have "getRequest (NewRequestServer None :: (nat, nat) RequestServer) ''1'' = None" by code_simp
  ultimately show ?thesis
    using unknown_handle_rejected [of "sshFxpReadPacket 5 8 0 ''1''" "''1''" "NewRequestServer None" "[]"
        deny_handlers utc "\<lambda>_. []" 1 0] by simp
qed

text \<open>
  C22. An open or opendir request either succeeds with a handle that was never given out before,
  under which exactly one new request is open, or answers with an error and leaves no
  handle behind.
\<close>

theorem open_adds_one_handle:
  assumes "packetWorker exts hs ck mem orderID p rs w = Some (rp, rs', w')" and "rs_inv rs"
    and "(\<exists>i path f g. p = sshFxpOpenPacket i path f g) \<or> (\<exists>i path. p = sshFxpOpendirPacket i path)"
  shows "if is_handle rp
    then \<exists>h r. rp = sshFxpHandlePacket (request_id p) h \<and> h \<notin> issued_handles (rsv_handleCount rs)
           \<and> getRequest rs' = (getRequest rs)(h \<mapsto> r)
    else getRequest rs' = getRequest rs"
  using assms(3)
proof (elim disjE exE)
  fix i path f g
  assume "p = sshFxpOpenPacket i path f g"
  with assms(1) show ?thesis
    using open_with_get [of hs "Request_open hs" "PReq p" path rs w rp rs' w', OF _ assms(2) Request_open_handle]
    by (auto simp: packetWorker_def split: if_splits)
next
  fix i path
  assume "p = sshFxpOpendirPacket i path"
  with assms(1) show ?thesis
    using open_with_get [of hs "Request_opendir hs" "PReq p" path rs w rp rs' w', OF _ assms(2) Request_opendir_handle]
    by (auto simp: packetWorker_def split: if_splits)
qed

theorem open_adds_one_handle_witness:
  "\<exists>rp rs' w'. packetWorker [] deny_handlers utc (\<lambda>_. []) 1 (sshFxpOpenPacket 3 ''a'' sshFxfWrite 0)
       (NewRequestServer None) 0 = Some (rp, rs', w')
     \<and> (\<exists>h r. rp = sshFxpHandlePacket 3 h \<and> getRequest rs' = (getRequest (NewRequestServer None))(h \<mapsto> r))"
proof -
  let ?run = "packetWorker [] deny_handlers utc (\<lambda>_. []) 1 (sshFxpOpenPacket 3 ''a'' sshFxfWrite 0)
       (NewRequestServer None) 0"
  obtain rp rs' w' where run: "?run = Some (rp, rs', w')" and "is_handle rp"
  proof -
    have "case ?run of Some (rp, rs', w') \<Rightarrow> is_handle rp | None \<Rightarrow> False" by code_simp
    then show thesis using that by (auto split: option.splits)
  qed
  with open_adds_one_handle [OF run] show ?thesis by auto
qed

text \<open>
  Handles are never reused. In any sequence of opening and closing requests all handles
  given out are distinct and new, and a handle that was closed stays closed: a late packet
  for it cannot reach another file.
\<close>

theorem handles_not_reused:
  fixes rs :: "('h, 'l) RequestServer"
  assumes "rs_inv rs" and "run_table nextRequest deleteRequest rs ops = (hs, rs')"
  shows "rs_inv rs' \<and> distinct hs \<and> set hs \<inter> issued_handles (rsv_handleCount rs) = {}
    \<and> (\<forall>h \<in> issued_handles (rsv_handleCount rs). getRequest rs h = None \<longrightarrow> getRequest rs' h = None)"
  using requests.run_inv [OF assms] requests.run_fresh [OF assms]
    requests.closed_stays_closed [OF assms(1) _ _ assms(2)] by blast

theorem handles_not_reused_witness:
  "(let ops = [OpenEntry (NewRequest ''Get'' ''a''), CloseEntry ''1'', OpenEntry (NewRequest ''Put'' ''b'')];
        r = run_table nextRequest deleteRequest (NewRequestServer None :: (nat, nat) RequestServer) ops
    in fst r = [''1'', ''2''] \<and> distinct (fst r) \<and> rs_inv (snd r))"
proof -
  let ?ops = "[OpenEntry (NewRequest ''Get'' ''a''), CloseEntry ''1'', OpenEntry (NewRequest ''Put'' ''b'')]"
  let ?r = "run_table nextRequest deleteRequest (NewRequestServer None :: (nat, nat) RequestServer) ?ops"
  have "fst ?r = [''1'', ''2'']" by code_simp
  moreover have "rs_inv (NewRequestServer None :: (nat, nat) RequestServer)" by (rule rs_inv_new)
  from handles_not_reused [OF this prod.collapse [symmetric], of ?ops]
  have "rs_inv (snd ?r) \<and> distinct (fst ?r)" by blast
  ultimately show ?thesis unfolding Let_def by blast
qed

text \<open>
  C19. A session is read packet by packet: from a stream that holds any number of encoded and
  framed requests, \<open>serveLoop\<close> delivers exactly these requests in this order and returns the
  error that ended the stream, with or without an allocator.
\<close>

theorem session_roundtrip:
  assumes "list_all2 sendable ps bbs" and "rd_data r = concat (map frame bbs)"
  shows "serveLoop r alloc orderID = (ps, rd_err r)"
  using assms by (rule serveLoop_frames)

theorem session_roundtrip_witness:
  "serveLoop \<lparr>rd_data = frame (sshFxpStatPacket_MarshalBinary 1 ''/a'') @ frame (sshFxpClosePacket_MarshalBinary 2 ''1''),
       rd_err = IoEOF\<rparr> None 1
     = ([sshFxpStatPacket 1 ''/a'', sshFxpClosePacket 2 ''1''], IoEOF)"
proof -
  have "sendable (sshFxpStatPacket 1 ''/a'') (sshFxpStatPacket_MarshalBinary 1 ''/a'')"
    "sendable (sshFxpClosePacket 2 ''1'') (sshFxpClosePacket_MarshalBinary 2 ''1'')"
    by (simp_all add: sendable_def fits32_def maxMsgLength_def idstring_defs marshalIDString_def codec_simps)
  then show ?thesis
    using session_roundtrip [of "[sshFxpStatPacket 1 ''/a'', sshFxpClosePacket 2 ''1'']"
        "[sshFxpStatPacket_MarshalBinary 1 ''/a'', sshFxpClosePacket_MarshalBinary 2 ''1'']"
        "\<lparr>rd_data = frame (sshFxpStatPacket_MarshalBinary 1 ''/a'') @ frame (sshFxpClosePacket_MarshalBinary 2 ''1''),
          rd_err = IoEOF\<rparr>" None 1] by simp
qed

text \<open>
  The kind of a packet is not compared with the kind of its handle. A read request on a
  handle that was opened for writing is passed to \<open>fileput\<close>, which takes the buffer made for
  the answer as the data of a write: without an allocator the file is overwritten with as
  many zero bytes as the client asked to read, and the answer is the status of the write.
\<close>

theorem read_on_write_handle_writes:
  assumes "getRequest rs h = Some r" and "rq_Method r = ''Put''" and "rq_writerAt r = Some f"
    and "rsv_alloc rs = None" and "len \<le> maxTxPacket"
  shows "\<exists>rs'. packetWorker exts hs ck mem orderID (sshFxpReadPacket i len off h) rs w
    = (case h_WriteAt hs f (replicate (unat len) 0) (sint off) w of (err, w') \<Rightarrow> Some (statusFromError i err, rs', w'))"
  using assms
  by (auto simp: packetWorker_def worker_other_def call_on_open_def Request_call_def fileput_def packetData_def
      getDataSlice_def clamp_def Let_def case_prod_unfold)

theorem read_on_write_handle_writes_witness:
  "\<exists>rs'. packetWorker [] deny_handlers utc (\<lambda>_. []) 2 (sshFxpReadPacket 4 100 0 ''1'')
       (snd (nextRequest (NewRequestServer None) ((NewRequest ''Put'' ''a'')\<lparr>rq_writerAt := Some 7\<rparr>))) 0
     = Some (statusFromError 4 None, rs', 100)"
proof -
  let ?r = "(NewRequest ''Put'' ''a'')\<lparr>rq_writerAt := Some 7\<rparr> :: (nat, nat) Request"
  let ?rs = "snd (nextRequest (NewRequestServer None) ?r)"
  have one: "itoa (Suc 0) = ''1''" by code_simp
  have "getRequest ?rs ''1'' = Some (?r\<lparr>rq_handle := ''1''\<rparr>)"
    using one by (simp add: getRequest_def nextRequest_def NewRequestServer_def Let_def)
  from read_on_write_handle_writes [OF this, of 7 100 "[]" deny_handlers utc "\<lambda>_. []" 2 4 0 0]
  show ?thesis
    by (simp add: NewRequest_def nextRequest_def NewRequestServer_def maxTxPacket_def deny_handlers_def Let_def)
qed

end
