(* ===== verification/Sftp_Match.thy ===== *)
theory Sftp_Match
  imports Go_Path
begin

text \<open>
  File name patterns, \<^verbatim>\<open>sftp/match.go\<close>: the scanner that cuts a pattern at its stars, the matcher
  of a chunk without stars, \<open>path.Match\<close> of the standard library, which composes the two, and
  the globbing of the client on top. The language of a pattern is given
  separately: \<open>parse_glob\<close> reads the grammar of the comment on \<open>Match\<close>, and a name matches
  when it can be cut into one piece per term. \<open>Match\<close> never backtracks over an earlier star;
  the theorem \<open>Match_correct\<close> shows that it decides the language all the same.
\<close>

section \<open>Runes\<close>

text \<open>
  \<open>utf8.DecodeRuneInString\<close>: the rune at the front of a string and its width; an invalid or
  truncated encoding is \<open>RuneError\<close> of width one.
\<close>

type_synonym rune = int

abbreviation byte_at :: "string \<Rightarrow> nat \<Rightarrow> nat" where
  "byte_at s i \<equiv> of_char (s ! i)"

definition RuneError :: rune where "RuneError = 65533"

definition rune_size :: "nat \<Rightarrow> nat" where
  "rune_size b0 = (if b0 < 128 then 1 else if b0 < 194 \<or> 244 < b0 then 0 else if b0 < 224 then 2 else if b0 < 240 then 3 else 4)"

definition rune_ok :: "string \<Rightarrow> bool" where
  "rune_ok e \<longleftrightarrow> (1 < length e \<longrightarrow>
       (if byte_at e 0 = 224 then 160 else if byte_at e 0 = 240 then 144 else 128) \<le> byte_at e 1
       \<and> byte_at e 1 \<le> (if byte_at e 0 = 237 then 159 else if byte_at e 0 = 244 then 143 else 191))
     \<and> list_all (\<lambda>c. 128 \<le> (of_char c :: nat) \<and> (of_char c :: nat) \<le> 191) (drop 2 e)"

definition rune_value :: "string \<Rightarrow> rune" where
  "rune_value e = foldl (\<lambda>v c. v * 64 + of_char c mod 64)
     (if length e = 1 then of_char (e ! 0) else of_char (e ! 0) mod 2 ^ (7 - length e)) (tl e)"

definition DecodeRuneInString :: "string \<Rightarrow> rune \<times> nat" where
  "DecodeRuneInString s =
     (if s = [] then (RuneError, 0)
      else let n = rune_size (byte_at s 0)
        in if n = 0 \<or> length s < n \<or> \<not> rune_ok (take n s) then (RuneError, 1) else (rune_value (take n s), n))"

section \<open>Chunks\<close>

definition ErrBadPattern :: goerr where
  "ErrBadPattern = ErrorString ''syntax error in pattern''"

definition isPathSeparator :: "char \<Rightarrow> bool" where
  "isPathSeparator c \<longleftrightarrow> [c] = ''/''"

abbreviation backslash :: char where "backslash \<equiv> CHR 0x5C"

text \<open>
  The loop labelled \<open>Scan\<close>: the string up to the first star outside brackets, and the rest.
\<close>

fun scan :: "bool \<Rightarrow> string \<Rightarrow> string \<times> string" where
  "scan inrange [] = ([], [])"
| "scan inrange (c # cs) =
     (if c = backslash then
        (case cs of [] \<Rightarrow> ([c], []) | d # ds \<Rightarrow> (let (chunk, rest) = scan inrange ds in (c # d # chunk, rest)))
      else if c = CHR ''*'' \<and> \<not> inrange then ([], c # cs)
      else (let (chunk, rest) = scan (if c = CHR ''['' then True else if c = CHR '']'' then False else inrange) cs
            in (c # chunk, rest)))"

definition scanChunk :: "string \<Rightarrow> bool \<times> string \<times> string" where
  "scanChunk pattern =
     (let rest = dropWhile (\<lambda>c. c = CHR ''*'') pattern
      in (rest \<noteq> pattern, scan False rest))"

definition getEsc :: "string \<Rightarrow> goerr + rune \<times> string" where
  "getEsc chunk =
     (if chunk = [] \<or> hd chunk = CHR ''-'' \<or> hd chunk = CHR '']'' then Inl ErrBadPattern
      else let escaped = (hd chunk = backslash);
               chunk = (if escaped then tl chunk else chunk)
        in if escaped \<and> chunk = [] then Inl ErrBadPattern
           else let (r, n) = DecodeRuneInString chunk
             in if r = RuneError \<and> n = 1 \<or> drop n chunk = [] then Inl ErrBadPattern else Inr (r, drop n chunk))"

lemma rune_width: "s \<noteq> [] \<Longrightarrow> 0 < snd (DecodeRuneInString s)"
  by (simp add: DecodeRuneInString_def Let_def)

lemma getEsc_shorter: "getEsc chunk = Inr (r, rest) \<Longrightarrow> length rest < length chunk"
  using rune_width [of chunk] rune_width [of "tl chunk"]
  by (cases chunk) (auto simp: getEsc_def Let_def split: if_splits prod.splits)

text \<open>
  One turn of the loop over the ranges of a character class, a character or \<open>lo-hi\<close>; then the
  loop, from the position after the bracket and the caret: \<open>r\<close> is the rune of the name,
  \<open>matched\<close> and \<open>nrange\<close> the variables of the loop.
\<close>

definition getRange :: "string \<Rightarrow> goerr + rune \<times> rune \<times> string" where
  "getRange chunk =
     (case getEsc chunk of Inl e \<Rightarrow> Inl e
      | Inr (lo, chunk) \<Rightarrow>
          if hd chunk = CHR ''-'' then (case getEsc (tl chunk) of Inl e \<Rightarrow> Inl e | Inr (hi, chunk) \<Rightarrow> Inr (lo, hi, chunk))
          else Inr (lo, lo, chunk))"

lemma getRange_shorter: "getRange chunk = Inr (lo, hi, rest) \<Longrightarrow> length rest < length chunk"
  by (auto simp: getRange_def split: sum.splits if_splits dest!: getEsc_shorter)

function class_ranges :: "rune \<Rightarrow> bool \<Rightarrow> nat \<Rightarrow> string \<Rightarrow> goerr + bool \<times> string" where
  "class_ranges r matched nrange chunk =
     (if chunk \<noteq> [] \<and> hd chunk = CHR '']'' \<and> 0 < nrange then Inr (matched, tl chunk)
      else case getRange chunk of Inl e \<Rightarrow> Inl e
      | Inr (lo, hi, chunk) \<Rightarrow> class_ranges r (matched \<or> lo \<le> r \<and> r \<le> hi) (nrange + 1) chunk)"
  by pat_completeness auto
termination
  by (relation "measure (\<lambda>(r, m, n, chunk). length chunk)") (auto dest!: getRange_shorter)

declare class_ranges.simps [simp del]

text \<open>The grammar of the ranges, for the specification: the list of ranges up to the closing bracket.\<close>

function parse_ranges :: "nat \<Rightarrow> string \<Rightarrow> ((rune \<times> rune) list \<times> string) option" where
  "parse_ranges nrange chunk =
     (if chunk \<noteq> [] \<and> hd chunk = CHR '']'' \<and> 0 < nrange then Some ([], tl chunk)
      else case getRange chunk of Inl e \<Rightarrow> None
      | Inr (lo, hi, chunk) \<Rightarrow> map_option (\<lambda>(rs, rest). ((lo, hi) # rs, rest)) (parse_ranges (nrange + 1) chunk))"
  by pat_completeness auto
termination
  by (relation "measure (\<lambda>(n, chunk). length chunk)") (auto dest!: getRange_shorter)

declare parse_ranges.simps [simp del]

lemma getRange_error: "getRange chunk = Inl e \<Longrightarrow> e = ErrBadPattern"
  by (auto simp: getRange_def getEsc_def Let_def split: sum.splits if_splits prod.splits)

lemma class_ranges_parse:
  "class_ranges r m n chunk = (case parse_ranges n chunk of None \<Rightarrow> Inl ErrBadPattern
     | Some (rs, rest) \<Rightarrow> Inr (m \<or> (\<exists>(lo, hi) \<in> set rs. lo \<le> r \<and> r \<le> hi), rest))"
proof (induction r m n chunk rule: class_ranges.induct)
  case (1 r m n chunk)
  show ?case
  proof (cases "chunk \<noteq> [] \<and> hd chunk = CHR '']'' \<and> 0 < n")
    case True
    then show ?thesis by (simp add: class_ranges.simps [of r m n] parse_ranges.simps [of n])
  next
    case no: False
    note unfold = class_ranges.simps [of r m n chunk] parse_ranges.simps [of n chunk] if_not_P [OF no]
    show ?thesis
    proof (cases "getRange chunk")
      case (Inl e)
      then show ?thesis using getRange_error [OF Inl] by (simp add: unfold)
    next
      case (Inr x)
      obtain lo hi rest where x: "x = (lo, hi, rest)" by (rule prod_cases3)
      have "class_ranges r m n chunk = class_ranges r (m \<or> lo \<le> r \<and> r \<le> hi) (n + 1) rest"
        by (simp add: unfold Inr x)
      then show ?thesis using "1.IH" [OF no Inr, unfolded x, OF refl refl]
        by (simp only: unfold Inr x) (auto split: option.split)
    qed
  qed
qed

lemma parse_ranges_induct [consumes 1, case_names Close Range]:
  assumes "parse_ranges n chunk = Some (rs, rest)"
    and "\<And>n rest. 0 < n \<Longrightarrow> P n (CHR '']'' # rest) [] rest"
    and "\<And>n chunk lo hi c rs rest. \<not> (chunk \<noteq> [] \<and> hd chunk = CHR '']'' \<and> 0 < n) \<Longrightarrow> getRange chunk = Inr (lo, hi, c)
      \<Longrightarrow> P (n + 1) c rs rest \<Longrightarrow> P n chunk ((lo, hi) # rs) rest"
  shows "P n chunk rs rest"
  using assms(1)
proof (induction n chunk arbitrary: rs rule: parse_ranges.induct)
  case (1 n chunk)
  show ?case
  proof (cases "chunk \<noteq> [] \<and> hd chunk = CHR '']'' \<and> 0 < n")
    case True
    then have "chunk = CHR '']'' # rest" "rs = []" using "1.prems" by (auto simp: parse_ranges.simps [of n chunk] neq_Nil_conv)
    then show ?thesis using assms(2) True by simp
  next
    case no: False
    from "1.prems" obtain lo hi c rs' where r: "getRange chunk = Inr (lo, hi, c)"
      "parse_ranges (n + 1) c = Some (rs', rest)" "rs = (lo, hi) # rs'"
      unfolding parse_ranges.simps [of n chunk] if_not_P [OF no] by (auto split: sum.splits)
    then show ?thesis using assms(3) [OF no r(1)] "1.IH" [OF no r(1) refl refl r(2)] by simp
  qed
qed

lemma parse_ranges_shorter: "parse_ranges n chunk = Some (rs, rest) \<Longrightarrow> length rest < length chunk"
  by (induction rule: parse_ranges_induct) (auto dest: getRange_shorter)

lemma class_ranges_shorter: "class_ranges r m n chunk = Inr (m', rest) \<Longrightarrow> length rest < length chunk"
  by (auto simp: class_ranges_parse split: option.splits dest: parse_ranges_shorter)

text \<open>\<open>matchChunk\<close>: the error, or the rest of the name when the chunk matches its front.\<close>

function matchChunk :: "string \<Rightarrow> string \<Rightarrow> goerr + string option" where
  "matchChunk chunk s =
     (case chunk of [] \<Rightarrow> Inr (Some s)
      | c # cs \<Rightarrow>
          if s = [] then Inr None
          else if c = CHR ''['' then
            (let (r, n) = DecodeRuneInString s
             in if cs = [] then Inl ErrBadPattern
                else let negated = (hd cs = CHR ''^'')
                  in case class_ranges r False 0 (if negated then tl cs else cs) of Inl e \<Rightarrow> Inl e
                     | Inr (matched, rest) \<Rightarrow> if matched = negated then Inr None else matchChunk rest (drop n s))
          else if c = CHR ''?'' then
            (if isPathSeparator (hd s) then Inr None else matchChunk cs (drop (snd (DecodeRuneInString s)) s))
          else if c = backslash then
            (case cs of [] \<Rightarrow> Inl ErrBadPattern | d # ds \<Rightarrow> if d \<noteq> hd s then Inr None else matchChunk ds (tl s))
          else if c \<noteq> hd s then Inr None else matchChunk cs (tl s))"
  by pat_completeness auto
termination
  by (relation "measure (\<lambda>(chunk, s). length chunk)") (auto split: if_splits dest!: class_ranges_shorter)

declare matchChunk.simps [simp del]

section \<open>Match\<close>

text \<open>
  \<open>path.Match\<close> of Go 1.15, from which \<open>scanChunk\<close>, \<open>matchChunk\<close> and \<open>getEsc\<close> are copied.
  \<open>skip_match\<close> is its loop over the bytes a star may skip; on the last chunk it goes on
  until the name is used up.
\<close>

fun skip_match :: "bool \<Rightarrow> string \<Rightarrow> string \<Rightarrow> goerr + string option" where
  "skip_match final chunk [] = Inr None"
| "skip_match final chunk (c # cs) =
     (if c = CHR ''/'' then Inr None
      else case matchChunk chunk cs of Inl e \<Rightarrow> Inl e
        | Inr None \<Rightarrow> skip_match final chunk cs
        | Inr (Some t) \<Rightarrow> if final \<and> t \<noteq> [] then skip_match final chunk cs else Inr (Some t))"

lemma scan_append: "scan ir p = (chunk, rest) \<Longrightarrow> p = chunk @ rest"
proof (induction ir p arbitrary: chunk rest rule: scan.induct)
  case (2 ir c cs)
  then show ?case by (cases cs) (auto split: if_splits prod.splits)
qed simp

lemma scanChunk_shorter:
  assumes "scanChunk p = (star, chunk, rest)" and "p \<noteq> []"
  shows "length rest < length p"
proof -
  let ?p = "dropWhile (\<lambda>c. c = CHR ''*'') p"
  have s: "?p = chunk @ rest" and st: "star \<longleftrightarrow> ?p \<noteq> p" using assms(1) scan_append by (auto simp: scanChunk_def Let_def)
  show ?thesis
  proof (cases star)
    case True
    then have "length ?p < length p" using st by (metis dropWhile_eq_drop length_dropWhile_le le_neq_implies_less
          takeWhile_dropWhile_id append_Nil length_0_conv add_cancel_left_left length_append)
    then show ?thesis by (simp add: s)
  next
    case False
    then have "?p = p" and "hd p \<noteq> CHR ''*''" using st assms(2) by (simp_all add: dropWhile_eq_self_iff)
    then obtain c cs where p: "p = c # cs" "c \<noteq> CHR ''*''" using assms(2) by (cases p) auto
    then have "chunk \<noteq> []" using assms(1) by (cases cs) (auto simp: scanChunk_def Let_def split: if_splits prod.splits)
    then show ?thesis using s st False by (metis append_Nil length_append length_greater_0_conv less_add_same_cancel2)
  qed
qed

function Match :: "string \<Rightarrow> string \<Rightarrow> goerr + bool" where
  "Match pattern name =
     (if pattern = [] then Inr (name = [])
      else let (star, chunk, rest) = scanChunk pattern
        in if star \<and> chunk = [] then Inr (CHR ''/'' \<notin> set name)
           else case matchChunk chunk name of Inl e \<Rightarrow> Inl e
             | Inr m \<Rightarrow>
                 (if m \<noteq> None \<and> (the m = [] \<or> rest \<noteq> []) then Match rest (the m)
                  else if star then
                    (case skip_match (rest = []) chunk name of Inl e \<Rightarrow> Inl e
                     | Inr None \<Rightarrow> Inr False | Inr (Some t) \<Rightarrow> Match rest t)
                  else Inr False))"
  by pat_completeness auto
termination
  by (relation "measure (\<lambda>(pattern, name). length pattern)") (auto dest: scanChunk_shorter [OF sym])

declare Match.simps [simp del]

section \<open>The language of a pattern\<close>

text \<open>
  The grammar of the comment on \<open>Match\<close>. A name matches when it is the concatenation of one
  piece per term: any text without separator for a star, one character for the others.
\<close>

datatype gterm = Star | AnyChar | CharClass bool "(rune \<times> rune) list" | Lit char

definition parse_class :: "string \<Rightarrow> (gterm \<times> string) option" where
  "parse_class cs =
     (let negated = (cs \<noteq> [] \<and> hd cs = CHR ''^'')
      in map_option (\<lambda>(rs, rest). (CharClass negated rs, rest)) (parse_ranges 0 (if negated then tl cs else cs)))"

lemma parse_class_shorter: "parse_class cs = Some (t, rest) \<Longrightarrow> length rest < length cs"
  by (auto simp: parse_class_def Let_def neq_Nil_conv split: if_splits dest!: parse_ranges_shorter)

function parse_glob :: "string \<Rightarrow> gterm list option" where
  "parse_glob p =
     (case p of [] \<Rightarrow> Some []
      | c # cs \<Rightarrow>
          if c = CHR ''*'' then map_option (Cons Star) (parse_glob cs)
          else if c = CHR ''?'' then map_option (Cons AnyChar) (parse_glob cs)
          else if c = CHR ''['' then
            (case parse_class cs of None \<Rightarrow> None | Some (t, rest) \<Rightarrow> map_option (Cons t) (parse_glob rest))
          else if c = backslash then
            (case cs of [] \<Rightarrow> None | d # ds \<Rightarrow> map_option (Cons (Lit d)) (parse_glob ds))
          else map_option (Cons (Lit c)) (parse_glob cs))"
  by pat_completeness auto
termination
  by (relation "measure length") (auto dest!: parse_class_shorter)

declare parse_glob.simps [simp del]

lemma parse_glob_simps [simp]:
  "parse_glob [] = Some []"
  "parse_glob (CHR ''*'' # cs) = map_option (Cons Star) (parse_glob cs)"
  "parse_glob (CHR ''?'' # cs) = map_option (Cons AnyChar) (parse_glob cs)"
  "parse_glob (CHR ''['' # cs) = (case parse_class cs of None \<Rightarrow> None | Some (t, rest) \<Rightarrow> map_option (Cons t) (parse_glob rest))"
  "parse_glob [backslash] = None"
  "parse_glob (backslash # d # ds) = map_option (Cons (Lit d)) (parse_glob ds)"
  "c \<noteq> CHR ''*'' \<Longrightarrow> c \<noteq> CHR ''?'' \<Longrightarrow> c \<noteq> CHR ''['' \<Longrightarrow> c \<noteq> backslash \<Longrightarrow> parse_glob (c # cs) = map_option (Cons (Lit c)) (parse_glob cs)"
  by (simp_all add: parse_glob.simps [of "x # y" for x y] parse_glob.simps [of "[]"])

fun fits :: "gterm \<Rightarrow> char \<Rightarrow> bool" where
  "fits Star c \<longleftrightarrow> False"
| "fits AnyChar c \<longleftrightarrow> c \<noteq> CHR ''/''"
| "fits (CharClass negated rs) c \<longleftrightarrow> (\<exists>(lo, hi) \<in> set rs. lo \<le> of_char c \<and> of_char c \<le> hi) \<noteq> negated"
| "fits (Lit d) c \<longleftrightarrow> c = d"

fun takes :: "gterm \<Rightarrow> string \<Rightarrow> bool" where
  "takes Star piece \<longleftrightarrow> CHR ''/'' \<notin> set piece"
| "takes t piece \<longleftrightarrow> (\<exists>c. piece = [c] \<and> fits t c)"

definition glob_matches :: "gterm list \<Rightarrow> string \<Rightarrow> bool" where
  "glob_matches ts name \<longleftrightarrow> (\<exists>pieces. name = concat pieces \<and> list_all2 takes ts pieces)"

definition eats :: "gterm list \<Rightarrow> string \<Rightarrow> bool" where
  "eats ts s \<longleftrightarrow> length ts \<le> length s \<and> list_all2 fits ts (take (length ts) s)"

abbreviation star_free :: "gterm list \<Rightarrow> bool" where
  "star_free ts \<equiv> Star \<notin> set ts"

lemma glob_matches_Nil [simp]: "glob_matches [] s \<longleftrightarrow> s = []"
  by (simp add: glob_matches_def)

lemma glob_matches_Cons: "glob_matches (t # ts) s \<longleftrightarrow> (\<exists>p r. s = p @ r \<and> takes t p \<and> glob_matches ts r)"
  unfolding glob_matches_def by (auto simp: list_all2_Cons1) (metis concat.simps(2))+

lemma glob_matches_Star:
  "glob_matches (Star # ts) s \<longleftrightarrow> (\<exists>k \<le> length s. CHR ''/'' \<notin> set (take k s) \<and> glob_matches ts (drop k s))"
proof
  assume "glob_matches (Star # ts) s"
  then obtain p r where "s = p @ r" "CHR ''/'' \<notin> set p" "glob_matches ts r" by (auto simp: glob_matches_Cons)
  then show "\<exists>k \<le> length s. CHR ''/'' \<notin> set (take k s) \<and> glob_matches ts (drop k s)" by (intro exI [of _ "length p"]) simp
next
  assume "\<exists>k \<le> length s. CHR ''/'' \<notin> set (take k s) \<and> glob_matches ts (drop k s)"
  then obtain k where "CHR ''/'' \<notin> set (take k s)" "glob_matches ts (drop k s)" by blast
  then show "glob_matches (Star # ts) s"
    unfolding glob_matches_Cons by (intro exI [of _ "take k s"] exI [of _ "drop k s"]) simp
qed

lemma takes_one: "t \<noteq> Star \<Longrightarrow> takes t p \<longleftrightarrow> (\<exists>c. p = [c] \<and> fits t c)"
  by (cases t) auto

lemma eats_Nil [simp]: "eats [] s"
  by (simp add: eats_def)

lemma eats_Cons: "eats (t # ts) s \<longleftrightarrow> s \<noteq> [] \<and> fits t (hd s) \<and> eats ts (tl s)"
  by (cases s) (auto simp: eats_def)

lemma glob_matches_one:
  assumes "t \<noteq> Star"
  shows "glob_matches (t # ts) s \<longleftrightarrow> s \<noteq> [] \<and> fits t (hd s) \<and> glob_matches ts (tl s)"
proof -
  have "glob_matches (t # ts) s \<longleftrightarrow> (\<exists>c r. s = c # r \<and> fits t c \<and> glob_matches ts r)"
    unfolding glob_matches_Cons takes_one [OF assms] by (metis append_Cons append_Nil)
  then show ?thesis by (cases s) simp_all
qed

lemma glob_matches_chunk:
  "star_free cts \<Longrightarrow> glob_matches (cts @ ts) s \<longleftrightarrow> eats cts s \<and> glob_matches ts (drop (length cts) s)"
proof (induction cts arbitrary: s)
  case (Cons t cts)
  have "t \<noteq> Star" "star_free cts" using Cons.prems by auto
  then show ?case using Cons.IH [of "tl s"] by (cases s) (simp_all add: glob_matches_one eats_Cons)
qed simp

lemma glob_matches_Stars: "glob_matches (Star # Star # ts) s \<longleftrightarrow> glob_matches (Star # ts) s"
proof
  assume "glob_matches (Star # Star # ts) s"
  then obtain p q r where "s = p @ q @ r" "CHR ''/'' \<notin> set (p @ q)" "glob_matches ts r"
    by (auto simp: glob_matches_Cons)
  then show "glob_matches (Star # ts) s" unfolding glob_matches_Cons by (metis append_assoc takes.simps(1))
next
  assume "glob_matches (Star # ts) s"
  then show "glob_matches (Star # Star # ts) s"
    unfolding glob_matches_Cons [of Star "Star # ts"] by (metis append_Nil empty_iff list.set(1) takes.simps(1))
qed

section \<open>A star need not be tried twice\<close>

text \<open>
  Two matches of the same chunk, at \<open>i\<close> and further on at \<open>j\<close>, where the star may skip from
  one to the other: the star that follows may then skip from the end of the first to the end
  of the second. This fails when a character class accepts the separator.
\<close>

definition sep_safe :: "gterm list \<Rightarrow> string \<Rightarrow> bool" where
  "sep_safe ts s \<longleftrightarrow> CHR ''/'' \<notin> set s \<or> list_all (\<lambda>t. fits t CHR ''/'' \<longrightarrow> t = Lit CHR ''/'') ts"

lemma eats_nth: "eats ts s \<Longrightarrow> k < length ts \<Longrightarrow> fits (ts ! k) (s ! k)"
  by (auto simp: eats_def list_all2_conv_all_nth)

lemma no_sep_between:
  assumes "eats cts s" and "eats cts (drop d s)" and "0 < d" and "CHR ''/'' \<notin> set (take d s)" and "sep_safe cts s"
    and "p < d + length cts" and "p < length s"
  shows "s ! p \<noteq> CHR ''/''"
  using assms(6,7)
proof (induction p rule: less_induct)
  case (less p)
  show ?case
  proof (cases "p < d")
    case True
    then have "s ! p \<in> set (take d s)" using less.prems by (auto simp: in_set_conv_nth intro!: exI [of _ p])
    then show ?thesis using assms(4) by metis
  next
    case False
    show ?thesis
    proof
      assume sep: "s ! p = CHR ''/''"
      then have here: "fits (cts ! (p - d)) CHR ''/''" using eats_nth [OF assms(2), of "p - d"] less.prems False by simp
      have "CHR ''/'' \<in> set s" using sep less.prems nth_mem by metis
      then have "cts ! (p - d) = Lit CHR ''/''"
        using assms(5) here less.prems False by (simp add: sep_safe_def list_all_length)
      then have "s ! (p - d) = CHR ''/''" using eats_nth [OF assms(1), of "p - d"] less.prems False by simp
      moreover have "s ! (p - d) \<noteq> CHR ''/''" using less.IH [of "p - d"] less.prems assms(3) False by simp
      ultimately show False by simp
    qed
  qed
qed

lemma star_after:
  assumes "eats cts s" and "eats cts (drop d s)" and "CHR ''/'' \<notin> set (take d s)" and "sep_safe cts s" and "d \<le> length s"
    and "glob_matches (Star # ts) (drop (d + length cts) s)"
  shows "glob_matches (Star # ts) (drop (length cts) s)"
proof (cases "d = 0")
  case False
  let ?n = "length cts"
  have len: "d + ?n \<le> length s" using assms(2,5) by (auto simp: eats_def)
  have "CHR ''/'' \<notin> set (take d (drop ?n s))"
  proof
    assume "CHR ''/'' \<in> set (take d (drop ?n s))"
    then obtain k where "k < d" "?n + k < length s" "s ! (?n + k) = CHR ''/''" by (auto simp: in_set_conv_nth)
    then show False using no_sep_between [OF assms(1,2) _ assms(3,4), of "?n + k"] False by simp
  qed
  moreover have "drop (d + ?n) s = drop d (drop ?n s)" by (simp add: add.commute)
  ultimately have "glob_matches (Star # Star # ts) (drop ?n s)"
    using assms(6) len unfolding glob_matches_Star [of "Star # ts"] by (metis add_le_imp_le_diff length_drop)
  then show ?thesis by (simp add: glob_matches_Stars)
qed (use assms(6) in simp)

section \<open>Scanner and grammar agree\<close>

text \<open>
  What the scanner does over a piece of a pattern, whatever follows; a character class and
  each of its parts is read the same way whatever follows it.
\<close>

definition scans :: "bool \<Rightarrow> string \<Rightarrow> bool \<Rightarrow> bool" where
  "scans ir pre ir' \<longleftrightarrow> (\<forall>x. scan ir (pre @ x) = (pre @ fst (scan ir' x), snd (scan ir' x)))"

lemma scans_append: "scans ir a ir1 \<Longrightarrow> scans ir1 b ir2 \<Longrightarrow> scans ir (a @ b) ir2"
  by (simp add: scans_def)

lemma scans_high: "list_all (\<lambda>c. (128::nat) \<le> of_char c) pre \<Longrightarrow> scans ir pre ir"
proof (induction pre)
  case (Cons c pre)
  then have "c \<noteq> backslash" "c \<noteq> CHR ''*''" "c \<noteq> CHR ''[''" "c \<noteq> CHR '']''" by auto
  then show ?case using Cons by (simp add: scans_def case_prod_unfold Let_def)
qed (simp add: scans_def)

lemma rune_local:
  assumes "DecodeRuneInString s = (r, n)" and "\<not> (r = RuneError \<and> n = 1)" and "s \<noteq> []"
  shows "n = rune_size (byte_at s 0) \<and> 0 < n \<and> n \<le> length s \<and> rune_ok (take n s) \<and> DecodeRuneInString (take n s @ x) = (r, n)"
proof -
  have r: "n = rune_size (byte_at s 0)" "0 < n" "n \<le> length s" "rune_ok (take n s)" "r = rune_value (take n s)"
    using assms by (auto simp: DecodeRuneInString_def Let_def split: if_splits)
  then have "(take n s @ x) ! 0 = s ! 0" "take n s @ x \<noteq> []" using assms(3) by (auto simp: nth_append)
  with r assms(3) show ?thesis by (auto simp: DecodeRuneInString_def Let_def)
qed

lemma rune_high:
  assumes "rune_ok e" and "length e = rune_size (byte_at e 0)" and "e \<noteq> []"
  shows "if byte_at e 0 < 128 then e = [hd e] else list_all (\<lambda>c. (128::nat) \<le> of_char c) e"
proof (cases "byte_at e 0 < 128")
  case True
  then show ?thesis using assms(2) by (cases e) (auto simp: rune_size_def)
next
  case False
  then have "1 < length e" using assms(2,3) by (auto simp: rune_size_def split: if_splits)
  then obtain c d es where e: "e = c # d # es" by (cases e; cases "tl e") auto
  show ?thesis using assms(1) False by (auto simp: e rune_ok_def list_all_iff split: if_splits)
qed

lemma getEsc_local:
  assumes "getEsc cs = Inr (r, c1)"
  shows "c1 \<noteq> [] \<and> (\<exists>pre. cs = pre @ c1 \<and> pre \<noteq> [] \<and> (\<forall>x. x \<noteq> [] \<longrightarrow> getEsc (pre @ x) = Inr (r, x)) \<and> scans True pre True)"
proof -
  define esc where "esc = (hd cs = backslash)"
  define ch where "ch = (if esc then tl cs else cs)"
  obtain r' n where d: "DecodeRuneInString ch = (r', n)" by (cases "DecodeRuneInString ch")
  have cs: "cs \<noteq> []" "hd cs \<noteq> CHR ''-''" "hd cs \<noteq> CHR '']''" "ch \<noteq> []" "r' = r" "\<not> (r = RuneError \<and> n = 1)" "c1 = drop n ch" "c1 \<noteq> []"
    using assms d by (auto simp: getEsc_def Let_def esc_def ch_def split: if_splits)
  let ?e = "take n ch"
  have l: "n = rune_size (byte_at ch 0)" "0 < n" "n \<le> length ch" "rune_ok ?e" "\<And>x. DecodeRuneInString (?e @ x) = (r, n)"
    using rune_local [of ch r n] d cs by auto
  have e: "?e \<noteq> []" "hd ?e = hd ch" "?e ! 0 = hd ch" "length ?e = n" using l cs by (auto simp: hd_conv_nth)
  have high: "if (of_char (hd ch) :: nat) < 128 then ?e = [hd ch] else list_all (\<lambda>c. (128::nat) \<le> of_char c) ?e"
  proof -
    have "length ?e = rune_size (byte_at ?e 0)" using l(1) e cs(4) by (simp add: hd_conv_nth)
    from rune_high [OF l(4) this e(1)] show ?thesis by (simp only: e)
  qed
  let ?pre = "(if esc then [backslash] else []) @ ?e"
  have "cs = ?pre @ c1" using cs by (cases cs) (auto simp: ch_def esc_def)
  moreover have "getEsc (?pre @ x) = Inr (r, x)" if "x \<noteq> []" for x
    using that cs l e by (auto simp: getEsc_def Let_def ch_def esc_def)
  moreover have "scans True ?pre True"
  proof (cases "(of_char (hd ch) :: nat) < 128")
    case True
    then show ?thesis using high cs by (auto simp: scans_def case_prod_unfold Let_def ch_def esc_def)
  next
    case False
    then have "list_all (\<lambda>c. (128::nat) \<le> of_char c) ?e" using high by simp
    then obtain c es where "?e = c # es" "scans True es True" "scans True ?e True" using e(1) scans_high by (cases ?e) auto
    then show ?thesis by (auto simp: scans_def)
  qed
  ultimately show ?thesis using cs e by blast
qed

lemma getRange_local:
  assumes "getRange cs = Inr (lo, hi, c1)"
  shows "c1 \<noteq> [] \<and> (\<exists>pre. cs = pre @ c1 \<and> pre \<noteq> [] \<and> (\<forall>x. x \<noteq> [] \<and> hd x = hd c1 \<longrightarrow> getRange (pre @ x) = Inr (lo, hi, x)) \<and> scans True pre True)"
proof -
  from assms obtain c where c: "getEsc cs = Inr (lo, c)" by (auto simp: getRange_def split: sum.splits if_splits)
  from getEsc_local [OF c] obtain pre where pre: "c \<noteq> []" "cs = pre @ c" "pre \<noteq> []" "scans True pre True"
    "\<And>x. x \<noteq> [] \<Longrightarrow> getEsc (pre @ x) = Inr (lo, x)" by blast
  show ?thesis
  proof (cases "hd c = CHR ''-''")
    case False
    then have "hi = lo" "c1 = c" using assms c by (auto simp: getRange_def)
    then show ?thesis using pre False by (auto simp: getRange_def intro!: exI [of _ pre])
  next
    case True
    then obtain c' where c': "c = CHR ''-'' # c'" using pre(1) by (cases c) auto
    then have hi: "getEsc c' = Inr (hi, c1)" using assms c True by (auto simp: getRange_def split: sum.splits)
    from getEsc_local [OF hi] obtain pre' where pre': "c1 \<noteq> []" "c' = pre' @ c1" "scans True pre' True"
      "\<And>x. x \<noteq> [] \<Longrightarrow> getEsc (pre' @ x) = Inr (hi, x)" by blast
    have "scans True ''-'' True" by (simp add: scans_def case_prod_unfold Let_def)
    then have "scans True (pre @ ''-'' @ pre') True" using pre(4) pre'(3) by (intro scans_append)
    then show ?thesis using pre pre' c' by (auto simp: getRange_def intro!: exI [of _ "pre @ ''-'' @ pre'"])
  qed
qed

lemma parse_ranges_local:
  assumes "parse_ranges n cs = Some (rs, rest)"
  shows "\<exists>pre. cs = pre @ rest \<and> pre \<noteq> [] \<and> (\<forall>x. parse_ranges n (pre @ x) = Some (rs, x)) \<and> scans True pre False"
  using assms
proof (induction rule: parse_ranges_induct)
  case (Close n rest)
  then show ?case by (intro exI [of _ "'']''"]) (simp add: scans_def case_prod_unfold Let_def parse_ranges.simps)
next
  case (Range n chunk lo hi c rs rest)
  from getRange_local [OF Range(2)] obtain pre1 where 1: "c \<noteq> []" "chunk = pre1 @ c" "pre1 \<noteq> []" "scans True pre1 True"
    "\<And>x. x \<noteq> [] \<Longrightarrow> hd x = hd c \<Longrightarrow> getRange (pre1 @ x) = Inr (lo, hi, x)" by blast
  from Range(3) obtain pre2 where 2: "c = pre2 @ rest" "pre2 \<noteq> []" "scans True pre2 False"
    "\<And>x. parse_ranges (n + 1) (pre2 @ x) = Some (rs, x)" by blast
  have "parse_ranges n (pre1 @ pre2 @ x) = Some ((lo, hi) # rs, x)" for x
  proof -
    have "\<not> (pre1 @ pre2 @ x \<noteq> [] \<and> hd (pre1 @ pre2 @ x) = CHR '']'' \<and> 0 < n)" using Range(1) 1 by simp
    moreover have "getRange (pre1 @ pre2 @ x) = Inr (lo, hi, pre2 @ x)" using 1(5) [of "pre2 @ x"] 2 by simp
    ultimately show ?thesis using 2(4) [of x] by (subst parse_ranges.simps) simp
  qed
  then show ?case using 1 2 scans_append [OF 1(4) 2(3)] by (intro exI [of _ "pre1 @ pre2"]) simp
qed

lemma parse_class_local:
  assumes "parse_class cs = Some (t, rest)"
  shows "t \<noteq> Star \<and> (\<exists>pre. cs = pre @ rest \<and> (\<forall>x. parse_class (pre @ x) = Some (t, x)) \<and> scans True pre False)"
proof -
  define negated where "negated = (cs \<noteq> [] \<and> hd cs = CHR ''^'')"
  from assms obtain rs where rs: "parse_ranges 0 (if negated then tl cs else cs) = Some (rs, rest)" "t = CharClass negated rs"
    by (auto simp: parse_class_def negated_def Let_def split: if_splits)
  from parse_ranges_local [OF rs(1)] obtain pre where pre: "(if negated then tl cs else cs) = pre @ rest" "pre \<noteq> []"
    "\<And>x. parse_ranges 0 (pre @ x) = Some (rs, x)" "scans True pre False" by blast
  let ?pre = "(if negated then ''^'' else []) @ pre"
  have "cs = ?pre @ rest" using pre(1) by (cases cs) (auto simp: negated_def split: if_splits)
  moreover have "parse_class (?pre @ x) = Some (t, x)" for x
    using pre(1-3) rs(2) by (auto simp: parse_class_def Let_def negated_def split: if_splits)
  moreover have "scans True ?pre False" using pre(4) by (auto simp: scans_def case_prod_unfold Let_def)
  ultimately show ?thesis using rs(2) by blast
qed

text \<open>
  The first term of a pattern: the text \<open>pre\<close> reads as the term \<open>t\<close> for the scanner, for the grammar
  and, on names of single-byte characters, for the matcher of chunks.
\<close>

abbreviation ascii :: "string \<Rightarrow> bool" where
  "ascii s \<equiv> list_all (\<lambda>c. (of_char c :: nat) < 128) s"

lemma rune_ascii: "ascii (c # s) \<Longrightarrow> DecodeRuneInString (c # s) = (of_char c, 1)"
  by (simp add: DecodeRuneInString_def rune_size_def rune_ok_def rune_value_def)

definition reads_term :: "gterm \<Rightarrow> string \<Rightarrow> bool" where
  "reads_term t pre \<longleftrightarrow> t \<noteq> Star \<and> pre \<noteq> [] \<and> scans False pre False
     \<and> (\<forall>x. parse_glob (pre @ x) = map_option (Cons t) (parse_glob x))
     \<and> (\<forall>x s. ascii s \<longrightarrow> matchChunk (pre @ x) s = (if s = [] \<or> \<not> fits t (hd s) then Inr None else matchChunk x (tl s)))"

lemma reads_any: "reads_term AnyChar ''?''"
  using rune_ascii by (auto simp: reads_term_def scans_def case_prod_unfold Let_def matchChunk.simps [of "a # b" for a b]
      isPathSeparator_def neq_Nil_conv)

lemma reads_lit: "c \<noteq> CHR ''*'' \<Longrightarrow> c \<noteq> CHR ''?'' \<Longrightarrow> c \<noteq> CHR ''['' \<Longrightarrow> c \<noteq> backslash \<Longrightarrow> reads_term (Lit c) [c]"
  by (auto simp: reads_term_def scans_def case_prod_unfold Let_def matchChunk.simps [of "a # b" for a b])

lemma reads_escaped: "reads_term (Lit d) [backslash, d]"
  by (auto simp: reads_term_def scans_def case_prod_unfold Let_def matchChunk.simps [of "a # b" for a b])

lemma matchChunk_class:
  assumes "parse_class cs = Some (t, rest)" and "ascii s"
  shows "matchChunk (CHR ''['' # cs) s = (if s = [] \<or> \<not> fits t (hd s) then Inr None else matchChunk rest (tl s))"
proof (cases s)
  case (Cons a as)
  let ?cs = "if hd cs = CHR ''^'' then tl cs else cs"
  from assms(1) obtain rs where rs: "parse_ranges 0 ?cs = Some (rs, rest)" "cs \<noteq> []" "t = CharClass (hd cs = CHR ''^'') rs"
    by (cases cs) (auto simp: parse_class_def Let_def parse_ranges.simps [of 0 "[]"] getRange_def getEsc_def split: if_splits)
  then have "class_ranges (of_char a) False 0 ?cs = Inr (\<exists>(lo, hi) \<in> set rs. lo \<le> of_char a \<and> of_char a \<le> hi, rest)"
    by (simp add: class_ranges_parse)
  then show ?thesis using Cons rs(2,3) rune_ascii [of a as] assms(2) by (subst matchChunk.simps) simp
qed (simp add: matchChunk.simps)

lemma reads_class:
  assumes "parse_class cs = Some (t, rest)"
  shows "\<exists>pre. cs = pre @ rest \<and> reads_term t (CHR ''['' # pre)"
proof -
  from parse_class_local [OF assms] obtain pre where pre: "t \<noteq> Star" "cs = pre @ rest" "\<And>x. parse_class (pre @ x) = Some (t, x)"
    "scans True pre False" by blast
  then have "reads_term t (CHR ''['' # pre)"
    using matchChunk_class [OF pre(3)] by (simp add: reads_term_def scans_def case_prod_unfold Let_def)
  then show ?thesis using pre(2) by blast
qed

lemma first_term:
  assumes "parse_glob p = Some ts" and "p \<noteq> []" and "hd p \<noteq> CHR ''*''"
  shows "\<exists>t pre q ts'. p = pre @ q \<and> reads_term t pre \<and> parse_glob q = Some ts' \<and> ts = t # ts'"
proof -
  obtain c cs where p: "p = c # cs" "c \<noteq> CHR ''*''" using assms(2,3) by (cases p) auto
  have step: ?thesis if "p = pre @ q" "reads_term t pre" for pre q t
  proof -
    have "map_option (Cons t) (parse_glob q) = Some ts" using that assms(1) by (auto simp: reads_term_def)
    then show ?thesis using that by blast
  qed
  consider "c = CHR ''?''" | "c = CHR ''[''" | "c = backslash" | "c \<noteq> CHR ''?''" "c \<noteq> CHR ''[''" "c \<noteq> backslash" by blast
  then show ?thesis
  proof cases
    case 1
    then show ?thesis using step [OF _ reads_any] p by simp
  next
    case 2
    then obtain t rest where "parse_class cs = Some (t, rest)" using assms(1) p by (auto split: option.splits)
    then show ?thesis using reads_class step p 2 by (metis append_Cons)
  next
    case 3
    then obtain d ds where "cs = d # ds" using assms(1) p by (cases cs) auto
    then show ?thesis using step [OF _ reads_escaped] p 3 by simp
  next
    case 4
    then show ?thesis using step [OF _ reads_lit] p by simp
  qed
qed

lemma scan_parse:
  assumes "parse_glob p = Some ts" and "scan False p = (chunk, rest)"
  shows "\<exists>cts rts. parse_glob chunk = Some cts \<and> star_free cts \<and> parse_glob rest = Some rts \<and> ts = cts @ rts
    \<and> (rest = [] \<or> hd rest = CHR ''*'')"
  using assms
proof (induction p arbitrary: ts chunk rest rule: length_induct)
  case (1 p)
  show ?case
  proof (cases "p = [] \<or> hd p = CHR ''*''")
    case True
    then show ?thesis using "1.prems" by (cases p) auto
  next
    case False
    then obtain t pre q ts' where f: "p = pre @ q" "reads_term t pre" "parse_glob q = Some ts'" "ts = t # ts'"
      using first_term [OF "1.prems"(1)] by blast
    then have q: "length q < length p" "scan False q = (fst (scan False q), rest)" "chunk = pre @ fst (scan False q)"
      using "1.prems"(2) by (auto simp: reads_term_def scans_def)
    then obtain cts rts where "parse_glob (fst (scan False q)) = Some cts" "star_free cts" "parse_glob rest = Some rts" "ts' = cts @ rts"
      "rest = [] \<or> hd rest = CHR ''*''" using "1.IH" f(3) by blast
    then show ?thesis using f q(3) by (intro exI [of _ "t # cts"] exI [of _ rts]) (auto simp: reads_term_def)
  qed
qed

lemma matchChunk_eats:
  assumes "parse_glob chunk = Some cts" and "star_free cts" and "ascii s"
  shows "matchChunk chunk s = Inr (if eats cts s then Some (drop (length cts) s) else None)"
  using assms
proof (induction chunk arbitrary: cts s rule: length_induct)
  case (1 chunk)
  show ?case
  proof (cases "chunk = []")
    case True
    then show ?thesis using "1.prems" by (simp add: matchChunk.simps)
  next
    case False
    have "hd chunk \<noteq> CHR ''*''" using "1.prems"(1,2) False by (cases chunk) auto
    then obtain t pre q ts' where f: "chunk = pre @ q" "reads_term t pre" "parse_glob q = Some ts'" "cts = t # ts'"
      using first_term [OF "1.prems"(1) False] by blast
    then have "length q < length chunk" by (simp add: reads_term_def)
    moreover have "ascii (tl s)" using "1.prems"(3) by (cases s) auto
    ultimately have "matchChunk q (tl s) = Inr (if eats ts' (tl s) then Some (drop (length ts') (tl s)) else None)"
      using "1.IH" f "1.prems"(2) by simp
    then show ?thesis using f "1.prems"(3) by (auto simp: reads_term_def eats_Cons drop_Suc)
  qed
qed

section \<open>The matcher decides the language\<close>

lemma ascii_drop [simp]: "ascii s \<Longrightarrow> ascii (drop n s)"
  by (auto simp: list_all_iff dest: in_set_dropD)

definition skips_to :: "bool \<Rightarrow> gterm list \<Rightarrow> string \<Rightarrow> nat \<Rightarrow> bool" where
  "skips_to final cts s k \<longleftrightarrow> k \<le> length s \<and> CHR ''/'' \<notin> set (take k s) \<and> eats cts (drop k s)
     \<and> (final \<longrightarrow> drop (k + length cts) s = [])"

lemma skips_to_Suc: "skips_to final cts (c # s) (Suc k) \<longleftrightarrow> c \<noteq> CHR ''/'' \<and> skips_to final cts s k"
  by (auto simp: skips_to_def)

lemma skip_match_first:
  assumes "parse_glob chunk = Some cts" and "star_free cts" and "ascii s"
  shows "(skip_match final chunk s = Inr None \<and> (\<forall>k>0. \<not> skips_to final cts s k))
    \<or> (\<exists>k>0. skip_match final chunk s = Inr (Some (drop (k + length cts) s)) \<and> skips_to final cts s k
          \<and> (\<forall>j>0. j < k \<longrightarrow> \<not> skips_to final cts s j))"
  using assms(3)
proof (induction s)
  case Nil
  then show ?case by (simp add: skips_to_def)
next
  case (Cons c s)
  have m: "matchChunk chunk s = Inr (if eats cts s then Some (drop (length cts) s) else None)"
    using matchChunk_eats [OF assms(1,2)] Cons.prems by simp
  have pos: "(\<forall>k>0. P k) \<longleftrightarrow> (\<forall>k. P (Suc k))" "(\<exists>k>0. P k) \<longleftrightarrow> (\<exists>k. P (Suc k))" for P :: "nat \<Rightarrow> bool"
    by (metis Suc_pred zero_less_Suc)+
  show ?case
  proof (cases "c = CHR ''/''")
    case True
    then show ?thesis by (simp add: pos skips_to_Suc)
  next
    case c: False
    show ?thesis
    proof (cases "skips_to final cts s 0")
      case True
      then show ?thesis using c m by (intro disjI2 exI [of _ 1]) (auto simp: skips_to_Suc skips_to_def)
    next
      case False
      then have same: "skip_match final chunk (c # s) = skip_match final chunk s" using c m by (auto simp: skips_to_def)
      have shift: "skips_to final cts (c # s) j \<longleftrightarrow> 1 < j \<and> skips_to final cts s (j - 1)" if "0 < j" for j
        using that False c by (cases j; cases "j - 1") (auto simp: skips_to_Suc)
      have "ascii s" using Cons.prems by simp
      from Cons.IH [OF this] show ?thesis
      proof (elim disjE exE conjE)
        assume "skip_match final chunk s = Inr None" "\<forall>k>0. \<not> skips_to final cts s k"
        then show ?thesis using same shift by simp
      next
        fix k assume k: "0 < k" "skip_match final chunk s = Inr (Some (drop (k + length cts) s))" "skips_to final cts s k"
          "\<forall>j>0. j < k \<longrightarrow> \<not> skips_to final cts s j"
        then show ?thesis using same shift by (intro disjI2 exI [of _ "Suc k"]) (auto simp: less_Suc_eq)
      qed
    qed
  qed
qed

lemma glob_matches_Star_cong: "(\<And>s. glob_matches ts s \<longleftrightarrow> glob_matches us s) \<Longrightarrow> glob_matches (Star # ts) s \<longleftrightarrow> glob_matches (Star # us) s"
  by (simp add: glob_matches_Star)

lemma drop_stars:
  assumes "parse_glob p = Some ts"
  shows "\<exists>qts. parse_glob (dropWhile (\<lambda>c. c = CHR ''*'') p) = Some qts \<and> set qts \<subseteq> set ts
    \<and> (\<forall>s. glob_matches ts s \<longleftrightarrow> glob_matches ((if dropWhile (\<lambda>c. c = CHR ''*'') p \<noteq> p then [Star] else []) @ qts) s)"
  using assms
proof (induction p arbitrary: ts)
  case (Cons c p)
  let ?drop = "dropWhile (\<lambda>c. c = CHR ''*'')"
  show ?case
  proof (cases "c = CHR ''*''")
    case True
    then obtain ts' where ts: "parse_glob p = Some ts'" "ts = Star # ts'" using Cons.prems by auto
    from Cons.IH [OF ts(1)] obtain qts where q: "parse_glob (?drop p) = Some qts" "set qts \<subseteq> set ts'"
      "\<And>s. glob_matches ts' s \<longleftrightarrow> glob_matches ((if ?drop p \<noteq> p then [Star] else []) @ qts) s" by blast
    have "length (?drop p) < length (c # p)" by (simp add: length_dropWhile_le less_Suc_eq_le)
    then have d: "?drop (c # p) \<noteq> c # p" using True by auto
    have "glob_matches (Star # ts') s \<longleftrightarrow> glob_matches (Star # qts) s" for s
      using glob_matches_Star_cong [OF q(3), of s] by (cases "?drop p = p") (simp_all add: glob_matches_Stars)
    then show ?thesis using q(1,2) ts d True by (intro exI [of _ qts]) auto
  qed (use Cons.prems in auto)
qed simp

lemma scanChunk_parse:
  assumes "parse_glob p = Some ts" and "scanChunk p = (star, chunk, rest)"
  shows "\<exists>cts rts. parse_glob chunk = Some cts \<and> star_free cts \<and> parse_glob rest = Some rts \<and> set (cts @ rts) \<subseteq> set ts
    \<and> (\<forall>s. glob_matches ts s \<longleftrightarrow> glob_matches ((if star then [Star] else []) @ cts @ rts) s)
    \<and> (rest = [] \<or> hd rest = CHR ''*'') \<and> (chunk = [] \<longrightarrow> rest = [])"
proof -
  let ?q = "dropWhile (\<lambda>c. c = CHR ''*'') p"
  from drop_stars [OF assms(1)] obtain qts where q: "parse_glob ?q = Some qts" "set qts \<subseteq> set ts"
    "\<And>s. glob_matches ts s \<longleftrightarrow> glob_matches ((if ?q \<noteq> p then [Star] else []) @ qts) s" by blast
  have sc: "scan False ?q = (chunk, rest)" "star \<longleftrightarrow> ?q \<noteq> p" using assms(2) by (auto simp: scanChunk_def Let_def)
  have "rest = []" if "chunk = []"
  proof (rule ccontr)
    assume "rest \<noteq> []"
    moreover have "?q = rest" using scan_append [OF sc(1)] that by simp
    moreover have "hd rest = CHR ''*''" using scan_parse [OF q(1) sc(1)] \<open>rest \<noteq> []\<close> by blast
    ultimately show False using hd_dropWhile [of "\<lambda>c. c = CHR ''*''" p] by simp
  qed
  moreover obtain cts rts where "parse_glob chunk = Some cts" "star_free cts" "parse_glob rest = Some rts" "qts = cts @ rts"
    "rest = [] \<or> hd rest = CHR ''*''" using scan_parse [OF q(1) sc(1)] by blast
  ultimately show ?thesis using q(2,3) sc(2) by (intro exI [of _ cts] exI [of _ rts]) simp
qed

lemma sep_safe_part: "sep_safe ts s \<Longrightarrow> set us \<subseteq> set ts \<Longrightarrow> sep_safe us (drop k s)"
  by (auto simp: sep_safe_def list_all_iff dest: in_set_dropD)

text \<open>The first position the star may skip to decides, since the rest of the pattern starts with another star.\<close>

lemma first_skip_decides:
  assumes "skips_to (rts = []) cts s k" and "\<And>j. j < k \<Longrightarrow> \<not> skips_to (rts = []) cts s j" and "star_free cts"
    and "sep_safe cts s" and "rts = [] \<or> (\<exists>us. rts = Star # us)"
  shows "glob_matches (Star # cts @ rts) s \<longleftrightarrow> glob_matches rts (drop (k + length cts) s)"
proof
  assume "glob_matches rts (drop (k + length cts) s)"
  then show "glob_matches (Star # cts @ rts) s" using assms(1,3)
    by (auto simp: glob_matches_Star [of "cts @ rts"] glob_matches_chunk skips_to_def add.commute intro!: exI [of _ k])
next
  assume "glob_matches (Star # cts @ rts) s"
  then obtain j where j: "j \<le> length s" "CHR ''/'' \<notin> set (take j s)" "eats cts (drop j s)" "glob_matches rts (drop (j + length cts) s)"
    using assms(3) by (auto simp: glob_matches_Star glob_matches_chunk add.commute)
  show "glob_matches rts (drop (k + length cts) s)"
  proof (cases "rts = []")
    case True
    then show ?thesis using assms(1) by (simp add: skips_to_def)
  next
    case False
    then obtain us where us: "rts = Star # us" using assms(5) by blast
    have kj: "k \<le> j" using assms(2) [of j] j False by (intro leI) (auto simp: skips_to_def)
    have "take (j - k) (drop k s) = drop k (take j s)" by (simp add: drop_take)
    then have "CHR ''/'' \<notin> set (take (j - k) (drop k s))" using j(2) by (metis in_set_dropD)
    then show ?thesis unfolding us using star_after [of cts "drop k s" "j - k" us] assms(1,4) j kj us
        sep_safe_part [OF assms(4) subset_refl, of k] by (simp add: skips_to_def add.commute add.assoc)
  qed
qed

lemma Match_scan:
  assumes "pattern \<noteq> []" and "scanChunk pattern = (star, chunk, rest)" and "\<not> (star \<and> chunk = [])"
    and "matchChunk chunk name = Inr m"
  shows "Match pattern name = (if m \<noteq> None \<and> (the m = [] \<or> rest \<noteq> []) then Match rest (the m)
     else if star then (case skip_match (rest = []) chunk name of Inl e \<Rightarrow> Inl e | Inr None \<Rightarrow> Inr False | Inr (Some t) \<Rightarrow> Match rest t)
     else Inr False)"
  unfolding Match.simps [of pattern name] using assms by (simp only: Let_def prod.case if_False sum.case simp_thms)

lemma no_skip_no_match:
  assumes "\<And>k. \<not> skips_to (rts = []) cts s k" and "star_free cts"
  shows "\<not> glob_matches (Star # cts @ rts) s"
proof
  assume "glob_matches (Star # cts @ rts) s"
  then obtain k where "k \<le> length s" "CHR ''/'' \<notin> set (take k s)" "eats cts (drop k s)" "glob_matches rts (drop (k + length cts) s)"
    using assms(2) by (auto simp: glob_matches_Star glob_matches_chunk add.commute)
  then show False using assms(1) [of k] by (auto simp: skips_to_def)
qed

text \<open>One turn of the loop of \<open>Match\<close>, when the turns on the rest of the pattern are right.\<close>

lemma Match_turn:
  assumes "pattern \<noteq> []" and "scanChunk pattern = (star, chunk, rest)" and "\<not> (star \<and> chunk = [])"
    and c: "parse_glob chunk = Some cts" "star_free cts" and "ascii name" and "sep_safe cts name"
    and rts: "rest = [] \<longleftrightarrow> rts = []" "rts = [] \<or> (\<exists>us. rts = Star # us)"
    and IH: "\<And>k. Match rest (drop k name) = Inr (glob_matches rts (drop k name))"
  shows "Match pattern name = Inr (glob_matches ((if star then [Star] else []) @ cts @ rts) name)"
proof -
  note decides = first_skip_decides [OF _ _ c(2) assms(7) rts(2)]
  note M = Match_scan [OF assms(1-3) matchChunk_eats [OF c assms(6)]]
  have here: "eats cts name \<and> (drop (length cts) name = [] \<or> rest \<noteq> []) \<longleftrightarrow> skips_to (rts = []) cts name 0"
    using rts by (auto simp: skips_to_def)
  show ?thesis
  proof (cases "skips_to (rts = []) cts name 0")
    case True
    then have "glob_matches ((if star then [Star] else []) @ cts @ rts) name \<longleftrightarrow> glob_matches rts (drop (length cts) name)"
      using decides [OF True] c(2) by (auto simp: glob_matches_chunk skips_to_def)
    then show ?thesis using M here True IH [of "length cts"] by auto
  next
    case no: False
    show ?thesis
    proof (cases star)
      case False
      then show ?thesis using M here no c(2) rts by (auto simp: glob_matches_chunk)
    next
      case True
      from skip_match_first [OF c assms(6), of "rts = []"] show ?thesis
      proof (elim disjE exE conjE)
        assume n: "skip_match (rts = []) chunk name = Inr None" "\<forall>k>0. \<not> skips_to (rts = []) cts name k"
        then have "\<not> skips_to (rts = []) cts name k" for k using no by (cases k) auto
        from no_skip_no_match [OF this c(2)] show ?thesis using M n(1) here no True rts by auto
      next
        fix k assume k: "0 < k" "skip_match (rts = []) chunk name = Inr (Some (drop (k + length cts) name))"
          "skips_to (rts = []) cts name k" "\<forall>j>0. j < k \<longrightarrow> \<not> skips_to (rts = []) cts name j"
        have "\<not> skips_to (rts = []) cts name j" if "j < k" for j using k(4) no that by (cases j) auto
        then show ?thesis using M k(2) here no True rts IH decides [OF k(3)] by auto
      qed
    qed
  qed
qed

lemma Match_language:
  assumes "parse_glob pattern = Some ts" and "ascii name" and "sep_safe ts name"
  shows "Match pattern name = Inr (glob_matches ts name)"
  using assms
proof (induction pattern arbitrary: ts name rule: length_induct)
  case (1 pattern)
  show ?case
  proof (cases "pattern = []")
    case True
    then show ?thesis using "1.prems" by (simp add: Match.simps)
  next
    case False
    obtain star chunk rest where sc: "scanChunk pattern = (star, chunk, rest)" by (rule prod_cases3)
    from scanChunk_parse [OF "1.prems"(1) sc] obtain cts rts where c: "parse_glob chunk = Some cts" "star_free cts" "parse_glob rest = Some rts"
      "set (cts @ rts) \<subseteq> set ts" "\<And>s. glob_matches ts s \<longleftrightarrow> glob_matches ((if star then [Star] else []) @ cts @ rts) s"
      "rest = [] \<or> hd rest = CHR ''*''" "chunk = [] \<longrightarrow> rest = []" by blast
    have rts: "rest = [] \<longleftrightarrow> rts = []" "rts = [] \<or> (\<exists>us. rts = Star # us)"
      using c(3,6) by (cases rest; auto)+
    show ?thesis
    proof (cases "star \<and> chunk = []")
      case True
      then have "cts = []" "rts = []" using c(1,3,7) by auto
      then show ?thesis using True sc False c(5) by (subst Match.simps) (auto simp: glob_matches_Cons)
    next
      case chunk: False
      have "Match rest (drop k name) = Inr (glob_matches rts (drop k name))" for k
        using "1.IH" scanChunk_shorter [OF sc False] c(3,4) "1.prems"(2,3) sep_safe_part [of ts name rts k] by simp
      moreover have "sep_safe cts name" using sep_safe_part [OF "1.prems"(3), of cts 0] c(4) by simp
      ultimately show ?thesis using Match_turn [OF False sc chunk c(1,2) "1.prems"(2) _ rts] c(5) by simp
    qed
  qed
qed

section \<open>Globbing\<close>

text \<open>
  \<open>Split\<close> cuts after the last separator. \<open>glob\<close> lists a directory and keeps the names that
  match; the three calls of the client on the remote file system are a parameter, its
  answers the names of the entries.
\<close>

definition Split :: "string \<Rightarrow> string \<times> string" where
  "Split path = (let base = rev (takeWhile (\<lambda>c. \<not> isPathSeparator c) (rev path))
     in (take (length path - length base) path, base))"

definition cleanGlobPath :: "string \<Rightarrow> string" where
  "cleanGlobPath path = (if path = [] then ''.'' else if path = ''/'' then path else butlast path)"

definition hasMeta :: "string \<Rightarrow> bool" where
  "hasMeta path \<longleftrightarrow> list_ex (\<lambda>c. c \<in> set ''*?['') path"

record remote =
  cl_Lstat :: "string \<Rightarrow> goerr + string"
  cl_Stat :: "string \<Rightarrow> goerr + bool"
  cl_ReadDir :: "string \<Rightarrow> goerr + string list"

fun glob_names :: "string \<Rightarrow> string \<Rightarrow> string list \<Rightarrow> string list \<Rightarrow> string list \<times> goerr option" where
  "glob_names dir pattern [] m = (m, None)"
| "glob_names dir pattern (n # names) m =
     (case Match pattern n of Inl e \<Rightarrow> (m, Some e)
      | Inr matched \<Rightarrow> glob_names dir pattern names (if matched then m @ [path_Join [dir, n]] else m))"

definition glob :: "remote \<Rightarrow> string \<Rightarrow> string \<Rightarrow> string list \<Rightarrow> string list \<times> goerr option" where
  "glob c dir pattern matches =
     (case cl_Stat c dir of Inl _ \<Rightarrow> (matches, None)
      | Inr isDir \<Rightarrow> if \<not> isDir then (matches, None)
        else (case cl_ReadDir c dir of Inl _ \<Rightarrow> (matches, None) | Inr names \<Rightarrow> glob_names dir pattern names matches))"

fun glob_dirs :: "remote \<Rightarrow> string list \<Rightarrow> string \<Rightarrow> string list \<Rightarrow> string list \<times> goerr option" where
  "glob_dirs c [] file matches = (matches, None)"
| "glob_dirs c (d # m) file matches =
     (case glob c d file matches of (matches, Some e) \<Rightarrow> (matches, Some e) | (matches, None) \<Rightarrow> glob_dirs c m file matches)"

lemma Split_append: "Split path = (dir, base) \<Longrightarrow> path = dir @ base"
proof -
  have "rev path = takeWhile P (rev path) @ dropWhile P (rev path)" for P by simp
  then have "path = rev (dropWhile P (rev path)) @ rev (takeWhile P (rev path))" for P by (metis rev_append rev_rev_ident)
  then show "Split path = (dir, base) \<Longrightarrow> path = dir @ base"
    unfolding Split_def Let_def by (metis append_eq_conv_conj diff_add_inverse2 length_append old.prod.inject)
qed

lemma cleaned_shorter: "Split path = (dir, base) \<Longrightarrow> hasMeta path \<Longrightarrow> cleanGlobPath dir \<noteq> path \<Longrightarrow> hasMeta (cleanGlobPath dir) \<Longrightarrow>
    length (cleanGlobPath dir) < length path"
  by (cases dir rule: rev_cases) (auto simp: cleanGlobPath_def hasMeta_def dest!: Split_append split: if_splits)

function Glob :: "remote \<Rightarrow> string \<Rightarrow> string list \<times> goerr option" where
  "Glob c pattern =
     (if \<not> hasMeta pattern then
        (case cl_Lstat c pattern of Inl _ \<Rightarrow> ([], None)
         | Inr name \<Rightarrow> ([path_Join [cleanGlobPath (fst (Split pattern)), name]], None))
      else let dir = cleanGlobPath (fst (Split pattern)); file = snd (Split pattern)
        in if \<not> hasMeta dir then glob c dir file []
           else if dir = pattern then ([], Some ErrBadPattern)
           else (case Glob c dir of (m, Some e) \<Rightarrow> ([], Some e) | (m, None) \<Rightarrow> glob_dirs c m file []))"
  by pat_completeness auto
termination
  by (relation "measure (\<lambda>(c, pattern). length pattern)") (auto intro: cleaned_shorter [OF surjective_pairing])

declare Glob.simps [simp del]

lemma glob_names_filter:
  assumes "\<And>n. n \<in> set names \<Longrightarrow> Match pattern n = Inr (P n)"
  shows "glob_names dir pattern names m = (m @ map (\<lambda>n. path_Join [dir, n]) (filter P names), None)"
  using assms by (induction names arbitrary: m) auto

section \<open>Claims\<close>



text \<open>
  The comment on \<open>Match\<close> promises more than the loop gives: with a class that accepts the
  separator, the first place found for a chunk may be the wrong one.
\<close>

lemma class_over_separator:
  "Match ''*[^a][^a]*'' ''xyz/w'' = Inr False
   \<and> (\<exists>pieces. ''xyz/w'' = concat pieces \<and> list_all2 takes (the (parse_glob ''*[^a][^a]*'')) pieces)"
proof -
  have m: "Match ''*[^a][^a]*'' ''xyz/w'' = Inr False" by code_simp
  have p: "parse_glob ''*[^a][^a]*'' = Some [Star, CharClass True [(97, 97)], CharClass True [(97, 97)], Star]" by code_simp
  have "''xyz/w'' = concat [''xy'', ''z'', ''/'', ''w'']" by simp
  moreover have "list_all2 takes [Star, CharClass True [(97, 97)], CharClass True [(97, 97)], Star] [''xy'', ''z'', ''/'', ''w'']" by simp
  ultimately show ?thesis unfolding p option.sel using m by blast
qed

text \<open>
  Globbing in one directory. When only the last element of the pattern has wildcards and the
  directory can be read, \<open>Glob\<close> returns, in the order of the listing, exactly the entries
  whose names match that element, each joined to the directory.
\<close>

theorem Glob_lists:
  assumes "Split pattern = (dir, file)" and "hasMeta pattern" and "\<not> hasMeta (cleanGlobPath dir)"
    and "cl_Stat c (cleanGlobPath dir) = Inr True" and "cl_ReadDir c (cleanGlobPath dir) = Inr names"
    and "parse_glob file = Some ts" and "\<forall>n \<in> set names. CHR ''/'' \<notin> set n \<and> list_all (\<lambda>c. (of_char c :: nat) < 128) n"
  shows "Glob c pattern = (map (\<lambda>n. path_Join [cleanGlobPath dir, n]) (filter (glob_matches ts) names), None)"
proof -
  have "Match file n = Inr (glob_matches ts n)" if "n \<in> set names" for n
    using Match_language [OF assms(6), of n] assms(7) that by (simp add: sep_safe_def)
  from glob_names_filter [OF this] show ?thesis using assms(1-5) by (subst Glob.simps) (simp add: glob_def)
qed

theorem Glob_lists_witness:
  "Glob \<lparr>cl_Lstat = (\<lambda>p. Inl IoEOF), cl_Stat = (\<lambda>p. Inr True), cl_ReadDir = (\<lambda>p. Inr [''a.go'', ''b.txt'', ''c.go''])\<rparr> ''/src/*.go''
     = (map (\<lambda>n. path_Join [''/src'', n]) (filter (glob_matches [Star, Lit CHR ''.'', Lit CHR ''g'', Lit CHR ''o'']) [''a.go'', ''b.txt'', ''c.go'']), None)
   \<and> Glob \<lparr>cl_Lstat = (\<lambda>p. Inl IoEOF), cl_Stat = (\<lambda>p. Inr True), cl_ReadDir = (\<lambda>p. Inr [''a.go'', ''b.txt'', ''c.go''])\<rparr> ''/src/*.go''
     = ([''/src/a.go'', ''/src/c.go''], None)"
proof -
  let ?c = "\<lparr>cl_Lstat = (\<lambda>p. Inl IoEOF), cl_Stat = (\<lambda>p. Inr True), cl_ReadDir = (\<lambda>p. Inr [''a.go'', ''b.txt'', ''c.go''])\<rparr>"
  have s: "Split ''/src/*.go'' = (''/src/'', ''*.go'')" by code_simp
  have h: "hasMeta ''/src/*.go''" "\<not> hasMeta (cleanGlobPath ''/src/'')" "cleanGlobPath ''/src/'' = ''/src''" by code_simp+
  have p: "parse_glob ''*.go'' = Some [Star, Lit CHR ''.'', Lit CHR ''g'', Lit CHR ''o'']" by code_simp
  have "Glob ?c ''/src/*.go'' = ([''/src/a.go'', ''/src/c.go''], None)" by code_simp
  then show ?thesis using Glob_lists [OF s h(1,2) _ _ p, of ?c "[''a.go'', ''b.txt'', ''c.go'']"] h(3) by simp
qed

end
