(* ===== verification/Go_OS.thy ===== *)
theory Go_OS
  imports Go_Path Sftp_Attrs "HOL-Library.AList" "HOL-Library.Sublist" "HOL-Library.List_Lexorder"
    "HOL-Library.Char_ord"
begin

text \<open>
  The part of Go's packages \<open>os\<close>, \<open>path/filepath\<close> and \<open>io/ioutil\<close> that the server uses, over a
  POSIX file tree. A location is the list of names from the root to an entry; it contains no
  symbolic link in a proper prefix. The tree maps locations to directories, files and links;
  the contents of files are kept by inode, so that an open file survives a rename or a
  removal. What the kernel decides for reasons outside the tree (permissions, quotas, a full
  or failing disk) is the argument \<open>os_env\<close>: it may fail any call. Hard links, devices and
  concurrent changes of the tree by other processes are not modelled.
\<close>

section \<open>The file tree\<close>

type_synonym loc = "string list"

record meta =
  m_perm :: u32
  m_uid :: int
  m_gid :: int
  m_atime :: int
  m_mtime :: int

datatype node = Dir meta | File nat | Link string

record fs =
  fs_root :: meta
  fs_tree :: "(loc \<times> node) list"
  fs_data :: "nat \<Rightarrow> bytes"
  fs_meta :: "nat \<Rightarrow> meta"
  fs_next :: nat

record os_env =
  env_cwd :: loc
  env_umask :: u32
  env_uid :: int
  env_gid :: int
  env_lookup_fault :: "string \<Rightarrow> errno option"
  env_op_fault :: "string \<Rightarrow> string \<Rightarrow> errno option"

text \<open>The root always exists and is a directory.\<close>

definition at :: "fs \<Rightarrow> loc \<Rightarrow> node option" where
  "at f l = (if l = [] then Some (Dir (fs_root f)) else map_of (fs_tree f) l)"

definition put :: "loc \<Rightarrow> node \<Rightarrow> fs \<Rightarrow> fs" where
  "put l nd f =
     (if l = [] then (case nd of Dir m \<Rightarrow> f\<lparr>fs_root := m\<rparr> | _ \<Rightarrow> f)
      else f\<lparr>fs_tree := AList.update l nd (fs_tree f)\<rparr>)"

definition drop_under :: "loc \<Rightarrow> fs \<Rightarrow> fs" where
  "drop_under l f = f\<lparr>fs_tree := filter (\<lambda>(k, _). \<not> prefix l k) (fs_tree f)\<rparr>"

definition is_dir :: "node option \<Rightarrow> bool" where
  "is_dir nd = (case nd of Some (Dir _) \<Rightarrow> True | _ \<Rightarrow> False)"

definition is_link :: "node option \<Rightarrow> bool" where
  "is_link nd = (case nd of Some (Link _) \<Rightarrow> True | _ \<Rightarrow> False)"

lemma is_dir_iff: "is_dir nd \<longleftrightarrow> (\<exists>m. nd = Some (Dir m))"
  by (auto simp: is_dir_def split: option.splits node.splits)

lemma is_link_iff: "is_link nd \<longleftrightarrow> (\<exists>t. nd = Some (Link t))"
  by (auto simp: is_link_def split: option.splits node.splits)

text \<open>The entries of a directory, in the order of their names.\<close>

definition children :: "fs \<Rightarrow> loc \<Rightarrow> loc list" where
  "children f l = sort (remdups (filter (\<lambda>k. k \<noteq> [] \<and> butlast k = l) (map fst (fs_tree f))))"

lemma at_root [simp]: "at f [] = Some (Dir (fs_root f))"
  by (simp add: at_def)

lemma at_put: "l \<noteq> [] \<or> is_dir (Some nd) \<Longrightarrow> at (put l nd f) k = (if k = l then Some nd else at f k)"
  by (auto simp: at_def put_def update_conv is_dir_def split: node.splits)

lemma at_drop_under: "l \<noteq> [] \<Longrightarrow> at (drop_under l f) k = (if prefix l k then None else at f k)"
proof -
  assume "l \<noteq> []"
  moreover
  have "map_of (filter (\<lambda>(k, _). \<not> prefix l k) t) k = (if prefix l k then None else map_of t k)" for t :: "(loc \<times> node) list"
    by (induction t) auto
  ultimately show ?thesis by (auto simp: at_def drop_under_def)
qed

lemma put_data [simp]: "fs_data (put l nd f) = fs_data f" "fs_meta (put l nd f) = fs_meta f"
  "fs_next (put l nd f) = fs_next f"
  by (simp_all add: put_def split: node.splits)

lemma drop_under_data [simp]: "fs_data (drop_under l f) = fs_data f" "fs_meta (drop_under l f) = fs_meta f"
  "fs_next (drop_under l f) = fs_next f"
  by (simp_all add: drop_under_def)

lemma at_fields [simp]: "at (f\<lparr>fs_data := d\<rparr>) = at f" "at (f\<lparr>fs_meta := m\<rparr>) = at f" "at (f\<lparr>fs_next := n\<rparr>) = at f"
  by (simp_all add: at_def fun_eq_iff)

section \<open>Path lookup\<close>

text \<open>
  The lookup of the kernel: it goes through the components of a path from a directory it has
  reached, replaces a symbolic link by its target and gives up after a number of links. The
  last component may be missing; a link there is followed when the call asks for it.
\<close>

fun walk :: "fs \<Rightarrow> nat \<Rightarrow> bool \<Rightarrow> loc \<Rightarrow> string list \<Rightarrow> errno + loc" where
  "walk f n fol cur [] = Inr cur"
| "walk f n fol cur (c # cs) =
     (case at f cur of
        None \<Rightarrow> Inl ENOENT
      | Some (File _) \<Rightarrow> Inl ENOTDIR
      | Some (Link _) \<Rightarrow> Inl ENOTDIR
      | Some (Dir _) \<Rightarrow>
          (if c = [] \<or> c = dot then walk f n fol cur cs
           else if c = dotdot then walk f n fol (butlast cur) cs
           else (case at f (cur @ [c]) of
                   None \<Rightarrow> (if cs = [] then Inr (cur @ [c]) else Inl ENOENT)
                 | Some (Link t) \<Rightarrow>
                     (if cs = [] \<and> \<not> fol then Inr (cur @ [c])
                      else (case n of
                              0 \<Rightarrow> Inl ELOOP
                            | Suc n \<Rightarrow> walk f n fol (if path_IsAbs t then [] else cur) (split_on slash t @ cs)))
                 | Some _ \<Rightarrow> walk f n fol (cur @ [c]) cs)))"

text \<open>The limits are those of Linux and of \<open>filepath.EvalSymlinks\<close>.\<close>

definition kernel_links :: nat where "kernel_links = 40"
definition eval_links :: nat where "eval_links = 255"

definition start_of :: "os_env \<Rightarrow> string \<Rightarrow> loc" where
  "start_of env p = (if path_IsAbs p then [] else env_cwd env)"

text \<open>Whether an entry exists is decided by the tree alone.\<close>

definition lookup_fault :: "os_env \<Rightarrow> string \<Rightarrow> errno option" where
  "lookup_fault env p =
     (case env_lookup_fault env p of
        None \<Rightarrow> None
      | Some e \<Rightarrow> (if errno_num e = errno_num ENOENT then None else Some e))"

definition resolve :: "os_env \<Rightarrow> fs \<Rightarrow> bool \<Rightarrow> string \<Rightarrow> errno + loc" where
  "resolve env f fol p =
     (case lookup_fault env p of
        Some e \<Rightarrow> Inl e
      | None \<Rightarrow> if p = [] then Inl ENOENT else walk f kernel_links fol (start_of env p) (split_on slash p))"

text \<open>A lookup for a call that changes the tree; the kernel may refuse that call as such.\<close>

definition resolve_op :: "os_env \<Rightarrow> fs \<Rightarrow> bool \<Rightarrow> string \<Rightarrow> string \<Rightarrow> errno + loc" where
  "resolve_op env f fol opn p =
     (case resolve env f fol p of
        Inl e \<Rightarrow> Inl e
      | Inr l \<Rightarrow> (case env_op_fault env opn p of Some e \<Rightarrow> Inl e | None \<Rightarrow> Inr l))"

section \<open>Reading the tree\<close>

definition dir_size :: u64 where "dir_size = 4096"

definition node_info :: "fs \<Rightarrow> string \<Rightarrow> node \<Rightarrow> fileInfo" where
  "node_info f name nd =
     (case nd of
        Dir m \<Rightarrow> \<lparr>fi_name = name, fi_size = dir_size, fi_mode = ModeDir OR m_perm m,
                  fi_mtime = word_of_int (m_mtime m),
                  fi_sys = SysStat_t 2 (word_of_int (m_uid m)) (word_of_int (m_gid m))\<rparr>
      | File i \<Rightarrow> \<lparr>fi_name = name, fi_size = word_of_nat (length (fs_data f i)), fi_mode = m_perm (fs_meta f i),
                  fi_mtime = word_of_int (m_mtime (fs_meta f i)),
                  fi_sys = SysStat_t 1 (word_of_int (m_uid (fs_meta f i))) (word_of_int (m_gid (fs_meta f i)))\<rparr>
      | Link t \<Rightarrow> \<lparr>fi_name = name, fi_size = word_of_nat (length t), fi_mode = ModeSymlink OR 0x1FF,
                  fi_mtime = 0, fi_sys = SysStat_t 1 0 0\<rparr>)"

definition stat_with :: "bool \<Rightarrow> string \<Rightarrow> os_env \<Rightarrow> fs \<Rightarrow> string \<Rightarrow> goerr + fileInfo" where
  "stat_with fol opn env f p =
     (case resolve env f fol p of
        Inl e \<Rightarrow> Inl (PathError opn p (SysErrno e))
      | Inr l \<Rightarrow> (case at f l of
                   None \<Rightarrow> Inl (PathError opn p (SysErrno ENOENT))
                 | Some nd \<Rightarrow> Inr (node_info f (path_Base p) nd)))"

definition os_Stat :: "os_env \<Rightarrow> fs \<Rightarrow> string \<Rightarrow> goerr + fileInfo" where
  "os_Stat = stat_with True ''stat''"

definition os_Lstat :: "os_env \<Rightarrow> fs \<Rightarrow> string \<Rightarrow> goerr + fileInfo" where
  "os_Lstat = stat_with False ''lstat''"

definition fi_IsDir :: "fileInfo \<Rightarrow> bool" where
  "fi_IsDir fi = (fi_mode fi AND ModeDir \<noteq> 0)"

definition fi_IsRegular :: "fileInfo \<Rightarrow> bool" where
  "fi_IsRegular fi = (fi_mode fi AND ModeType = 0)"

definition EvalSymlinks :: "os_env \<Rightarrow> fs \<Rightarrow> string \<Rightarrow> goerr + string" where
  "EvalSymlinks env f p =
     (case lookup_fault env p of
        Some e \<Rightarrow> Inl (PathError ''lstat'' p (SysErrno e))
      | None \<Rightarrow>
          (case walk f eval_links True (start_of env p) (split_on slash p) of
             Inl e \<Rightarrow> Inl (if e = ELOOP then ErrorString ''EvalSymlinks: too many links''
                         else PathError ''lstat'' p (SysErrno e))
           | Inr l \<Rightarrow> (if at f l = None then Inl (PathError ''lstat'' p (SysErrno ENOENT))
                      else Inr (make_path True l))))"

definition ReadDir :: "os_env \<Rightarrow> fs \<Rightarrow> string \<Rightarrow> goerr + fileInfo list" where
  "ReadDir env f p =
     (case resolve env f True p of
        Inl e \<Rightarrow> Inl (PathError ''open'' p (SysErrno e))
      | Inr l \<Rightarrow> (case at f l of
                   None \<Rightarrow> Inl (PathError ''open'' p (SysErrno ENOENT))
                 | Some (Dir _) \<Rightarrow>
                     Inr (map (\<lambda>k. node_info f (last k) (the (at f k))) (children f l))
                 | Some _ \<Rightarrow> Inl (PathError ''readdirent'' p (SysErrno ENOTDIR))))"

text \<open>
  \<open>filepath.Walk\<close> visits a tree without following links, each directory before its entries and
  these in the order of their names: the order of the locations as lists.
\<close>

definition Walk_visits :: "fs \<Rightarrow> string \<Rightarrow> loc \<Rightarrow> (string \<times> fileInfo) list" where
  "Walk_visits f p l =
     map (\<lambda>k. (path_Join (p # drop (length l) k),
               node_info f (if k = l then path_Base p else last k) (the (at f k))))
       (if is_dir (at f l) then sort (remdups (filter (prefix l) (map fst (fs_tree f)))) else [l])"

section \<open>Changing the tree\<close>

definition new_meta :: "os_env \<Rightarrow> u32 \<Rightarrow> meta" where
  "new_meta env perm = \<lparr>m_perm = perm AND NOT (env_umask env), m_uid = env_uid env, m_gid = env_gid env,
     m_atime = 0, m_mtime = 0\<rparr>"

definition os_Mkdir :: "os_env \<Rightarrow> fs \<Rightarrow> string \<Rightarrow> u32 \<Rightarrow> goerr option \<times> fs" where
  "os_Mkdir env f p perm =
     (case resolve_op env f False ''mkdir'' p of
        Inl e \<Rightarrow> (Some (PathError ''mkdir'' p (SysErrno e)), f)
      | Inr l \<Rightarrow> (if at f l \<noteq> None then (Some (PathError ''mkdir'' p (SysErrno EEXIST)), f)
                 else (None, put l (Dir (new_meta env perm)) f)))"

definition os_Symlink :: "os_env \<Rightarrow> fs \<Rightarrow> string \<Rightarrow> string \<Rightarrow> goerr option \<times> fs" where
  "os_Symlink env f oldname newname =
     (case resolve_op env f False ''symlink'' newname of
        Inl e \<Rightarrow> (Some (LinkError ''symlink'' oldname newname (SysErrno e)), f)
      | Inr l \<Rightarrow> (if at f l \<noteq> None then (Some (LinkError ''symlink'' oldname newname (SysErrno EEXIST)), f)
                 else (None, put l (Link oldname) f)))"

definition os_Remove :: "os_env \<Rightarrow> fs \<Rightarrow> string \<Rightarrow> goerr option \<times> fs" where
  "os_Remove env f p =
     (case resolve_op env f False ''remove'' p of
        Inl e \<Rightarrow> (Some (PathError ''remove'' p (SysErrno e)), f)
      | Inr l \<Rightarrow> (if at f l = None then (Some (PathError ''remove'' p (SysErrno ENOENT)), f)
                 else if l = [] then (Some (PathError ''remove'' p (SysErrno EBUSY)), f)
                 else if is_dir (at f l) \<and> children f l \<noteq> []
                 then (Some (PathError ''remove'' p (SysErrno ENOTEMPTY)), f)
                 else (None, drop_under l f)))"

text \<open>\<open>RemoveAll\<close> of a missing path is not an error. The root itself cannot be removed.\<close>

definition os_RemoveAll :: "os_env \<Rightarrow> fs \<Rightarrow> string \<Rightarrow> goerr option \<times> fs" where
  "os_RemoveAll env f p =
     (case resolve_op env f False ''unlinkat'' p of
        Inl e \<Rightarrow> (if e = ENOENT then (None, f) else (Some (PathError ''unlinkat'' p (SysErrno e)), f))
      | Inr l \<Rightarrow> (if l = [] then (Some (PathError ''unlinkat'' p (SysErrno EBUSY)),
                                f\<lparr>fs_tree := []\<rparr>)
                 else (None, drop_under l f)))"

definition move :: "loc \<Rightarrow> loc \<Rightarrow> fs \<Rightarrow> fs" where
  "move l k f =
     f\<lparr>fs_tree := map (\<lambda>(x, nd). (if prefix l x then k @ drop (length l) x else x, nd))
        (filter (\<lambda>(x, _). \<not> prefix k x) (fs_tree f))\<rparr>"

text \<open>
  \<open>os.Rename\<close> refuses a directory as target before it asks the kernel. A file replaces a file
  or a link; a directory replaces nothing, and does not move below itself.
\<close>

definition os_Rename :: "os_env \<Rightarrow> fs \<Rightarrow> string \<Rightarrow> string \<Rightarrow> goerr option \<times> fs" where
  "os_Rename env f oldname newname =
     (let err = (\<lambda>e. (Some (LinkError ''rename'' oldname newname (SysErrno e)), f))
      in case resolve_op env f False ''rename'' oldname of
           Inl e \<Rightarrow> err e
         | Inr l \<Rightarrow>
             (if at f l = None then err ENOENT
              else case resolve_op env f False ''rename'' newname of
                     Inl e \<Rightarrow> err e
                   | Inr k \<Rightarrow>
                       (if is_dir (at f k) then err EEXIST
                        else if k = l then (None, f)
                        else if prefix l k then err (if is_dir (at f l) then EINVAL else ENOTDIR)
                        else if is_dir (at f l) \<and> at f k \<noteq> None then err ENOTDIR
                        else (None, move l k f))))"

definition update_meta :: "(meta \<Rightarrow> meta) \<Rightarrow> loc \<Rightarrow> fs \<Rightarrow> fs" where
  "update_meta g l f =
     (case at f l of
        Some (Dir m) \<Rightarrow> put l (Dir (g m)) f
      | Some (File i) \<Rightarrow> f\<lparr>fs_meta := (fs_meta f)(i := g (fs_meta f i))\<rparr>
      | _ \<Rightarrow> f)"

definition change_meta :: "string \<Rightarrow> (meta \<Rightarrow> meta) \<Rightarrow> os_env \<Rightarrow> fs \<Rightarrow> string \<Rightarrow> goerr option \<times> fs" where
  "change_meta opn g env f p =
     (case resolve_op env f True opn p of
        Inl e \<Rightarrow> (Some (PathError opn p (SysErrno e)), f)
      | Inr l \<Rightarrow> (if at f l = None then (Some (PathError opn p (SysErrno ENOENT)), f)
                 else (None, update_meta g l f)))"

text \<open>
  \<open>os.Chmod\<close> sets the permission, setuid, setgid and sticky bits; \<open>os.Chown\<close> leaves an owner that
  is -1 as it is.
\<close>

definition chmod_bits :: u32 where
  "chmod_bits = 0x1FF OR ModeSetuid OR ModeSetgid OR ModeSticky"

definition os_Chmod :: "os_env \<Rightarrow> fs \<Rightarrow> string \<Rightarrow> u32 \<Rightarrow> goerr option \<times> fs" where
  "os_Chmod env f p mode = change_meta ''chmod'' (\<lambda>m. m\<lparr>m_perm := mode AND chmod_bits\<rparr>) env f p"

definition os_Chown :: "os_env \<Rightarrow> fs \<Rightarrow> string \<Rightarrow> int \<Rightarrow> int \<Rightarrow> goerr option \<times> fs" where
  "os_Chown env f p uid gid =
     change_meta ''chown'' (\<lambda>m. m\<lparr>m_uid := if uid = -1 then m_uid m else uid,
                                m_gid := if gid = -1 then m_gid m else gid\<rparr>) env f p"

definition os_Chtimes :: "os_env \<Rightarrow> fs \<Rightarrow> string \<Rightarrow> int \<Rightarrow> int \<Rightarrow> goerr option \<times> fs" where
  "os_Chtimes env f p atime mtime =
     change_meta ''chtimes'' (\<lambda>m. m\<lparr>m_atime := atime, m_mtime := mtime\<rparr>) env f p"

section \<open>Open files\<close>

text \<open>The flags of \<open>os.OpenFile\<close> with the values of Linux.\<close>

definition O_RDONLY :: u32 where "O_RDONLY = 0"
definition O_WRONLY :: u32 where "O_WRONLY = 1"
definition O_RDWR :: u32 where "O_RDWR = 2"
definition O_CREATE :: u32 where "O_CREATE = 0x40"
definition O_EXCL :: u32 where "O_EXCL = 0x80"
definition O_TRUNC :: u32 where "O_TRUNC = 0x200"
definition O_APPEND :: u32 where "O_APPEND = 0x400"

lemmas open_flag_defs = O_RDONLY_def O_WRONLY_def O_RDWR_def O_CREATE_def O_EXCL_def O_TRUNC_def O_APPEND_def

record os_file =
  fl_Name :: string
  fl_inode :: "nat option"
  fl_flags :: u32
  fl_closed :: bool

definition writable :: "u32 \<Rightarrow> bool" where
  "writable flags = (flags AND 3 \<noteq> O_RDONLY)"

definition os_OpenFile :: "os_env \<Rightarrow> fs \<Rightarrow> string \<Rightarrow> u32 \<Rightarrow> u32 \<Rightarrow> (goerr + os_file) \<times> fs" where
  "os_OpenFile env f p flags perm =
     (let err = (\<lambda>e. (Inl (PathError ''open'' p (SysErrno e)), f));
          create = flags AND O_CREATE \<noteq> 0; excl = create \<and> flags AND O_EXCL \<noteq> 0;
          opened = (\<lambda>i. \<lparr>fl_Name = p, fl_inode = i, fl_flags = flags, fl_closed = False\<rparr>)
      in case resolve_op env f (\<not> excl) ''open'' p of
           Inl e \<Rightarrow> err e
         | Inr l \<Rightarrow>
             (case at f l of
                None \<Rightarrow>
                  (if create
                   then (Inr (opened (Some (fs_next f))),
                         (put l (File (fs_next f)) f)\<lparr>fs_data := (fs_data f)(fs_next f := []),
                            fs_meta := (fs_meta f)(fs_next f := new_meta env perm), fs_next := Suc (fs_next f)\<rparr>)
                   else err ENOENT)
              | Some (Link _) \<Rightarrow> err EEXIST
              | Some (Dir _) \<Rightarrow>
                  (if excl then err EEXIST else if create \<or> writable flags \<or> flags AND O_TRUNC \<noteq> 0 then err EISDIR
                   else (Inr (opened None), f))
              | Some (File i) \<Rightarrow>
                  (if excl then err EEXIST
                   else (Inr (opened (Some i)),
                         if flags AND O_TRUNC \<noteq> 0 then f\<lparr>fs_data := (fs_data f)(i := [])\<rparr> else f))))"

definition os_Open :: "os_env \<Rightarrow> fs \<Rightarrow> string \<Rightarrow> (goerr + os_file) \<times> fs" where
  "os_Open env f p = os_OpenFile env f p O_RDONLY 0"

definition os_Create :: "os_env \<Rightarrow> fs \<Rightarrow> string \<Rightarrow> (goerr + os_file) \<times> fs" where
  "os_Create env f p = os_OpenFile env f p (O_RDWR OR O_CREATE OR O_TRUNC) 0x1B6"

definition ErrClosed :: goerr where
  "ErrClosed = ErrorString ''file already closed''"

definition file_Close :: "os_env \<Rightarrow> os_file \<Rightarrow> goerr option \<times> os_file" where
  "file_Close env h =
     (if fl_closed h then (Some (PathError ''close'' (fl_Name h) ErrClosed), h)
      else (map_option (\<lambda>e. PathError ''close'' (fl_Name h) (SysErrno e)) (env_op_fault env ''close'' (fl_Name h)),
            h\<lparr>fl_closed := True\<rparr>))"

definition write_bytes :: "bytes \<Rightarrow> nat \<Rightarrow> bytes \<Rightarrow> bytes" where
  "write_bytes old off b = take off (old @ replicate (off - length old) 0) @ b @ drop (off + length b) old"

text \<open>
  \<open>File.ReadAt\<close> reads what is there and returns \<open>io.EOF\<close> when that is less than asked for;
  \<open>File.WriteAt\<close> refuses a file opened for appending and extends the file with zeros.
\<close>

definition file_ReadAt :: "os_env \<Rightarrow> fs \<Rightarrow> os_file \<Rightarrow> nat \<Rightarrow> int \<Rightarrow> bytes \<times> goerr option" where
  "file_ReadAt env f h n off =
     (if off < 0 then ([], Some (PathError ''readat'' (fl_Name h) (ErrorString ''negative offset'')))
      else if n = 0 then ([], None)
      else if fl_closed h then ([], Some (PathError ''read'' (fl_Name h) ErrClosed))
      else case env_op_fault env ''read'' (fl_Name h) of
             Some e \<Rightarrow> ([], Some (PathError ''read'' (fl_Name h) (SysErrno e)))
           | None \<Rightarrow>
               (case fl_inode h of
                  None \<Rightarrow> ([], Some (PathError ''read'' (fl_Name h) (SysErrno EISDIR)))
                | Some i \<Rightarrow>
                    (if fl_flags h AND 3 = O_WRONLY then ([], Some (PathError ''read'' (fl_Name h) (SysErrno EBADF)))
                     else (let b = take n (drop (nat off) (fs_data f i))
                           in (b, if length b < n then Some IoEOF else None)))))"

definition file_WriteAt :: "os_env \<Rightarrow> fs \<Rightarrow> os_file \<Rightarrow> bytes \<Rightarrow> int \<Rightarrow> (nat \<times> goerr option) \<times> fs" where
  "file_WriteAt env f h b off =
     (if fl_flags h AND O_APPEND \<noteq> 0
      then ((0, Some (ErrorString ''os: invalid use of WriteAt on file opened with O_APPEND'')), f)
      else if off < 0 then ((0, Some (PathError ''writeat'' (fl_Name h) (ErrorString ''negative offset''))), f)
      else if b = [] then ((0, None), f)
      else if fl_closed h then ((0, Some (PathError ''write'' (fl_Name h) ErrClosed)), f)
      else case env_op_fault env ''write'' (fl_Name h) of
             Some e \<Rightarrow> ((0, Some (PathError ''write'' (fl_Name h) (SysErrno e))), f)
           | None \<Rightarrow>
               (if \<not> writable (fl_flags h)
                then ((0, Some (PathError ''write'' (fl_Name h) (SysErrno EBADF))), f)
                else case fl_inode h of
                       None \<Rightarrow> ((0, Some (PathError ''write'' (fl_Name h) (SysErrno EBADF))), f)
                     | Some i \<Rightarrow> ((length b, None),
                         f\<lparr>fs_data := (fs_data f)(i := write_bytes (fs_data f i) (nat off) b)\<rparr>)))"

section \<open>Facts about path lookup\<close>

text \<open>The lookups that succeed, as a relation to reason on by rule induction.\<close>

definition plain :: "string \<Rightarrow> bool" where
  "plain c \<longleftrightarrow> c \<noteq> [] \<and> c \<noteq> dot \<and> c \<noteq> dotdot"

inductive reaches :: "fs \<Rightarrow> nat \<Rightarrow> bool \<Rightarrow> loc \<Rightarrow> string list \<Rightarrow> loc \<Rightarrow> bool" for f where
  stop: "reaches f n fol cur [] cur"
| skip: "at f cur = Some (Dir m) \<Longrightarrow> c = [] \<or> c = dot \<Longrightarrow> reaches f n fol cur cs l \<Longrightarrow> reaches f n fol cur (c # cs) l"
| up: "at f cur = Some (Dir m) \<Longrightarrow> reaches f n fol (butlast cur) cs l \<Longrightarrow> reaches f n fol cur (dotdot # cs) l"
| missing: "at f cur = Some (Dir m) \<Longrightarrow> plain c \<Longrightarrow> at f (cur @ [c]) = None \<Longrightarrow> reaches f n fol cur [c] (cur @ [c])"
| unfollowed: "at f cur = Some (Dir m) \<Longrightarrow> plain c \<Longrightarrow> at f (cur @ [c]) = Some (Link t)
    \<Longrightarrow> reaches f n False cur [c] (cur @ [c])"
| link: "at f cur = Some (Dir m) \<Longrightarrow> plain c \<Longrightarrow> at f (cur @ [c]) = Some (Link t) \<Longrightarrow> cs \<noteq> [] \<or> fol
    \<Longrightarrow> reaches f n fol (if path_IsAbs t then [] else cur) (split_on slash t @ cs) l \<Longrightarrow> reaches f (Suc n) fol cur (c # cs) l"
| enter: "at f cur = Some (Dir m) \<Longrightarrow> plain c \<Longrightarrow> at f (cur @ [c]) = Some nd \<Longrightarrow> \<not> is_link (Some nd)
    \<Longrightarrow> reaches f n fol (cur @ [c]) cs l \<Longrightarrow> reaches f n fol cur (c # cs) l"

lemma reaches_walk: "reaches f n fol cur cs l \<Longrightarrow> walk f n fol cur cs = Inr l"
  by (induction rule: reaches.induct) (auto simp: plain_def is_link_def split: node.splits)

lemma walk_reaches: "walk f n fol cur cs = Inr l \<Longrightarrow> reaches f n fol cur cs l"
proof (induction f n fol cur cs rule: walk.induct)
  case (1 f n fol cur)
  then show ?case by (auto intro: reaches.stop)
next
  case (2 f n fol cur c cs)
  from "2.prems" obtain m where d: "at f cur = Some (Dir m)" by (auto split: option.splits node.splits)
  show ?case
  proof (cases "plain c")
    case False
    then consider "c = [] \<or> c = dot" | "c = dotdot" "c \<noteq> []" "c \<noteq> dot" by (auto simp: plain_def)
    then show ?thesis
    proof cases
      case 1
      with "2.prems" d have "walk f n fol cur cs = Inr l" by auto
      from reaches.skip [OF d 1 "2.IH"(1) [OF d refl 1 this]] show ?thesis .
    next
      case 2
      with "2.prems" d have "walk f n fol (butlast cur) cs = Inr l" by simp
      with "2.IH"(2) [OF d refl] 2 have "reaches f n fol (butlast cur) cs l" by blast
      from reaches.up [OF d this] 2 show ?thesis by simp
    qed
  next
    case True
    then have p: "\<not> (c = [] \<or> c = dot)" "c \<noteq> dotdot" by (auto simp: plain_def)
    show ?thesis
    proof (cases "at f (cur @ [c])")
      case None
      with "2.prems" d p show ?thesis by (auto simp: True intro: reaches.missing split: if_splits)
    next
      case (Some nd)
      show ?thesis
      proof (cases "is_link (Some nd)")
        case False
        with "2.prems" d p Some have w: "walk f n fol (cur @ [c]) cs = Inr l" by (auto simp: is_link_def split: node.splits)
        have "reaches f n fol (cur @ [c]) cs l"
          using "2.IH" d p Some w False by (cases nd) (auto simp: is_link_def)
        from reaches.enter [OF d True Some False this] show ?thesis .
      next
        case link: True
        then obtain t where t: "nd = Link t" by (auto simp: is_link_def split: node.splits)
        show ?thesis
        proof (cases "cs = [] \<and> \<not> fol")
          case unf: True
          with "2.prems" d p Some t show ?thesis by (auto simp: True intro: reaches.unfollowed)
        next
          case False
          with "2.prems" d p Some t obtain k where n: "n = Suc k"
            and w: "walk f k fol (if path_IsAbs t then [] else cur) (split_on slash t @ cs) = Inr l"
            by (auto split: nat.splits if_splits)
          have "reaches f k fol (if path_IsAbs t then [] else cur) (split_on slash t @ cs) l"
            using "2.IH" d p Some t False n w by blast
          then show ?thesis using reaches.link [OF d True] Some t False n by blast
        qed
      qed
    qed
  qed
qed

lemma reaches_iff: "walk f n fol cur cs = Inr l \<longleftrightarrow> reaches f n fol cur cs l"
  using walk_reaches reaches_walk by blast

lemma reaches_more_links: "reaches f n fol cur cs l \<Longrightarrow> n \<le> m \<Longrightarrow> reaches f m fol cur cs l"
proof (induction arbitrary: m rule: reaches.induct)
  case (link cur d c t cs fol n l)
  then obtain k where "m = Suc k" "n \<le> k" by (cases m) auto
  then show ?case using link reaches.link by blast
qed (auto intro: reaches.intros)

text \<open>When the entry found is not a link, following the last link makes no difference.\<close>

lemma reaches_follow: "reaches f n fol cur cs l \<Longrightarrow> \<not> is_link (at f l) \<Longrightarrow> reaches f n True cur cs l"
proof (induction rule: reaches.induct)
  case (unfollowed cur m c t n)
  then show ?case by (simp add: is_link_def)
qed (auto intro: reaches.intros)

text \<open>The lookup of a name in a directory first reaches that directory.\<close>

lemma reaches_last:
  assumes "reaches f n fol cur (cs @ [c]) l" and "plain c"
  shows "\<exists>d m. reaches f n True cur cs d \<and> at f d = Some (Dir m)
    \<and> (\<not> fol \<or> \<not> is_link (at f (d @ [c])) \<longrightarrow> l = d @ [c])"
  using assms(1)
proof (induction n fol cur "cs @ [c]" l arbitrary: cs rule: reaches.induct)
  case (skip cur m c' n fol ds l)
  show ?case
  proof (cases cs)
    case Nil
    then show ?thesis using skip assms(2) by (auto simp: plain_def)
  next
    case (Cons x xs)
    then show ?thesis using skip by (auto intro: reaches.skip)
  qed
next
  case (up cur m n fol ds l)
  show ?case
  proof (cases cs)
    case Nil
    then show ?thesis using up assms(2) by (auto simp: plain_def)
  next
    case (Cons x xs)
    then show ?thesis using up by (auto intro: reaches.up)
  qed
next
  case (missing cur m c' n fol)
  then show ?case by (cases cs) (auto intro: reaches.stop)
next
  case (unfollowed cur m c' t n)
  then show ?case by (cases cs) (auto intro: reaches.stop)
next
  case (link cur m c' t ds fol n l)
  show ?case
  proof (cases cs)
    case Nil
    then show ?thesis using link by (auto simp: is_link_def intro: reaches.stop)
  next
    case (Cons x xs)
    with link have "split_on slash t @ ds = (split_on slash t @ xs) @ [c]" by simp
    from link(6) [OF this] obtain d k where "reaches f n True (if path_IsAbs t then [] else cur) (split_on slash t @ xs) d"
      "at f d = Some (Dir k)" "\<not> fol \<or> \<not> is_link (at f (d @ [c])) \<longrightarrow> l = d @ [c]" by blast
    then show ?thesis using Cons link(1-3,7) reaches.link [of f cur m c' t xs True n d] by auto
  qed
next
  case (enter cur m c' nd n fol ds l)
  show ?case
  proof (cases cs)
    case Nil
    with enter have "ds = []" "c' = c" by auto
    with enter(5) have "l = cur @ [c]" by (auto elim: reaches.cases)
    then show ?thesis using Nil enter(1) by (auto intro: reaches.stop)
  next
    case (Cons x xs)
    then show ?thesis using enter by (auto intro: reaches.enter)
  qed
qed auto

lemma reaches_unique: "reaches f n fol cur cs l \<Longrightarrow> reaches f n fol cur cs l' \<Longrightarrow> l = l'"
  by (simp flip: reaches_iff)

lemma reaches_append:
  assumes "reaches f n fol cur cs d" and "at f d = Some (Dir m)" and "plain x"
  shows "reaches f n False cur (cs @ [x]) (d @ [x])"
  using assms(1,2)
proof (induction rule: reaches.induct)
  case (stop n fol cur)
  show ?case
  proof (cases "at f (cur @ [x])")
    case None
    then show ?thesis using stop assms(3) by (auto intro: reaches.missing)
  next
    case (Some nd)
    then show ?thesis using stop assms(3)
      by (cases nd) (auto simp: is_link_def intro: reaches.unfollowed reaches.enter reaches.stop)
  qed
next
  case (link cur k c t cs fol n l)
  then show ?case using reaches.link [of f cur k c t "cs @ [x]" False n "l @ [x]"] by simp
qed (auto intro: reaches.intros)

text \<open>
  New entries and new attributes of directories do not disturb a lookup, unless a link appears
  where it ended.
\<close>

definition grows_to :: "loc \<Rightarrow> fs \<Rightarrow> fs \<Rightarrow> bool" where
  "grows_to l f f' \<longleftrightarrow> (\<forall>k. at f' k \<noteq> at f k \<longrightarrow>
     (at f k = None \<and> (k = l \<longrightarrow> \<not> is_link (at f' k))) \<or> (is_dir (at f k) \<and> is_dir (at f' k)))"

lemma grows_toD:
  assumes "grows_to l f f'"
  shows "at f' k = at f k \<or> (at f k = None \<and> (k = l \<longrightarrow> \<not> is_link (at f' k)))
    \<or> (\<exists>m m'. at f k = Some (Dir m) \<and> at f' k = Some (Dir m'))"
  using assms unfolding grows_to_def is_dir_iff by blast

lemma grows_dir: "grows_to l f f' \<Longrightarrow> at f k = Some (Dir m) \<Longrightarrow> \<exists>m'. at f' k = Some (Dir m')"
  using grows_toD [of l f f' k] by auto

lemma grows_link: "grows_to l f f' \<Longrightarrow> at f k = Some (Link t) \<Longrightarrow> at f' k = Some (Link t)"
  using grows_toD [of l f f' k] by auto

lemma grows_other: "grows_to l f f' \<Longrightarrow> at f k = Some nd \<Longrightarrow> \<not> is_link (Some nd) \<Longrightarrow> \<exists>nd'. at f' k = Some nd' \<and> \<not> is_link (Some nd')"
  using grows_toD [of l f f' k] by (auto simp: is_link_def)

lemma reaches_grows:
  assumes "reaches f n fol cur cs l" and "grows_to l f f'"
  shows "reaches f' n fol cur cs l"
  using assms
proof (induction rule: reaches.induct)
  case (missing cur m c n fol)
  obtain m' where d: "at f' cur = Some (Dir m')" using grows_dir [OF missing(4,1)] by blast
  show ?case
  proof (cases "at f' (cur @ [c])")
    case None
    then show ?thesis using d missing(2) by (auto intro: reaches.missing)
  next
    case (Some nd)
    then have "\<not> is_link (Some nd)" using missing(3) grows_toD [OF missing(4), of "cur @ [c]"] by auto
    then show ?thesis using d missing(2) Some by (auto intro: reaches.enter reaches.stop)
  qed
next
  case (link cur m c t cs fol n l)
  obtain m' where "at f' cur = Some (Dir m')" using grows_dir [OF link(7,1)] by blast
  then show ?case using reaches.link [OF _ link(2) grows_link [OF link(7,3)] link(4) link(6) [OF link(7)]] by blast
next
  case (enter cur m c nd n fol cs l)
  obtain m' where "at f' cur = Some (Dir m')" using grows_dir [OF enter(7,1)] by blast
  moreover obtain nd' where "at f' (cur @ [c]) = Some nd'" "\<not> is_link (Some nd')" using grows_other [OF enter(7,3,4)] by blast
  ultimately show ?case using reaches.enter [OF _ enter(2) _ _ enter(6) [OF enter(7)]] by blast
next
  case (unfollowed cur m c t n)
  obtain m' where "at f' cur = Some (Dir m')" using grows_dir [OF unfollowed(4,1)] by blast
  then show ?case using reaches.unfollowed [OF _ unfollowed(2) grows_link [OF unfollowed(4,3)]] by blast
next
  case (skip cur m c n fol cs l)
  obtain m' where "at f' cur = Some (Dir m')" using grows_dir [OF skip(5,1)] by blast
  then show ?case using reaches.skip [OF _ skip(2) skip(4) [OF skip(5)]] by blast
next
  case (up cur m n fol cs l)
  obtain m' where "at f' cur = Some (Dir m')" using grows_dir [OF up(4,1)] by blast
  then show ?case using reaches.up [OF _ up(3) [OF up(4)]] by blast
qed (rule reaches.stop)

section \<open>Lookups of clean paths\<close>

lemma name_plain: "name_ok c \<Longrightarrow> plain c"
  by (simp add: name_ok_def elem_ok_def plain_def)

lemma split_make_path:
  "list_all name_ok es \<Longrightarrow> split_on slash (make_path True es) = [] # (if es = [] then [[]] else es)"
  using split_on_join [of es slash] name_ok_sep [of es] by (auto simp: make_path_def)

lemma walk_make_path:
  assumes "list_all name_ok es"
  shows "walk f n fol [] (split_on slash (make_path True es)) = walk f n fol [] es"
  by (simp add: split_make_path [OF assms])

lemma resolve_make_path:
  assumes "list_all name_ok es"
  shows "resolve env f fol (make_path True es) =
    (case lookup_fault env (make_path True es) of Some e \<Rightarrow> Inl e | None \<Rightarrow> walk f kernel_links fol [] es)"
  by (simp add: resolve_def start_of_def walk_make_path [OF assms] split: option.splits)

lemma EvalSymlinks_make_path:
  assumes "list_all name_ok es"
  shows "EvalSymlinks env f (make_path True es) =
    (case lookup_fault env (make_path True es) of
       Some e \<Rightarrow> Inl (PathError ''lstat'' (make_path True es) (SysErrno e))
     | None \<Rightarrow> (case walk f eval_links True [] es of
         Inl e \<Rightarrow> Inl (if e = ELOOP then ErrorString ''EvalSymlinks: too many links''
                     else PathError ''lstat'' (make_path True es) (SysErrno e))
       | Inr l \<Rightarrow> (if at f l = None then Inl (PathError ''lstat'' (make_path True es) (SysErrno ENOENT))
                  else Inr (make_path True l))))"
  by (simp add: EvalSymlinks_def start_of_def walk_make_path [OF assms] split: option.splits)

text \<open>
  What the kernel finds, following links, is what \<open>EvalSymlinks\<close> finds, which allows more of them.
\<close>

lemma EvalSymlinks_resolve:
  assumes "list_all name_ok es" and "resolve env f True (make_path True es) = Inr l" and "at f l \<noteq> None"
  shows "EvalSymlinks env f (make_path True es) = Inr (make_path True l)"
proof -
  have r: "reaches f kernel_links True [] es l" and nf: "lookup_fault env (make_path True es) = None"
    using assms(1,2) by (auto simp: resolve_make_path reaches_iff split: option.splits)
  from r have "reaches f eval_links True [] es l" by (rule reaches_more_links) (simp add: kernel_links_def eval_links_def)
  then show ?thesis using nf assms(3) by (simp add: EvalSymlinks_make_path [OF assms(1)] reaches_iff [symmetric])
qed

end
