(* ===== verification/Serv_User.thy ===== *)
theory Serv_User
  imports Go_OS
begin

text \<open>
  \<^verbatim>\<open>src/utils/utils.go\<close> and \<^verbatim>\<open>src/dataprovider/user.go\<close>: the helpers on string lists, the scan of a
  directory, and the account of a user with the checks the server makes on it. Go's \<open>int\<close> and
  \<open>int64\<close> are \<open>int\<close>; where the sources add to a counter the result is reduced to 64 bits by
  \<open>wrap64\<close>.
\<close>

section \<open>Signed 64-bit arithmetic\<close>

definition wrap64 :: "int \<Rightarrow> int" where
  "wrap64 i = (i + 2 ^ 63) mod 2 ^ 64 - 2 ^ 63"

lemma wrap64_range: "- (2 ^ 63) \<le> wrap64 i \<and> wrap64 i < 2 ^ 63"
  by (simp add: wrap64_def)

lemma wrap64_id [simp]: "- (2 ^ 63) \<le> i \<Longrightarrow> i < 2 ^ 63 \<Longrightarrow> wrap64 i = i"
  by (simp add: wrap64_def)

lemma wrap64_add [simp]: "wrap64 (wrap64 a + b) = wrap64 (a + b)"
proof -
  have "(wrap64 a + b + 2 ^ 63) mod 2 ^ 64 = ((a + 2 ^ 63) mod 2 ^ 64 + b) mod 2 ^ 64"
    by (simp add: wrap64_def algebra_simps)
  also have "\<dots> = (a + b + 2 ^ 63) mod 2 ^ 64" 
    using mod_add_left_eq [of "a + 2 ^ 63" "2 ^ 64" b] by (simp add: ac_simps)
  finally show ?thesis by (simp add: wrap64_def [of "wrap64 a + b"] wrap64_def [of "a + b"])
qed

section \<open>Utilities\<close>

fun IsStringInSlice :: "string \<Rightarrow> string list \<Rightarrow> bool" where
  "IsStringInSlice obj [] = False"
| "IsStringInSlice obj (v # l) = (if v = obj then True else IsStringInSlice obj l)"

fun IsStringPrefixInSlice :: "string \<Rightarrow> string list \<Rightarrow> bool" where
  "IsStringPrefixInSlice obj [] = False"
| "IsStringPrefixInSlice obj (v # l) = (if prefix v obj then True else IsStringPrefixInSlice obj l)"

lemma IsStringInSlice_iff [simp]: "IsStringInSlice obj l \<longleftrightarrow> obj \<in> set l"
  by (induction l) auto

lemma IsStringPrefixInSlice_iff: "IsStringPrefixInSlice obj l \<longleftrightarrow> list_ex (\<lambda>v. prefix v obj) l"
  by (induction l) auto

text \<open>Division of Go truncates towards zero.\<close>

definition go_div :: "int \<Rightarrow> int \<Rightarrow> int" where
  "go_div a b = sgn a * sgn b * (\<bar>a\<bar> div \<bar>b\<bar>)"

definition GetTimeAsMsSinceEpoch :: "int \<Rightarrow> int" where
  "GetTimeAsMsSinceEpoch nanos = go_div nanos 1000000"

definition isDirectory :: "os_env \<Rightarrow> fs \<Rightarrow> string \<Rightarrow> goerr + bool" where
  "isDirectory env f path = (case os_Stat env f path of Inl e \<Rightarrow> Inl e | Inr fi \<Rightarrow> Inr (fi_IsDir fi))"

text \<open>
  The callback of \<open>filepath.Walk\<close> counts the regular files; the walk starts with \<open>os.Lstat\<close>, whose
  error goes to the callback and from there to the caller.
\<close>

definition scan_visit :: "int \<times> int \<times> string list \<Rightarrow> string \<times> fileInfo \<Rightarrow> int \<times> int \<times> string list" where
  "scan_visit acc v =
     (case (acc, v) of ((numFiles, bytes, fileList), (p, info)) \<Rightarrow>
        (if fi_IsRegular info then (wrap64 (numFiles + 1), wrap64 (bytes + sint (fi_size info)), fileList @ [p])
         else (numFiles, bytes, fileList)))"

definition ScanDirContents :: "os_env \<Rightarrow> fs \<Rightarrow> string \<Rightarrow> int \<times> int \<times> string list \<times> goerr option" where
  "ScanDirContents env f path =
     (case isDirectory env f path of
        Inl e \<Rightarrow> (0, 0, [], Some e)
      | Inr d \<Rightarrow>
          (if \<not> d then (0, 0, [], None)
           else case resolve env f False path of
                  Inl e \<Rightarrow> (0, 0, [], Some (PathError ''lstat'' path (SysErrno e)))
                | Inr l \<Rightarrow>
                    (if at f l = None then (0, 0, [], Some (PathError ''lstat'' path (SysErrno ENOENT)))
                     else (let (n, s, fl) = foldl scan_visit (0, 0, []) (Walk_visits f path l)
                           in (n, s, fl, None)))))"

definition SetPathPermissions :: "os_env \<Rightarrow> string \<Rightarrow> int \<Rightarrow> int \<Rightarrow> fs \<Rightarrow> fs" where
  "SetPathPermissions env path uid gid f = snd (os_Chown env f path uid gid)"

section \<open>Users\<close>

definition PermAny :: string where "PermAny = ''*''"
definition PermListItems :: string where "PermListItems = ''list''"
definition PermDownload :: string where "PermDownload = ''download''"
definition PermUpload :: string where "PermUpload = ''upload''"
definition PermDelete :: string where "PermDelete = ''delete''"
definition PermRename :: string where "PermRename = ''rename''"
definition PermCreateDirs :: string where "PermCreateDirs = ''create_dirs''"
definition PermCreateSymlinks :: string where "PermCreateSymlinks = ''create_symlinks''"
definition PermShell :: string where "PermShell = ''shell''"
definition PermTCPForward :: string where "PermTCPForward = ''tcpforward''"

lemmas perm_defs = PermAny_def PermListItems_def PermDownload_def PermUpload_def PermDelete_def PermRename_def
  PermCreateDirs_def PermCreateSymlinks_def PermShell_def PermTCPForward_def

record User =
  u_ID :: int
  u_Username :: string
  u_Password :: string
  u_PublicKeys :: "string list"
  u_HomeDir :: string
  u_UID :: int
  u_GID :: int
  u_MaxSessions :: int
  u_QuotaSize :: int
  u_QuotaFiles :: int
  u_Permissions :: "string list"
  u_UsedQuotaSize :: int
  u_UsedQuotaFiles :: int
  u_LastQuotaUpdate :: int
  u_UploadBandwidth :: int
  u_DownloadBandwidth :: int

definition zeroUser :: User where
  "zeroUser = \<lparr>u_ID = 0, u_Username = [], u_Password = [], u_PublicKeys = [], u_HomeDir = [], u_UID = 0, u_GID = 0,
     u_MaxSessions = 0, u_QuotaSize = 0, u_QuotaFiles = 0, u_Permissions = [], u_UsedQuotaSize = 0,
     u_UsedQuotaFiles = 0, u_LastQuotaUpdate = 0, u_UploadBandwidth = 0, u_DownloadBandwidth = 0\<rparr>"

definition HasPerm :: "User \<Rightarrow> string \<Rightarrow> bool" where
  "HasPerm u permission =
     (if IsStringInSlice PermAny (u_Permissions u) then True else IsStringInSlice permission (u_Permissions u))"

definition GetUID :: "User \<Rightarrow> int" where
  "GetUID u = (if u_UID u \<le> 0 \<or> u_UID u > 65535 then -1 else u_UID u)"

definition GetGID :: "User \<Rightarrow> int" where
  "GetGID u = (if u_GID u \<le> 0 \<or> u_GID u > 65535 then -1 else u_GID u)"

definition GetHomeDir :: "User \<Rightarrow> string" where
  "GetHomeDir u = path_Clean (u_HomeDir u)"

definition HasQuotaRestrictions :: "User \<Rightarrow> bool" where
  "HasQuotaRestrictions u = (u_QuotaFiles u > 0 \<or> u_QuotaSize u > 0)"

definition GetRelativePath :: "User \<Rightarrow> string \<Rightarrow> string" where
  "GetRelativePath u path =
     (case filepath_Rel (GetHomeDir u) path of Inl _ \<Rightarrow> [] | Inr rel \<Rightarrow> slash # rel)"

text \<open>
  The path that a client sees for a file below the home directory leads back to that file.
\<close>

lemma GetRelativePath_inside:
  assumes "path_IsAbs (u_HomeDir u)" and "list_all name_ok es" and "es \<noteq> []"
    and "path = make_path True (path_elems (u_HomeDir u) @ es)"
  shows "GetRelativePath u path = make_path True es"
proof -
  let ?h = "path_elems (u_HomeDir u)"
  have h: "list_all name_ok ?h" by (rule rooted_elems [OF assms(1)])
  have "path_elems path = ?h @ es" using h assms(2,4) by simp
  moreover have "path_elems (GetHomeDir u) = ?h" using assms(1) by (simp add: GetHomeDir_def path_elems_Clean)
  moreover have "path_IsAbs (GetHomeDir u)" using assms(1) by (simp add: GetHomeDir_def IsAbs_Clean)
  moreover have "path_IsAbs path" using assms(4) by simp
  ultimately have "filepath_Rel (GetHomeDir u) path = Inr (make_path False es)"
    by (simp add: filepath_Rel_def strip_common_append)
  then show ?thesis using assms(3) by (simp add: GetRelativePath_def make_path_def)
qed

end
