(* ===== verification/Serv_Provider.thy ===== *)
theory Serv_Provider
  imports Serv_User
begin

text \<open>
  \<^verbatim>\<open>src/dataprovider/dataprovider.go\<close>: the configuration, the interface \<open>Provider\<close> as a record of
  functions on the state of a database, the functions of the package in front of it, and the
  checks of accounts, passwords and keys. The hash functions and the parser of public keys
  come from other modules and are the argument \<open>crypto\<close>. The expiry job of \<^verbatim>\<open>src/cmd/serve.go\<close>
  is the last section.
\<close>

section \<open>Configuration and interface\<close>

record Config =
  cf_Driver :: string
  cf_SSLMode :: int
  cf_ManageUsers :: int
  cf_TrackQuota :: int
  cf_DefaultUserExpire :: int

definition SQLiteDataProviderName :: string where "SQLiteDataProviderName = ''sqlite''"
definition PGSSQLDataProviderName :: string where "PGSSQLDataProviderName = ''postgresql''"
definition MySQLDataProviderName :: string where "MySQLDataProviderName = ''mysql''"
definition BoltDataProviderName :: string where "BoltDataProviderName = ''bolt''"

definition argonPwdPrefix :: string where "argonPwdPrefix = ''$argon2id$''"
definition bcryptPwdPrefix :: string where "bcryptPwdPrefix = ''$2a$''"
definition pbkdf2SHA1Prefix :: string where "pbkdf2SHA1Prefix = ''$pbkdf2-sha1$''"
definition pbkdf2SHA256Prefix :: string where "pbkdf2SHA256Prefix = ''$pbkdf2-sha256$''"
definition pbkdf2SHA512Prefix :: string where "pbkdf2SHA512Prefix = ''$pbkdf2-sha512$''"

lemmas prefix_defs = argonPwdPrefix_def bcryptPwdPrefix_def pbkdf2SHA1Prefix_def pbkdf2SHA256Prefix_def
  pbkdf2SHA512Prefix_def

definition manageUsersDisabledError :: string where
  "manageUsersDisabledError = ''please set manage_users to 1 in sftpgo.conf to enable this method''"

definition trackQuotaDisabledError :: string where
  "trackQuotaDisabledError = ''please enable track_quota in sftpgo.conf to use this method''"

definition validPerms :: "string list" where
  "validPerms = [PermAny, PermListItems, PermDownload, PermUpload, PermDelete, PermRename,
     PermCreateDirs, PermCreateSymlinks, ''shell'', ''_expire:'']"

definition hashPwdPrefixes :: "string list" where
  "hashPwdPrefixes = [argonPwdPrefix, bcryptPwdPrefix, pbkdf2SHA1Prefix, pbkdf2SHA256Prefix, pbkdf2SHA512Prefix]"

definition pbkdfPwdPrefixes :: "string list" where
  "pbkdfPwdPrefixes = [pbkdf2SHA1Prefix, pbkdf2SHA256Prefix, pbkdf2SHA512Prefix]"

text \<open>The time of a call, in nanoseconds, is an argument of the operation that reads the clock.\<close>

record 'p Provider =
  p_validateUserAndPass :: "string \<Rightarrow> string \<Rightarrow> 'p \<Rightarrow> User \<times> goerr option"
  p_validateUserAndPubKey :: "string \<Rightarrow> string \<Rightarrow> 'p \<Rightarrow> User \<times> goerr option"
  p_updateQuota :: "string \<Rightarrow> int \<Rightarrow> int \<Rightarrow> bool \<Rightarrow> int \<Rightarrow> 'p \<Rightarrow> goerr option \<times> 'p"
  p_getUsedQuota :: "string \<Rightarrow> 'p \<Rightarrow> int \<times> int \<times> goerr option"
  p_userExists :: "string \<Rightarrow> 'p \<Rightarrow> User \<times> goerr option"
  p_addUser :: "User \<Rightarrow> 'p \<Rightarrow> goerr option \<times> 'p"
  p_updateUser :: "User \<Rightarrow> 'p \<Rightarrow> goerr option \<times> 'p"
  p_deleteUser :: "User \<Rightarrow> 'p \<Rightarrow> goerr option \<times> 'p"
  p_getUsers :: "int \<Rightarrow> int \<Rightarrow> string \<Rightarrow> string \<Rightarrow> 'p \<Rightarrow> User list \<times> goerr option"
  p_getUserByID :: "int \<Rightarrow> 'p \<Rightarrow> User \<times> goerr option"

definition CheckUserAndPass :: "'p Provider \<Rightarrow> string \<Rightarrow> string \<Rightarrow> 'p \<Rightarrow> User \<times> goerr option" where
  "CheckUserAndPass P username password = p_validateUserAndPass P username password"

definition CheckUserAndPubKey :: "'p Provider \<Rightarrow> string \<Rightarrow> string \<Rightarrow> 'p \<Rightarrow> User \<times> goerr option" where
  "CheckUserAndPubKey P username pubKey = p_validateUserAndPubKey P username pubKey"

definition UpdateUserQuota :: "Config \<Rightarrow> 'p Provider \<Rightarrow> User \<Rightarrow> int \<Rightarrow> int \<Rightarrow> bool \<Rightarrow> int \<Rightarrow> 'p
    \<Rightarrow> goerr option \<times> 'p" where
  "UpdateUserQuota cf P user filesAdd sizeAdd reset now p =
     (if cf_TrackQuota cf = 0 then (Some (MethodDisabledError trackQuotaDisabledError), p)
      else if cf_TrackQuota cf = 2 \<and> \<not> reset \<and> \<not> HasQuotaRestrictions user then (None, p)
      else p_updateQuota P (u_Username user) filesAdd sizeAdd reset now p)"

definition GetUsedQuota :: "Config \<Rightarrow> 'p Provider \<Rightarrow> string \<Rightarrow> 'p \<Rightarrow> int \<times> int \<times> goerr option" where
  "GetUsedQuota cf P username p =
     (if cf_TrackQuota cf = 0 then (0, 0, Some (MethodDisabledError trackQuotaDisabledError))
      else p_getUsedQuota P username p)"

definition UserExists :: "'p Provider \<Rightarrow> string \<Rightarrow> 'p \<Rightarrow> User \<times> goerr option" where
  "UserExists P username = p_userExists P username"

section \<open>Managing users\<close>

text \<open>
  \<open>fmt.Sscanf(s, "%d", &v)\<close> skips blanks and reads a decimal number; when there is none, or it
  does not fit, the variable keeps its value.
\<close>

definition is_digit :: "char \<Rightarrow> bool" where
  "is_digit c \<longleftrightarrow> 48 \<le> (of_char c :: nat) \<and> (of_char c :: nat) \<le> 57"

definition is_blank :: "char \<Rightarrow> bool" where
  "is_blank c \<longleftrightarrow> (of_char c :: nat) \<in> {9, 11, 12, 13, 32}"

definition take_sign :: "string \<Rightarrow> bool \<times> string" where
  "take_sign s = (case s of [] \<Rightarrow> (False, s)
     | c # r \<Rightarrow> (if c = CHR ''-'' then (True, r) else if c = CHR ''+'' then (False, r) else (False, s)))"

definition signed_value :: "bool \<Rightarrow> string \<Rightarrow> int option" where
  "signed_value neg ds =
     (let v = (if neg then - int (atoi_acc 0 ds) else int (atoi_acc 0 ds))
      in if ds = [] \<or> v < - (2 ^ 63) \<or> 2 ^ 63 \<le> v then None else Some v)"

definition Sscanf_d :: "string \<Rightarrow> int \<Rightarrow> int" where
  "Sscanf_d s v =
     (let (neg, r) = take_sign (dropWhile is_blank s)
      in case signed_value neg (takeWhile is_digit r) of None \<Rightarrow> v | Some i \<Rightarrow> i)"

definition Atoi :: "string \<Rightarrow> goerr + int" where
  "Atoi s =
     (let (neg, r) = take_sign s
      in if \<not> list_all is_digit r then Inl (ErrorString (''strconv.Atoi: parsing '' @ s))
         else case signed_value neg r of
                None \<Rightarrow> Inl (ErrorString (''strconv.Atoi: parsing '' @ s))
              | Some i \<Rightarrow> Inr i)"

definition expire_prefix :: string where "expire_prefix = ''_expire:''"

text \<open>
  The loop of \<open>AddUser\<close>: minutes from now become seconds since the epoch. The variable \<open>ex_tm\<close>
  lives outside the loop.
\<close>

fun expire_loop :: "int \<Rightarrow> int \<Rightarrow> bool \<Rightarrow> string list \<Rightarrow> string list \<times> bool" where
  "expire_loop unix ex_tm custom [] = ([], custom)"
| "expire_loop unix ex_tm custom (p # ps) =
     (if length p < 9 \<or> take 8 p \<noteq> expire_prefix
      then (let (qs, c) = expire_loop unix ex_tm custom ps in (p # qs, c))
      else (let ex_tm = Sscanf_d (drop 8 p) ex_tm;
                (qs, c) = expire_loop unix ex_tm True ps
            in ((expire_prefix @ itoa_int (wrap64 (unix + wrap64 (ex_tm * 60)))) # qs, c)))"

definition unix_of :: "int \<Rightarrow> int" where
  "unix_of nanos = nanos div 1000000000"

definition AddUser :: "Config \<Rightarrow> 'p Provider \<Rightarrow> User \<Rightarrow> int \<Rightarrow> 'p \<Rightarrow> goerr option \<times> 'p" where
  "AddUser cf P user now p =
     (if cf_ManageUsers cf = 0 then (Some (MethodDisabledError manageUsersDisabledError), p)
      else (let (perms, custom_expire) = expire_loop (unix_of now) 0 False (u_Permissions user);
                perms = (if \<not> custom_expire \<and> cf_DefaultUserExpire cf > 0
                         then perms @ [expire_prefix @ itoa_int (wrap64 (unix_of now + wrap64 (cf_DefaultUserExpire cf * 60)))]
                         else perms)
            in p_addUser P (user\<lparr>u_Permissions := perms\<rparr>) p))"

definition UpdateUser :: "Config \<Rightarrow> 'p Provider \<Rightarrow> User \<Rightarrow> 'p \<Rightarrow> goerr option \<times> 'p" where
  "UpdateUser cf P user p =
     (if cf_ManageUsers cf = 0 then (Some (MethodDisabledError manageUsersDisabledError), p)
      else p_updateUser P user p)"

definition DeleteUser :: "Config \<Rightarrow> 'p Provider \<Rightarrow> User \<Rightarrow> 'p \<Rightarrow> goerr option \<times> 'p" where
  "DeleteUser cf P user p =
     (if cf_ManageUsers cf = 0 then (Some (MethodDisabledError manageUsersDisabledError), p)
      else p_deleteUser P user p)"

definition GetUsers :: "'p Provider \<Rightarrow> int \<Rightarrow> int \<Rightarrow> string \<Rightarrow> string \<Rightarrow> 'p \<Rightarrow> User list \<times> goerr option" where
  "GetUsers P limit offset order username = p_getUsers P limit offset order username"

definition GetUserByID :: "'p Provider \<Rightarrow> int \<Rightarrow> 'p \<Rightarrow> User \<times> goerr option" where
  "GetUserByID P ID = p_getUserByID P ID"

section \<open>Validation\<close>

record crypto =
  cr_CreateHash :: "string \<Rightarrow> goerr + string"
  cr_ComparePasswordAndHash :: "string \<Rightarrow> string \<Rightarrow> goerr + bool"
  cr_CompareHashAndPassword :: "string \<Rightarrow> string \<Rightarrow> goerr option"
  cr_pbkdf2_Key :: "string \<Rightarrow> string \<Rightarrow> int \<Rightarrow> nat \<Rightarrow> string \<Rightarrow> bytes"
  cr_ParseAuthorizedKey :: "string \<Rightarrow> goerr + string"

text \<open>The permission up to and including its first colon, unless the colon comes first.\<close>

definition perm_kind :: "string \<Rightarrow> string" where
  "perm_kind p =
     (let px = length (takeWhile (\<lambda>c. c \<noteq> CHR '':'') p)
      in if px < length p \<and> 0 < px then take (px + 1) p else p)"

fun check_perms :: "string list \<Rightarrow> goerr option" where
  "check_perms [] = None"
| "check_perms (p # ps) =
     (if \<not> IsStringInSlice (perm_kind p) validPerms
      then Some (ValidationError (''Invalid permission: '' @ perm_kind p))
      else check_perms ps)"

fun check_keys :: "crypto \<Rightarrow> nat \<Rightarrow> string list \<Rightarrow> goerr option" where
  "check_keys cr i [] = None"
| "check_keys cr i (k # ks) =
     (case cr_ParseAuthorizedKey cr k of
        Inl _ \<Rightarrow> Some (ValidationError (''Could not parse key nr. '' @ itoa i))
      | Inr _ \<Rightarrow> check_keys cr (Suc i) ks)"

definition validateUser :: "crypto \<Rightarrow> User \<Rightarrow> goerr + User" where
  "validateUser cr user =
     (if u_Username user = [] \<or> u_HomeDir user = [] then Inl (ValidationError ''Mandatory parameters missing'')
      else if u_Password user = [] \<and> u_PublicKeys user = []
      then Inl (ValidationError ''Please set password or at least a public_key'')
      else if u_Permissions user = [] then Inl (ValidationError ''Please grant some permissions to this user'')
      else if \<not> path_IsAbs (u_HomeDir user)
      then Inl (ValidationError (''home_dir must be an absolute path, actual value: ['' @ u_HomeDir user @ '']--''))
      else case check_perms (u_Permissions user) of
             Some e \<Rightarrow> Inl e
           | None \<Rightarrow>
               (case (if u_Password user \<noteq> [] \<and> \<not> IsStringPrefixInSlice (u_Password user) hashPwdPrefixes
                      then (case cr_CreateHash cr (u_Password user) of
                              Inl e \<Rightarrow> Inl e
                            | Inr pwd \<Rightarrow> Inr (user\<lparr>u_Password := pwd\<rparr>))
                      else Inr user) of
                  Inl e \<Rightarrow> Inl e
                | Inr user \<Rightarrow> (case check_keys cr 0 (u_PublicKeys user) of Some e \<Rightarrow> Inl e | None \<Rightarrow> Inr user)))"

section \<open>Checking credentials\<close>

text \<open>\<open>base64.StdEncoding\<close>.\<close>

definition b64_alphabet :: string where
  "b64_alphabet = ''ABCDEFGHIJKLMNOPQRSTUVWXYZabcdefghijklmnopqrstuvwxyz0123456789+/''"

definition b64_char :: "nat \<Rightarrow> char" where
  "b64_char n = b64_alphabet ! (n mod 64)"

fun base64 :: "bytes \<Rightarrow> string" where
  "base64 (a # b # c # r) =
     [b64_char (unat a div 4), b64_char (unat a mod 4 * 16 + unat b div 16),
      b64_char (unat b mod 16 * 4 + unat c div 64), b64_char (unat c mod 64)] @ base64 r"
| "base64 [a, b] =
     [b64_char (unat a div 4), b64_char (unat a mod 4 * 16 + unat b div 16), b64_char (unat b mod 16 * 4), CHR ''='']"
| "base64 [a] = [b64_char (unat a div 4), b64_char (unat a mod 4 * 16), CHR ''='', CHR ''='']"
| "base64 [] = []"

definition comparePbkdf2PasswordAndHash :: "crypto \<Rightarrow> string \<Rightarrow> string \<Rightarrow> goerr + bool" where
  "comparePbkdf2PasswordAndHash cr password hashedPassword =
     (let vals = split_on (CHR ''$'') hashedPassword
      in if length vals \<noteq> 5 then Inl (ErrorString ''pbkdf2: hash is not in the correct format'')
         else case (if prefix pbkdf2SHA256Prefix hashedPassword then Some (32, ''sha256'')
                    else if prefix pbkdf2SHA512Prefix hashedPassword then Some (64, ''sha512'')
                    else if prefix pbkdf2SHA1Prefix hashedPassword then Some (20, ''sha1'')
                    else None) of
                None \<Rightarrow> Inl (ErrorString (''pbkdf2: invalid or unsupported hash format '' @ vals ! 1))
              | Some (hashSize, hashFunc) \<Rightarrow>
                  (case Atoi (vals ! 2) of
                     Inl e \<Rightarrow> Inl e
                   | Inr iterations \<Rightarrow>
                       Inr (base64 (cr_pbkdf2_Key cr password (vals ! 3) iterations hashSize hashFunc) = vals ! 4)))"

definition checkUserAndPass :: "crypto \<Rightarrow> User \<Rightarrow> string \<Rightarrow> User \<times> goerr option" where
  "checkUserAndPass cr user password =
     (if u_Password user = [] then (user, Some (ErrorString ''Credentials cannot be null or empty''))
      else (let verdict =
              (if prefix argonPwdPrefix (u_Password user)
               then cr_ComparePasswordAndHash cr password (u_Password user)
               else if prefix bcryptPwdPrefix (u_Password user)
               then (case cr_CompareHashAndPassword cr (u_Password user) password of
                       Some e \<Rightarrow> Inl e | None \<Rightarrow> Inr True)
               else if IsStringPrefixInSlice (u_Password user) pbkdfPwdPrefixes
               then comparePbkdf2PasswordAndHash cr password (u_Password user)
               else Inr False)
            in case verdict of
                 Inl e \<Rightarrow> (user, Some e)
               | Inr match \<Rightarrow> (user, if match then None else Some (ErrorString ''Invalid credentials''))))"

fun match_keys :: "crypto \<Rightarrow> string \<Rightarrow> string list \<Rightarrow> goerr option" where
  "match_keys cr pubKey [] = Some (ErrorString ''Invalid credentials'')"
| "match_keys cr pubKey (k # ks) =
     (case cr_ParseAuthorizedKey cr k of
        Inl e \<Rightarrow> Some e
      | Inr stored \<Rightarrow> (if stored = pubKey then None else match_keys cr pubKey ks))"

definition checkUserAndPubKey :: "crypto \<Rightarrow> User \<Rightarrow> string \<Rightarrow> User \<times> goerr option" where
  "checkUserAndPubKey cr user pubKey =
     (if u_PublicKeys user = [] then (user, Some (ErrorString ''Invalid credentials''))
      else (user, match_keys cr pubKey (u_PublicKeys user)))"

definition getSSLMode :: "Config \<Rightarrow> string" where
  "getSSLMode cf =
     (if cf_Driver cf = PGSSQLDataProviderName
      then (if cf_SSLMode cf = 0 then ''disable'' else if cf_SSLMode cf = 1 then ''require''
            else if cf_SSLMode cf = 2 then ''verify-ca'' else if cf_SSLMode cf = 3 then ''verify-full'' else [])
      else if cf_Driver cf = MySQLDataProviderName
      then (if cf_SSLMode cf = 0 then ''false'' else if cf_SSLMode cf = 1 then ''true''
            else if cf_SSLMode cf = 2 then ''skip-verify'' else if cf_SSLMode cf = 3 then ''preferred'' else [])
      else [])"

section \<open>Expired users\<close>

text \<open>
  One page of the expiry job of \<^verbatim>\<open>src/cmd/serve.go\<close>: every expired entry of the permissions marks
  the user; \<open>ex_tm\<close> is kept from one user of the page to the next. The loop over the pages ends
  when a page is empty or the provider fails.
\<close>

fun expired_entries :: "int \<Rightarrow> int \<Rightarrow> User \<Rightarrow> string list \<Rightarrow> User list \<times> int" where
  "expired_entries unix ex_tm user [] = ([], ex_tm)"
| "expired_entries unix ex_tm user (p # ps) =
     (if length p < 10 \<or> take 8 p \<noteq> expire_prefix then expired_entries unix ex_tm user ps
      else (let ex_tm = Sscanf_d (drop 8 p) ex_tm;
                (del, v) = expired_entries unix ex_tm user ps
            in (if unix > ex_tm then user # del else del, v)))"

fun expired_page :: "int \<Rightarrow> int \<Rightarrow> User list \<Rightarrow> User list" where
  "expired_page unix ex_tm [] = []"
| "expired_page unix ex_tm (user # us) =
     (let (del, v) = expired_entries unix ex_tm user (u_Permissions user) in del @ expired_page unix v us)"

partial_function (option) expire_pages :: "'p Provider \<Rightarrow> int \<Rightarrow> int \<Rightarrow> 'p \<Rightarrow> User list option" where
  "expire_pages P unix i p =
     (let (users, err) = GetUsers P 30 i [] [] p
      in if err \<noteq> None \<or> users = [] then Some []
         else Option.bind (expire_pages P unix (i + 30) p) (\<lambda>rest. Some (expired_page unix 0 users @ rest)))"

definition check_user_expire_once :: "Config \<Rightarrow> 'p Provider \<Rightarrow> int \<Rightarrow> 'p \<Rightarrow> 'p option" where
  "check_user_expire_once cf P now p =
     (case expire_pages P (unix_of now) 0 p of
        None \<Rightarrow> None
      | Some del \<Rightarrow> Some (fold (\<lambda>user p. snd (DeleteUser cf P user p)) del p))"

end
