(* ===== verification/Serv_Bolt.thy ===== *)
theory Serv_Bolt
  imports Serv_Provider Sftp_Wire "HOL-Library.Monad_Syntax"
begin

text \<open>
  \<^verbatim>\<open>src/dataprovider/bolt.go\<close>: the provider on the key/value store bbolt. The store is a module of
  its own and is the argument \<open>bolt\<close>, a record of the calls the provider makes; what the
  provider relies on is the locale \<open>bolt_db\<close>. A value of the users' bucket is the JSON document
  of a user; documents are trees here, the text of \<open>encoding/json\<close> is left out.
\<close>

section \<open>Users as JSON documents\<close>

datatype json = JNull | JInt int | JStr string | JArr "json list" | JObj "(string \<times> json) list"

definition user_json :: "User \<Rightarrow> json" where
  "user_json u = JObj
     ([(''id'', JInt (u_ID u)), (''username'', JStr (u_Username u))]
      @ (if u_Password u = [] then [] else [(''password'', JStr (u_Password u))])
      @ (if u_PublicKeys u = [] then [] else [(''public_keys'', JArr (map JStr (u_PublicKeys u)))])
      @ [(''home_dir'', JStr (u_HomeDir u)), (''uid'', JInt (u_UID u)), (''gid'', JInt (u_GID u)),
         (''max_sessions'', JInt (u_MaxSessions u)), (''quota_size'', JInt (u_QuotaSize u)),
         (''quota_files'', JInt (u_QuotaFiles u)), (''permissions'', JArr (map JStr (u_Permissions u))),
         (''used_quota_size'', JInt (u_UsedQuotaSize u)), (''used_quota_files'', JInt (u_UsedQuotaFiles u)),
         (''last_quota_update'', JInt (u_LastQuotaUpdate u)), (''upload_bandwidth'', JInt (u_UploadBandwidth u)),
         (''download_bandwidth'', JInt (u_DownloadBandwidth u))])"

text \<open>A member that is missing or null leaves the zero value; one of another type is an error.\<close>

definition in_int64 :: "int \<Rightarrow> bool" where
  "in_int64 i \<longleftrightarrow> - (2 ^ 63) \<le> i \<and> i < 2 ^ 63"

definition get_int :: "(string \<times> json) list \<Rightarrow> string \<Rightarrow> int option" where
  "get_int ms k = (case map_of ms k of None \<Rightarrow> Some 0 | Some JNull \<Rightarrow> Some 0
     | Some (JInt i) \<Rightarrow> (if in_int64 i then Some i else None) | _ \<Rightarrow> None)"

definition get_str :: "(string \<times> json) list \<Rightarrow> string \<Rightarrow> string option" where
  "get_str ms k = (case map_of ms k of None \<Rightarrow> Some [] | Some JNull \<Rightarrow> Some [] | Some (JStr s) \<Rightarrow> Some s | _ \<Rightarrow> None)"

fun strings_of :: "json list \<Rightarrow> string list option" where
  "strings_of [] = Some []"
| "strings_of (JStr s # r) = map_option ((#) s) (strings_of r)"
| "strings_of (JNull # r) = map_option ((#) []) (strings_of r)"
| "strings_of (_ # r) = None"

definition get_strs :: "(string \<times> json) list \<Rightarrow> string \<Rightarrow> string list option" where
  "get_strs ms k = (case map_of ms k of None \<Rightarrow> Some [] | Some JNull \<Rightarrow> Some [] | Some (JArr l) \<Rightarrow> strings_of l | _ \<Rightarrow> None)"

definition members :: "json \<Rightarrow> (string \<times> json) list option" where
  "members j = (case j of JObj ms \<Rightarrow> Some ms | JNull \<Rightarrow> Some [] | _ \<Rightarrow> None)"

definition json_user :: "json \<Rightarrow> User option" where
  "json_user j = do {
     ms \<leftarrow> members j;
     ID \<leftarrow> get_int ms ''id''; username \<leftarrow> get_str ms ''username''; password \<leftarrow> get_str ms ''password'';
     keys \<leftarrow> get_strs ms ''public_keys''; home \<leftarrow> get_str ms ''home_dir''; uid \<leftarrow> get_int ms ''uid'';
     gid \<leftarrow> get_int ms ''gid''; sessions \<leftarrow> get_int ms ''max_sessions''; qsize \<leftarrow> get_int ms ''quota_size'';
     qfiles \<leftarrow> get_int ms ''quota_files''; perms \<leftarrow> get_strs ms ''permissions'';
     usize \<leftarrow> get_int ms ''used_quota_size''; ufiles \<leftarrow> get_int ms ''used_quota_files'';
     upd \<leftarrow> get_int ms ''last_quota_update''; up \<leftarrow> get_int ms ''upload_bandwidth'';
     down \<leftarrow> get_int ms ''download_bandwidth'';
     Some \<lparr>u_ID = ID, u_Username = username, u_Password = password, u_PublicKeys = keys, u_HomeDir = home,
       u_UID = uid, u_GID = gid, u_MaxSessions = sessions, u_QuotaSize = qsize, u_QuotaFiles = qfiles,
       u_Permissions = perms, u_UsedQuotaSize = usize, u_UsedQuotaFiles = ufiles, u_LastQuotaUpdate = upd,
       u_UploadBandwidth = up, u_DownloadBandwidth = down\<rparr>}"

definition user_ok :: "User \<Rightarrow> bool" where
  "user_ok u \<longleftrightarrow> list_all in_int64 [u_ID u, u_UID u, u_GID u, u_MaxSessions u, u_QuotaSize u, u_QuotaFiles u,
     u_UsedQuotaSize u, u_UsedQuotaFiles u, u_LastQuotaUpdate u, u_UploadBandwidth u, u_DownloadBandwidth u]"

lemma strings_of_map [simp]: "strings_of (map JStr l) = Some l"
  by (induction l) auto

lemma json_user_json: "user_ok u \<Longrightarrow> json_user (user_json u) = Some u"
  by (simp add: json_user_def user_json_def members_def get_int_def get_str_def get_strs_def user_ok_def)

section \<open>The store\<close>

datatype dbval = Doc json | Text string

text \<open>
  \<open>bo_Update\<close> runs a function on the store inside a transaction; \<open>bo_Keys\<close> is the order of a
  cursor and \<open>bo_Sequence\<close> the counter behind \<open>NextSequence\<close>.
\<close>

record 'd bolt =
  bo_Bucket :: "'d \<Rightarrow> string \<Rightarrow> bool"
  bo_Get :: "'d \<Rightarrow> string \<Rightarrow> string \<Rightarrow> dbval option"
  bo_Put :: "string \<Rightarrow> string \<Rightarrow> dbval \<Rightarrow> 'd \<Rightarrow> goerr + 'd"
  bo_Delete :: "string \<Rightarrow> string \<Rightarrow> 'd \<Rightarrow> goerr + 'd"
  bo_Sequence :: "'d \<Rightarrow> string \<Rightarrow> nat"
  bo_NextSequence :: "string \<Rightarrow> 'd \<Rightarrow> goerr + u64 \<times> 'd"
  bo_Keys :: "'d \<Rightarrow> string \<Rightarrow> string list"
  bo_Update :: "('d \<Rightarrow> goerr + 'd) \<Rightarrow> 'd \<Rightarrow> goerr option \<times> 'd"

definition usersBucket :: string where "usersBucket = ''users''"
definition usersIDIdxBucket :: string where "usersIDIdxBucket = ''users_id_idx''"

lemma buckets_differ [simp]: "usersBucket \<noteq> usersIDIdxBucket" "usersIDIdxBucket \<noteq> usersBucket"
  by (simp_all add: usersBucket_def usersIDIdxBucket_def)

definition itob :: "int \<Rightarrow> string" where
  "itob v = string_of (PutUint64 (word_of_int v))"

definition getBuckets :: "'d bolt \<Rightarrow> 'd \<Rightarrow> goerr option" where
  "getBuckets b d =
     (if \<not> bo_Bucket b d usersBucket \<or> \<not> bo_Bucket b d usersIDIdxBucket
      then Some (ErrorString ''Unable to find required buckets, bolt database structure not correcly defined'')
      else None)"

definition json_Unmarshal :: "dbval \<Rightarrow> goerr + User" where
  "json_Unmarshal v =
     (case v of Text _ \<Rightarrow> Inl (ErrorString ''json: cannot unmarshal'')
      | Doc j \<Rightarrow> (case json_user j of None \<Rightarrow> Inl (ErrorString ''json: cannot unmarshal'') | Some u \<Rightarrow> Inr u))"

section \<open>The provider\<close>

definition quoted :: "string \<Rightarrow> string" where
  "quoted s = CHR 0x27 # s @ [CHR 0x27]"

text \<open>The error of a missing user carries the name of the user not yet read, which is empty.\<close>

definition bolt_userExists :: "'d bolt \<Rightarrow> string \<Rightarrow> 'd \<Rightarrow> User \<times> goerr option" where
  "bolt_userExists b username d =
     (case getBuckets b d of
        Some e \<Rightarrow> (zeroUser, Some e)
      | None \<Rightarrow>
          (case bo_Get b d usersBucket username of
             None \<Rightarrow> (zeroUser, Some (RecordNotFoundError (''username '' @ u_Username zeroUser @ '' does not exist'')))
           | Some v \<Rightarrow> (case json_Unmarshal v of Inl e \<Rightarrow> (zeroUser, Some e) | Inr u \<Rightarrow> (u, None))))"

definition bolt_validateUserAndPass :: "crypto \<Rightarrow> 'd bolt \<Rightarrow> string \<Rightarrow> string \<Rightarrow> 'd \<Rightarrow> User \<times> goerr option" where
  "bolt_validateUserAndPass cr b username password d =
     (if password = [] then (zeroUser, Some (ErrorString ''Credentials cannot be null or empty''))
      else case bolt_userExists b username d of
             (user, Some e) \<Rightarrow> (user, Some e)
           | (user, None) \<Rightarrow> checkUserAndPass cr user password)"

definition bolt_validateUserAndPubKey :: "crypto \<Rightarrow> 'd bolt \<Rightarrow> string \<Rightarrow> string \<Rightarrow> 'd \<Rightarrow> User \<times> goerr option" where
  "bolt_validateUserAndPubKey cr b username pubKey d =
     (if pubKey = [] then (zeroUser, Some (ErrorString ''Credentials cannot be null or empty''))
      else case bolt_userExists b username d of
             (user, Some e) \<Rightarrow> (user, Some e)
           | (user, None) \<Rightarrow> checkUserAndPubKey cr user pubKey)"

definition bolt_getUserByID :: "'d bolt \<Rightarrow> int \<Rightarrow> 'd \<Rightarrow> User \<times> goerr option" where
  "bolt_getUserByID b ID d =
     (case getBuckets b d of
        Some e \<Rightarrow> (zeroUser, Some e)
      | None \<Rightarrow>
          (case bo_Get b d usersIDIdxBucket (itob ID) of
             None \<Rightarrow> (zeroUser, Some (RecordNotFoundError (''user with ID '' @ itoa_int ID @ '' does not exist'')))
           | Some v \<Rightarrow>
               (let username = (case v of Text s \<Rightarrow> s | Doc _ \<Rightarrow> [])
                in case bo_Get b d usersBucket username of
                     None \<Rightarrow> (zeroUser, Some (RecordNotFoundError
                       (''username '' @ username @ '' and ID: '' @ itoa_int ID @ '' does not exist'')))
                   | Some v \<Rightarrow> (case json_Unmarshal v of Inl e \<Rightarrow> (zeroUser, Some e) | Inr u \<Rightarrow> (u, None)))))"

definition quota_added :: "int \<Rightarrow> int \<Rightarrow> bool \<Rightarrow> int \<Rightarrow> User \<Rightarrow> User" where
  "quota_added filesAdd sizeAdd reset now user =
     (if reset then user\<lparr>u_UsedQuotaSize := sizeAdd, u_UsedQuotaFiles := filesAdd\<rparr>
      else user\<lparr>u_UsedQuotaSize := wrap64 (u_UsedQuotaSize user + sizeAdd),
                u_UsedQuotaFiles := wrap64 (u_UsedQuotaFiles user + filesAdd)\<rparr>)
       \<lparr>u_LastQuotaUpdate := GetTimeAsMsSinceEpoch now\<rparr>"

definition bolt_updateQuota :: "'d bolt \<Rightarrow> string \<Rightarrow> int \<Rightarrow> int \<Rightarrow> bool \<Rightarrow> int \<Rightarrow> 'd \<Rightarrow> goerr option \<times> 'd" where
  "bolt_updateQuota b username filesAdd sizeAdd reset now =
     bo_Update b (\<lambda>d.
       case getBuckets b d of
         Some e \<Rightarrow> Inl e
       | None \<Rightarrow>
           (case bo_Get b d usersBucket username of
              None \<Rightarrow> Inl (RecordNotFoundError
                (''username '' @ username @ '' does not exist, unable to update quota''))
            | Some v \<Rightarrow>
                (case json_Unmarshal v of
                   Inl e \<Rightarrow> Inl e
                 | Inr user \<Rightarrow>
                     bo_Put b usersBucket username (Doc (user_json (quota_added filesAdd sizeAdd reset now user))) d)))"

definition bolt_getUsedQuota :: "'d bolt \<Rightarrow> string \<Rightarrow> 'd \<Rightarrow> int \<times> int \<times> goerr option" where
  "bolt_getUsedQuota b username d =
     (case bolt_userExists b username d of
        (_, Some e) \<Rightarrow> (0, 0, Some e)
      | (user, None) \<Rightarrow> (u_UsedQuotaFiles user, u_UsedQuotaSize user, None))"

definition bolt_addUser :: "crypto \<Rightarrow> 'd bolt \<Rightarrow> User \<Rightarrow> 'd \<Rightarrow> goerr option \<times> 'd" where
  "bolt_addUser cr b user d =
     (case validateUser cr user of
        Inl e \<Rightarrow> (Some e, d)
      | Inr user \<Rightarrow>
          bo_Update b (\<lambda>d.
            case getBuckets b d of
              Some e \<Rightarrow> Inl e
            | None \<Rightarrow>
                (if bo_Get b d usersBucket (u_Username user) \<noteq> None
                 then Inl (ErrorString (''username '' @ quoted (u_Username user) @ '' already exists''))
                 else case bo_NextSequence b usersBucket d of
                        Inl e \<Rightarrow> Inl e
                      | Inr (i, d) \<Rightarrow>
                          (let user = user\<lparr>u_ID := sint i\<rparr>
                           in case bo_Put b usersBucket (u_Username user) (Doc (user_json user)) d of
                                Inl e \<Rightarrow> Inl e
                              | Inr d \<Rightarrow> bo_Put b usersIDIdxBucket (itob (u_ID user)) (Text (u_Username user)) d))) d)"

definition bolt_updateUser :: "crypto \<Rightarrow> 'd bolt \<Rightarrow> User \<Rightarrow> 'd \<Rightarrow> goerr option \<times> 'd" where
  "bolt_updateUser cr b user d =
     (case validateUser cr user of
        Inl e \<Rightarrow> (Some e, d)
      | Inr user \<Rightarrow>
          bo_Update b (\<lambda>d.
            case getBuckets b d of
              Some e \<Rightarrow> Inl e
            | None \<Rightarrow>
                (if bo_Get b d usersBucket (u_Username user) = None
                 then Inl (RecordNotFoundError (''username '' @ quoted (u_Username user) @ '' does not exist''))
                 else bo_Put b usersBucket (u_Username user) (Doc (user_json user)) d)) d)"

definition bolt_deleteUser :: "'d bolt \<Rightarrow> User \<Rightarrow> 'd \<Rightarrow> goerr option \<times> 'd" where
  "bolt_deleteUser b user =
     bo_Update b (\<lambda>d.
       case getBuckets b d of
         Some e \<Rightarrow> Inl e
       | None \<Rightarrow>
           (case bo_Get b d usersIDIdxBucket (itob (u_ID user)) of
              None \<Rightarrow> Inl (RecordNotFoundError (''user with id '' @ itoa_int (u_ID user) @ '' does not exist''))
            | Some v \<Rightarrow>
                (case bo_Delete b usersBucket (case v of Text s \<Rightarrow> s | Doc _ \<Rightarrow> []) d of
                   Inl e \<Rightarrow> Inl e
                 | Inr d \<Rightarrow> bo_Delete b usersIDIdxBucket (itob (u_ID user)) d)))"

definition getUserNoCredentials :: "User \<Rightarrow> User" where
  "getUserNoCredentials user = user\<lparr>u_Password := [], u_PublicKeys := []\<rparr>"

text \<open>
  The loop of \<open>getUsers\<close> over the records a cursor returns: it skips \<open>offset\<close> of them, leaves out
  a record that does not decode, and stops when \<open>limit\<close> users are collected. The error of the
  last record decoded is the error of the call.
\<close>

fun collect_users :: "int \<Rightarrow> int \<Rightarrow> int \<Rightarrow> dbval list \<Rightarrow> User list \<Rightarrow> goerr option \<Rightarrow> User list \<times> goerr option" where
  "collect_users limit offset itNum [] users err = (users, err)"
| "collect_users limit offset itNum (v # vs) users err =
     (if itNum + 1 \<le> offset then collect_users limit offset (itNum + 1) vs users err
      else (let (users, err) = (case json_Unmarshal v of
                  Inl e \<Rightarrow> (users, Some e)
                | Inr u \<Rightarrow> (users @ [getUserNoCredentials u], None))
            in if int (length users) \<ge> limit then (users, err)
               else collect_users limit offset (itNum + 1) vs users err))"

definition bolt_getUsers :: "'d bolt \<Rightarrow> int \<Rightarrow> int \<Rightarrow> string \<Rightarrow> string \<Rightarrow> 'd \<Rightarrow> User list \<times> goerr option" where
  "bolt_getUsers b limit offset order username d =
     (if username \<noteq> []
      then (if offset = 0
            then (case bolt_userExists b username d of
                    (user, None) \<Rightarrow> ([getUserNoCredentials user], None)
                  | _ \<Rightarrow> ([], None))
            else ([], None))
      else if limit \<le> 0 then ([], None)
      else case getBuckets b d of
             Some e \<Rightarrow> ([], Some e)
           | None \<Rightarrow>
               (let vs = map (\<lambda>k. the (bo_Get b d usersBucket k)) (bo_Keys b d usersBucket)
                in collect_users limit offset 0 (if order = ''ASC'' then vs else rev vs) [] None))"

definition BoltProvider :: "crypto \<Rightarrow> 'd bolt \<Rightarrow> 'd Provider" where
  "BoltProvider cr b =
     \<lparr>p_validateUserAndPass = bolt_validateUserAndPass cr b,
      p_validateUserAndPubKey = bolt_validateUserAndPubKey cr b,
      p_updateQuota = bolt_updateQuota b,
      p_getUsedQuota = bolt_getUsedQuota b,
      p_userExists = bolt_userExists b,
      p_addUser = bolt_addUser cr b,
      p_updateUser = bolt_updateUser cr b,
      p_deleteUser = bolt_deleteUser b,
      p_getUsers = bolt_getUsers b,
      p_getUserByID = bolt_getUserByID b\<rparr>"

end
