(* ===== verification/Serv_Accounts.thy ===== *)
theory Serv_Accounts
  imports Serv_Bolt
begin

text \<open>
  The accounts that a provider keeps, and how the bolt provider keeps them. The locale \<open>bolt_db\<close>
  is what \<^verbatim>\<open>bolt.go\<close> relies on in the store; under it the two buckets implement a map from user
  names to users (\<open>accounts\<close>) in which an identifier names one user (\<open>bolt_ok\<close>), and every
  operation of the provider is an operation on that map. The locale \<open>quota_provider\<close> is what
  the file handlers rely on in a provider; the bolt provider satisfies it.
\<close>

section \<open>What the store promises\<close>

locale bolt_db =
  fixes b :: "'d bolt"
  assumes Put_Get: "bo_Put b n k v d = Inr d' \<Longrightarrow> bo_Get b d' m j = (if m = n \<and> j = k then Some v else bo_Get b d m j)"
    and Put_Bucket: "bo_Put b n k v d = Inr d' \<Longrightarrow> bo_Bucket b d' = bo_Bucket b d"
    and Put_Sequence: "bo_Put b n k v d = Inr d' \<Longrightarrow> bo_Sequence b d' = bo_Sequence b d"
    and Delete_Get: "bo_Delete b n k d = Inr d' \<Longrightarrow> bo_Get b d' m j = (if m = n \<and> j = k then None else bo_Get b d m j)"
    and Delete_Bucket: "bo_Delete b n k d = Inr d' \<Longrightarrow> bo_Bucket b d' = bo_Bucket b d"
    and Delete_Sequence: "bo_Delete b n k d = Inr d' \<Longrightarrow> bo_Sequence b d' = bo_Sequence b d"
    and Next_Get: "bo_NextSequence b n d = Inr (i, d') \<Longrightarrow> bo_Get b d' = bo_Get b d"
    and Next_Bucket: "bo_NextSequence b n d = Inr (i, d') \<Longrightarrow> bo_Bucket b d' = bo_Bucket b d"
    and Next_Sequence: "bo_NextSequence b n d = Inr (i, d') \<Longrightarrow> Suc (bo_Sequence b d n) < 2 ^ 64
          \<Longrightarrow> unat i = Suc (bo_Sequence b d n) \<and> bo_Sequence b d' n = unat i"
    and Keys_Get: "set (bo_Keys b d n) = {k. bo_Get b d n k \<noteq> None}"
    and Keys_sorted: "sorted (bo_Keys b d n) \<and> distinct (bo_Keys b d n)"
    and Update_commit: "bo_Update b fn d = (None, d') \<Longrightarrow> fn d = Inr d'"
    and Update_rollback: "bo_Update b fn d = (Some e, d') \<Longrightarrow> d' = d"

section \<open>Accounts\<close>

type_synonym account_map = "string \<Rightarrow> User option"

definition accounts :: "'d bolt \<Rightarrow> 'd \<Rightarrow> account_map" where
  "accounts b d name =
     (case bo_Get b d usersBucket name of Some (Doc j) \<Rightarrow> json_user j | _ \<Rightarrow> None)"

definition record_ok :: "'d bolt \<Rightarrow> 'd \<Rightarrow> string \<Rightarrow> User \<Rightarrow> bool" where
  "record_ok b d name u \<longleftrightarrow> user_ok u \<and> u_Username u = name \<and> 0 < u_ID u
     \<and> u_ID u \<le> int (bo_Sequence b d usersBucket)
     \<and> bo_Get b d usersIDIdxBucket (itob (u_ID u)) = Some (Text name)"

definition bolt_ok :: "'d bolt \<Rightarrow> 'd \<Rightarrow> bool" where
  "bolt_ok b d \<longleftrightarrow> getBuckets b d = None \<and> bo_Sequence b d usersBucket < 2 ^ 63
     \<and> (\<forall>name v. bo_Get b d usersBucket name = Some v \<longrightarrow> (\<exists>u. v = Doc (user_json u) \<and> record_ok b d name u))
     \<and> (\<forall>k v. bo_Get b d usersIDIdxBucket k = Some v
          \<longrightarrow> (\<exists>name u. v = Text name \<and> accounts b d name = Some u \<and> k = itob (u_ID u)))"

lemma itob_inj:
  assumes "in_int64 i" and "in_int64 j" and "itob i = itob j"
  shows "i = j"
proof -
  have "PutUint64 (word_of_int i) = PutUint64 (word_of_int j)"
    using assms(3) unfolding itob_def by (metis bytes_of_string_of)
  then have "(word_of_int i :: u64) = word_of_int j" by (metis uint64.enc_inj)
  then have "sint (word_of_int i :: u64) = sint (word_of_int j :: u64)" by simp
  then show ?thesis using assms(1,2)
    by (simp add: sint_sbintrunc' signed_take_bit_int_eq_self in_int64_def)
qed

lemma bolt_okI:
  assumes "getBuckets b d = None" and "bo_Sequence b d usersBucket < 2 ^ 63"
    and "\<And>name v. bo_Get b d usersBucket name = Some v \<Longrightarrow> \<exists>u. v = Doc (user_json u) \<and> record_ok b d name u"
    and "\<And>k v. bo_Get b d usersIDIdxBucket k = Some v
          \<Longrightarrow> \<exists>name u. v = Text name \<and> accounts b d name = Some u \<and> k = itob (u_ID u)"
  shows "bolt_ok b d"
  using assms unfolding bolt_ok_def by blast

lemma bolt_okD:
  assumes "bolt_ok b d"
  shows "bo_Get b d usersBucket name = Some v \<Longrightarrow> \<exists>u. v = Doc (user_json u) \<and> record_ok b d name u"
    and "bo_Get b d usersIDIdxBucket k = Some v
          \<Longrightarrow> \<exists>name u. v = Text name \<and> accounts b d name = Some u \<and> k = itob (u_ID u)"
    and "bo_Sequence b d usersBucket < 2 ^ 63"
  using assms unfolding bolt_ok_def by blast+

lemma bolt_ok_buckets: "bolt_ok b d \<Longrightarrow> getBuckets b d = None"
  by (simp add: bolt_ok_def)

lemma accounts_record:
  assumes "bolt_ok b d"
  shows "accounts b d name = Some u \<longleftrightarrow> bo_Get b d usersBucket name = Some (Doc (user_json u)) \<and> record_ok b d name u"
proof
  assume "accounts b d name = Some u"
  then obtain j where j: "bo_Get b d usersBucket name = Some (Doc j)" "json_user j = Some u"
    by (auto simp: accounts_def split: option.splits dbval.splits)
  with assms obtain u' where "j = user_json u'" "record_ok b d name u'" unfolding bolt_ok_def by fastforce
  with j show "bo_Get b d usersBucket name = Some (Doc (user_json u)) \<and> record_ok b d name u"
    by (simp add: json_user_json record_ok_def)
next
  assume "bo_Get b d usersBucket name = Some (Doc (user_json u)) \<and> record_ok b d name u"
  then show "accounts b d name = Some u" by (simp add: accounts_def json_user_json record_ok_def)
qed

lemma accounts_None:
  assumes "bolt_ok b d"
  shows "accounts b d name = None \<longleftrightarrow> bo_Get b d usersBucket name = None"
proof
  assume n: "accounts b d name = None"
  show "bo_Get b d usersBucket name = None"
  proof (rule ccontr)
    assume "bo_Get b d usersBucket name \<noteq> None"
    then obtain u where "bo_Get b d usersBucket name = Some (Doc (user_json u))" "record_ok b d name u"
      using assms unfolding bolt_ok_def by fastforce
    then have "accounts b d name = Some u" using assms by (simp add: accounts_record)
    with n show False by simp
  qed
qed (simp add: accounts_def)

text \<open>An identifier belongs to one user.\<close>

lemma accounts_ID_unique:
  assumes "bolt_ok b d" and "accounts b d n = Some u" and "accounts b d m = Some v" and "u_ID u = u_ID v"
  shows "n = m"
  using assms by (simp add: accounts_record record_ok_def)

lemma userExists_accounts:
  assumes "bolt_ok b d"
  shows "bolt_userExists b name d =
    (case accounts b d name of
       None \<Rightarrow> (zeroUser, Some (RecordNotFoundError (''username  does not exist'')))
     | Some u \<Rightarrow> (u, None))"
proof (cases "accounts b d name")
  case None
  have "bo_Get b d usersBucket name = None" using None by (simp add: accounts_None [OF assms])
  with None show ?thesis using bolt_ok_buckets [OF assms]
    by (simp add: bolt_userExists_def zeroUser_def)
next
  case (Some u)
  have "bo_Get b d usersBucket name = Some (Doc (user_json u))" "user_ok u"
    using Some by (simp_all add: accounts_record [OF assms] record_ok_def)
  with Some show ?thesis using bolt_ok_buckets [OF assms]
    by (simp add: bolt_userExists_def json_Unmarshal_def json_user_json)
qed

lemma getUserByID_accounts:
  assumes "bolt_ok b d" and "accounts b d name = Some u"
  shows "bolt_getUserByID b (u_ID u) d = (u, None)"
  using accounts_record [OF assms(1)] assms(2) bolt_ok_buckets [OF assms(1)]
  by (simp add: bolt_getUserByID_def json_Unmarshal_def json_user_json record_ok_def)

section \<open>The operations on the map of accounts\<close>

text \<open>Changing the record of one user, keeping name and identifier.\<close>

lemma replace_record:
  assumes "bolt_db b" and "bolt_ok b d" and "accounts b d name = Some u"
    and "user_ok u'" and "u_Username u' = name" and "u_ID u' = u_ID u"
    and put: "bo_Put b usersBucket name (Doc (user_json u')) d = Inr d'"
  shows "bolt_ok b d' \<and> accounts b d' = (accounts b d)(name \<mapsto> u') \<and> bo_Sequence b d' = bo_Sequence b d"
proof -
  note laws = bolt_db.Put_Get [OF assms(1) put] bolt_db.Put_Bucket [OF assms(1) put]
    bolt_db.Put_Sequence [OF assms(1) put]
  have acc: "accounts b d' = (accounts b d)(name \<mapsto> u')"
    using assms(4) by (simp add: fun_eq_iff accounts_def laws json_user_json)
  have rec: "record_ok b d name u" using assms(2,3) by (simp add: accounts_record)
  have keep: "record_ok b d' m v" if "record_ok b d m v" for m v
    using that by (simp add: record_ok_def laws)
  have new: "record_ok b d' name u'" using rec assms(4-6) by (simp add: record_ok_def laws)
  have "bolt_ok b d'"
  proof (rule bolt_okI)
    show "getBuckets b d' = None" using bolt_ok_buckets [OF assms(2)] by (simp add: getBuckets_def laws)
    show "bo_Sequence b d' usersBucket < 2 ^ 63" using bolt_okD(3) [OF assms(2)] by (simp add: laws)
  next
    fix m v assume "bo_Get b d' usersBucket m = Some v"
    then show "\<exists>u. v = Doc (user_json u) \<and> record_ok b d' m u"
      using bolt_okD(1) [OF assms(2)] keep new by (cases "m = name") (fastforce simp: laws)+
  next
    fix k v assume "bo_Get b d' usersIDIdxBucket k = Some v"
    then obtain m w where "v = Text m" "accounts b d m = Some w" "k = itob (u_ID w)"
      using bolt_okD(2) [OF assms(2)] by (fastforce simp: laws)
    then show "\<exists>m w. v = Text m \<and> accounts b d' m = Some w \<and> k = itob (u_ID w)"
      using acc assms(3,6) by (cases "m = name") auto
  qed
  with acc show ?thesis by (simp add: laws)
qed

lemma record_ID_range: "record_ok b d name u \<Longrightarrow> in_int64 (u_ID u)"
  by (simp add: record_ok_def user_ok_def)

lemma add_record:
  assumes "bolt_db b" and "bolt_ok b d" and "accounts b d name = None"
    and nx: "bo_NextSequence b usersBucket d = Inr (i, d1)" and room: "Suc (bo_Sequence b d usersBucket) < 2 ^ 63"
    and "user_ok (u\<lparr>u_ID := 0\<rparr>)" and "u_Username u = name" and "u_ID u = sint i"
    and p1: "bo_Put b usersBucket name (Doc (user_json u)) d1 = Inr d2"
    and p2: "bo_Put b usersIDIdxBucket (itob (sint i)) (Text name) d2 = Inr d'"
  shows "bolt_ok b d' \<and> accounts b d' = (accounts b d)(name \<mapsto> u) \<and> u_ID u = int (bo_Sequence b d usersBucket) + 1
    \<and> bo_Sequence b d' usersBucket = Suc (bo_Sequence b d usersBucket)"
proof -
  note laws = bolt_db.Put_Get [OF assms(1) p2] bolt_db.Put_Bucket [OF assms(1) p2] bolt_db.Put_Sequence [OF assms(1) p2]
    bolt_db.Put_Get [OF assms(1) p1] bolt_db.Put_Bucket [OF assms(1) p1] bolt_db.Put_Sequence [OF assms(1) p1]
    bolt_db.Next_Get [OF assms(1) nx] bolt_db.Next_Bucket [OF assms(1) nx]
  have i: "unat i = Suc (bo_Sequence b d usersBucket)" and sq: "bo_Sequence b d' usersBucket = unat i"
    using bolt_db.Next_Sequence [OF assms(1) nx] room laws by auto
  have "sint i = int (unat i)"
    using room i by (simp add: sint_uint uint_nat signed_take_bit_int_eq_self)
  then have ID: "u_ID u = int (bo_Sequence b d usersBucket) + 1" using i assms(8) by simp
  have uok: "user_ok u" using assms(6) ID room by (simp add: user_ok_def in_int64_def)
  have acc: "accounts b d' = (accounts b d)(name \<mapsto> u)"
    using uok by (simp add: fun_eq_iff accounts_def laws json_user_json)
  have other: "itob (u_ID w) \<noteq> itob (sint i)" if "record_ok b d m w" for m w
    using itob_inj [OF record_ID_range [OF that], of "sint i"] that ID assms(8) uok
    by (auto simp: record_ok_def user_ok_def)
  have keep: "record_ok b d' m v" if "record_ok b d m v" for m v
    using that other [OF that] i sq by (simp add: record_ok_def laws)
  have new: "record_ok b d' name u" using uok assms(7,8) ID i sq by (simp add: record_ok_def laws)
  have "bolt_ok b d'"
  proof (rule bolt_okI)
    show "getBuckets b d' = None" using bolt_ok_buckets [OF assms(2)] by (simp add: getBuckets_def laws)
    show "bo_Sequence b d' usersBucket < 2 ^ 63" using sq i room by simp
  next
    fix m v assume "bo_Get b d' usersBucket m = Some v"
    then show "\<exists>u. v = Doc (user_json u) \<and> record_ok b d' m u"
      using bolt_okD(1) [OF assms(2)] keep new by (cases "m = name") (fastforce simp: laws)+
  next
    fix k v assume k: "bo_Get b d' usersIDIdxBucket k = Some v"
    show "\<exists>m w. v = Text m \<and> accounts b d' m = Some w \<and> k = itob (u_ID w)"
    proof (cases "k = itob (sint i)")
      case True
      with k have "v = Text name" by (simp add: laws)
      with True show ?thesis using acc assms(8) by auto
    next
      case False
      with k obtain m w where "v = Text m" "accounts b d m = Some w" "k = itob (u_ID w)"
        using bolt_okD(2) [OF assms(2)] by (fastforce simp: laws)
      then show ?thesis using acc assms(3) by (cases "m = name") auto
    qed
  qed
  with acc ID sq i show ?thesis by simp
qed

lemma delete_record:
  assumes "bolt_db b" and "bolt_ok b d" and "accounts b d name = Some u"
    and d1: "bo_Delete b usersBucket name d = Inr d1"
    and d2: "bo_Delete b usersIDIdxBucket (itob (u_ID u)) d1 = Inr d'"
  shows "bolt_ok b d' \<and> accounts b d' = (accounts b d)(name := None) \<and> bo_Sequence b d' = bo_Sequence b d"
proof -
  note laws = bolt_db.Delete_Get [OF assms(1) d2] bolt_db.Delete_Bucket [OF assms(1) d2]
    bolt_db.Delete_Sequence [OF assms(1) d2]
    bolt_db.Delete_Get [OF assms(1) d1] bolt_db.Delete_Bucket [OF assms(1) d1] bolt_db.Delete_Sequence [OF assms(1) d1]
  have acc: "accounts b d' = (accounts b d)(name := None)"
    by (simp add: fun_eq_iff accounts_def laws)
  have rec: "record_ok b d name u" using assms(3) by (simp add: accounts_record [OF assms(2)])
  have keep: "record_ok b d' m v" if "record_ok b d m v" "m \<noteq> name" for m v
    using that rec by (auto simp: record_ok_def laws)
  have "bolt_ok b d'"
  proof (rule bolt_okI)
    show "getBuckets b d' = None" using bolt_ok_buckets [OF assms(2)] by (simp add: getBuckets_def laws)
    show "bo_Sequence b d' usersBucket < 2 ^ 63" using bolt_okD(3) [OF assms(2)] by (simp add: laws)
  next
    fix m v assume "bo_Get b d' usersBucket m = Some v"
    then show "\<exists>u. v = Doc (user_json u) \<and> record_ok b d' m u"
      using bolt_okD(1) [OF assms(2)] keep by (cases "m = name") (fastforce simp: laws)+
  next
    fix k v assume k: "bo_Get b d' usersIDIdxBucket k = Some v"
    then obtain m w where "v = Text m" "accounts b d m = Some w" "k = itob (u_ID w)" "k \<noteq> itob (u_ID u)"
      using bolt_okD(2) [OF assms(2)] by (fastforce simp: laws split: if_splits)
    then show "\<exists>m w. v = Text m \<and> accounts b d' m = Some w \<and> k = itob (u_ID w)"
      using acc assms(3) by (cases "m = name") auto
  qed
  with acc show ?thesis by (simp add: laws)
qed

section \<open>The operations of the provider\<close>

lemma checked_ID [simp]: "user_ok u \<Longrightarrow> user_ok (u\<lparr>u_ID := 0\<rparr>)"
  by (simp add: user_ok_def in_int64_def)

lemma validateUser_fields:
  assumes "validateUser cr user = Inr u"
  shows "u_Username u = u_Username user \<and> u_ID u = u_ID user \<and> (user_ok user \<longrightarrow> user_ok u)"
  using assms unfolding validateUser_def
  by (auto simp: user_ok_def split: if_splits option.splits sum.splits)

lemma updateQuota_refines:
  assumes "bolt_db b" and "bolt_ok b d"
    and "in_int64 filesAdd" and "in_int64 sizeAdd" and "in_int64 (GetTimeAsMsSinceEpoch now)"
    and upd: "bolt_updateQuota b name filesAdd sizeAdd reset now d = (None, d')"
  shows "\<exists>u. accounts b d name = Some u \<and> bolt_ok b d'
    \<and> accounts b d' = (accounts b d)(name \<mapsto> quota_added filesAdd sizeAdd reset now u)
    \<and> bo_Sequence b d' = bo_Sequence b d"
proof -
  from bolt_db.Update_commit [OF assms(1) upd [unfolded bolt_updateQuota_def]] bolt_ok_buckets [OF assms(2)]
  obtain v u where v: "bo_Get b d usersBucket name = Some v" "json_Unmarshal v = Inr u"
    and put: "bo_Put b usersBucket name (Doc (user_json (quota_added filesAdd sizeAdd reset now u))) d = Inr d'"
    by (auto split: option.splits sum.splits)
  from bolt_okD(1) [OF assms(2) v(1)] v obtain "v = Doc (user_json u)" "record_ok b d name u"
    by (auto simp: json_Unmarshal_def json_user_json record_ok_def)
  with v have u: "accounts b d name = Some u" "user_ok u" "u_Username u = name"
    by (simp_all add: accounts_record [OF assms(2)] record_ok_def)
  have "user_ok (quota_added filesAdd sizeAdd reset now u)"
    using u(2) assms(3-5) wrap64_range by (auto simp: quota_added_def user_ok_def in_int64_def)
  moreover have "u_Username (quota_added filesAdd sizeAdd reset now u) = name"
    "u_ID (quota_added filesAdd sizeAdd reset now u) = u_ID u"
    using u(3) by (simp_all add: quota_added_def)
  ultimately show ?thesis using replace_record [OF assms(1,2) u(1) _ _ _ put] u(1) by blast
qed

lemma addUser_refines:
  assumes "bolt_db b" and "bolt_ok b d" and "user_ok user" and "Suc (bo_Sequence b d usersBucket) < 2 ^ 63"
    and add: "bolt_addUser cr b user d = (None, d')"
  shows "\<exists>u. validateUser cr user = Inr u \<and> accounts b d (u_Username user) = None \<and> bolt_ok b d'
    \<and> accounts b d' = (accounts b d)(u_Username user \<mapsto> u\<lparr>u_ID := int (bo_Sequence b d usersBucket) + 1\<rparr>)
    \<and> bo_Sequence b d' usersBucket = Suc (bo_Sequence b d usersBucket)"
proof -
  from add obtain u where u: "validateUser cr user = Inr u"
    by (auto simp: bolt_addUser_def split: sum.splits)
  note fields = validateUser_fields [OF u]
  from bolt_db.Update_commit [OF assms(1) add [unfolded bolt_addUser_def u, simplified]] bolt_ok_buckets [OF assms(2)]
  obtain i d1 d2 where none: "bo_Get b d usersBucket (u_Username u) = None"
    and nx: "bo_NextSequence b usersBucket d = Inr (i, d1)"
    and p1: "bo_Put b usersBucket (u_Username u) (Doc (user_json (u\<lparr>u_ID := sint i\<rparr>))) d1 = Inr d2"
    and p2: "bo_Put b usersIDIdxBucket (itob (sint i)) (Text (u_Username u)) d2 = Inr d'"
    by (auto simp: Let_def split: option.splits sum.splits if_splits)
  have "accounts b d (u_Username u) = None" using none by (simp add: accounts_None [OF assms(2)])
  from add_record [OF assms(1,2) this nx assms(4) _ _ _ p1 p2] fields assms(3)
  have "bolt_ok b d' \<and> accounts b d' = (accounts b d)(u_Username u \<mapsto> u\<lparr>u_ID := sint i\<rparr>)
    \<and> sint i = int (bo_Sequence b d usersBucket) + 1
    \<and> bo_Sequence b d' usersBucket = Suc (bo_Sequence b d usersBucket)" by (simp add: user_ok_def in_int64_def)
  with u fields \<open>accounts b d (u_Username u) = None\<close> show ?thesis by simp
qed

text \<open>
  The update keeps the map of accounts in order when the record it writes has the identifier
  that the name already has.
\<close>

lemma updateUser_refines:
  assumes "bolt_db b" and "bolt_ok b d" and "user_ok user"
    and old: "accounts b d (u_Username user) = Some v" "u_ID v = u_ID user"
    and upd: "bolt_updateUser cr b user d = (None, d')"
  shows "\<exists>u. validateUser cr user = Inr u \<and> bolt_ok b d' \<and> accounts b d' = (accounts b d)(u_Username user \<mapsto> u)
    \<and> bo_Sequence b d' = bo_Sequence b d"
proof -
  from upd obtain u where u: "validateUser cr user = Inr u"
    by (auto simp: bolt_updateUser_def split: sum.splits)
  note fields = validateUser_fields [OF u]
  from bolt_db.Update_commit [OF assms(1) upd [unfolded bolt_updateUser_def u, simplified]] bolt_ok_buckets [OF assms(2)]
  have put: "bo_Put b usersBucket (u_Username user) (Doc (user_json u)) d = Inr d'"
    using fields by (auto split: option.splits if_splits)
  show ?thesis using replace_record [OF assms(1,2) old(1) _ _ _ put] fields assms(3) old(2) u by simp
qed

lemma deleteUser_refines:
  assumes "bolt_db b" and "bolt_ok b d" and "in_int64 (u_ID user)"
    and del: "bolt_deleteUser b user d = (None, d')"
  shows "\<exists>name u. accounts b d name = Some u \<and> u_ID u = u_ID user \<and> bolt_ok b d'
    \<and> accounts b d' = (accounts b d)(name := None) \<and> bo_Sequence b d' = bo_Sequence b d"
proof -
  from bolt_db.Update_commit [OF assms(1) del [unfolded bolt_deleteUser_def]] bolt_ok_buckets [OF assms(2)]
  obtain v d1 where v: "bo_Get b d usersIDIdxBucket (itob (u_ID user)) = Some v"
    and d1: "bo_Delete b usersBucket (case v of Text s \<Rightarrow> s | Doc _ \<Rightarrow> []) d = Inr d1"
    and d2: "bo_Delete b usersIDIdxBucket (itob (u_ID user)) d1 = Inr d'"
    by (auto split: option.splits sum.splits)
  from bolt_okD(2) [OF assms(2) v] obtain name u where n: "v = Text name" "accounts b d name = Some u"
    "itob (u_ID user) = itob (u_ID u)" by blast
  moreover have "in_int64 (u_ID u)" using n(2) by (auto simp: accounts_record [OF assms(2)] dest: record_ID_range)
  ultimately have "u_ID u = u_ID user" using itob_inj [OF assms(3)] by metis
  moreover have "bo_Delete b usersBucket name d = Inr d1" using d1 n(1) by simp
  moreover have "bo_Delete b usersIDIdxBucket (itob (u_ID u)) d1 = Inr d'" using d2 n(3) by simp
  ultimately show ?thesis using delete_record [OF assms(1,2) n(2)] n(2) by blast
qed

section \<open>The specification and its refinement\<close>

text \<open>
  The contract of the account operations: a map from names to users and the number of users
  ever added, which gives the next identifier.
\<close>

datatype account_op =
    AddAcc User
  | UpdAcc User
  | DelAcc User
  | QuotaAcc string int int bool int

inductive spec_step :: "crypto \<Rightarrow> account_op \<Rightarrow> account_map \<times> nat \<Rightarrow> account_map \<times> nat \<Rightarrow> bool" for cr where
  Add: "validateUser cr u = Inr v \<Longrightarrow> m (u_Username u) = None
        \<Longrightarrow> spec_step cr (AddAcc u) (m, n) (m(u_Username u \<mapsto> v\<lparr>u_ID := int n + 1\<rparr>), Suc n)"
| Upd: "validateUser cr u = Inr v \<Longrightarrow> m (u_Username u) = Some w
        \<Longrightarrow> spec_step cr (UpdAcc u) (m, n) (m(u_Username u \<mapsto> v), n)"
| Del: "m name = Some v \<Longrightarrow> u_ID v = u_ID u \<Longrightarrow> spec_step cr (DelAcc u) (m, n) (m(name := None), n)"
| Quota: "m name = Some v
        \<Longrightarrow> spec_step cr (QuotaAcc name f s r now) (m, n) (m(name \<mapsto> quota_added f s r now v), n)"

fun bolt_step :: "crypto \<Rightarrow> 'd bolt \<Rightarrow> account_op \<Rightarrow> 'd \<Rightarrow> goerr option \<times> 'd" where
  "bolt_step cr b (AddAcc u) d = p_addUser (BoltProvider cr b) u d"
| "bolt_step cr b (UpdAcc u) d = p_updateUser (BoltProvider cr b) u d"
| "bolt_step cr b (DelAcc u) d = p_deleteUser (BoltProvider cr b) u d"
| "bolt_step cr b (QuotaAcc name f s r now) d = p_updateQuota (BoltProvider cr b) name f s r now d"

text \<open>
  The arguments are in the range of their Go types, there is an identifier left, and an update
  carries the identifier of the user it names.
\<close>

fun op_ok :: "'d bolt \<Rightarrow> 'd \<Rightarrow> account_op \<Rightarrow> bool" where
  "op_ok b d (AddAcc u) = (user_ok u \<and> Suc (bo_Sequence b d usersBucket) < 2 ^ 63)"
| "op_ok b d (UpdAcc u) = (user_ok u \<and> (case accounts b d (u_Username u) of None \<Rightarrow> True | Some v \<Rightarrow> u_ID v = u_ID u))"
| "op_ok b d (DelAcc u) = in_int64 (u_ID u)"
| "op_ok b d (QuotaAcc name f s r now) = (in_int64 f \<and> in_int64 s \<and> in_int64 (GetTimeAsMsSinceEpoch now))"

definition bolt_abs :: "'d bolt \<Rightarrow> 'd \<Rightarrow> account_map \<times> nat" where
  "bolt_abs b d = (accounts b d, bo_Sequence b d usersBucket)"

lemma bolt_step_failed:
  assumes "bolt_db b" and "bolt_step cr b opr d = (Some e, d')"
  shows "d' = d"
  using assms(2) bolt_db.Update_rollback [OF assms(1)]
  by (cases opr) (auto simp: BoltProvider_def bolt_addUser_def bolt_updateUser_def bolt_deleteUser_def
      bolt_updateQuota_def split: sum.splits)

lemma updateUser_known:
  assumes "bolt_db b" and "bolt_ok b d" and "bolt_updateUser cr b user d = (None, d')"
  shows "accounts b d (u_Username user) \<noteq> None"
proof -
  from assms(3) obtain u where u: "validateUser cr user = Inr u"
    by (auto simp: bolt_updateUser_def split: sum.splits)
  from bolt_db.Update_commit [OF assms(1) assms(3) [unfolded bolt_updateUser_def u, simplified]]
    bolt_ok_buckets [OF assms(2)] validateUser_fields [OF u]
  show ?thesis by (auto simp: accounts_None [OF assms(2)] split: if_splits)
qed

lemma bolt_step_done:
  assumes "bolt_db b" and "bolt_ok b d" and "op_ok b d opr" and "bolt_step cr b opr d = (None, d')"
  shows "bolt_ok b d' \<and> spec_step cr opr (bolt_abs b d) (bolt_abs b d')"
proof (cases opr)
  case (AddAcc u)
  then show ?thesis using assms(3,4) addUser_refines [OF assms(1,2), of u cr d']
    by (auto simp: BoltProvider_def bolt_abs_def intro: spec_step.Add)
next
  case (UpdAcc u)
  then have upd: "bolt_updateUser cr b u d = (None, d')" using assms(4) by (simp add: BoltProvider_def)
  from updateUser_known [OF assms(1,2) upd] obtain v where v: "accounts b d (u_Username u) = Some v" by blast
  then show ?thesis using UpdAcc assms(3) updateUser_refines [OF assms(1,2) _ v _ upd]
    by (auto simp: bolt_abs_def intro: spec_step.Upd)
next
  case (DelAcc u)
  then have "bolt_deleteUser b u d = (None, d')" "in_int64 (u_ID u)" using assms(3,4) by (simp_all add: BoltProvider_def)
  from deleteUser_refines [OF assms(1,2) this(2,1)] show ?thesis
    using DelAcc by (auto simp: bolt_abs_def intro: spec_step.Del)
next
  case (QuotaAcc name f s r now)
  then show ?thesis using assms(3,4) updateQuota_refines [OF assms(1,2), of f s now name r d']
    by (auto simp: BoltProvider_def bolt_abs_def intro: spec_step.Quota)
qed

section \<open>What the server relies on in a provider\<close>

text \<open>
  \<open>usage\<close> gives the files and bytes recorded for a user. An update that succeeds changes the
  record of that user by the given amounts, or sets it; one that fails changes nothing.
\<close>

locale quota_provider =
  fixes P :: "'p Provider" and ok :: "'p \<Rightarrow> bool" and usage :: "'p \<Rightarrow> string \<Rightarrow> (int \<times> int) option"
  assumes used_known: "ok p \<Longrightarrow> usage p name = Some (n, s) \<Longrightarrow> p_getUsedQuota P name p = (n, s, None)"
    and used_unknown: "ok p \<Longrightarrow> usage p name = None \<Longrightarrow> \<exists>e. p_getUsedQuota P name p = (0, 0, Some e)"
    and update_done: "ok p \<Longrightarrow> in_int64 f \<Longrightarrow> in_int64 s \<Longrightarrow> in_int64 (GetTimeAsMsSinceEpoch now)
          \<Longrightarrow> p_updateQuota P name f s reset now p = (None, p')
          \<Longrightarrow> ok p' \<and> (\<exists>n0 s0. usage p name = Some (n0, s0)
              \<and> usage p' = (usage p)(name \<mapsto> if reset then (f, s) else (wrap64 (n0 + f), wrap64 (s0 + s))))"
    and update_failed: "p_updateQuota P name f s reset now p = (Some e, p') \<Longrightarrow> p' = p"
begin

text \<open>The updates of a sequence that all succeed add up, in 64 bits.\<close>

lemma updates_add_up:
  assumes "ok p" and "usage p name = Some (n0, s0)" and "n0 = wrap64 n0" and "s0 = wrap64 s0"
    and "in_int64 (GetTimeAsMsSinceEpoch now)" and "list_all (\<lambda>(f, s). in_int64 f \<and> in_int64 s) changes"
    and "fold (\<lambda>(f, s) r. Option.bind r (\<lambda>q. let (e, q') = p_updateQuota P name f s False now q in if e = None then Some q' else None))
           changes (Some p) = Some p'"
  shows "ok p' \<and> usage p' name
    = Some (wrap64 (n0 + sum_list (map fst changes)), wrap64 (s0 + sum_list (map snd changes)))"
  using assms
proof (induction changes arbitrary: p n0 s0)
  case Nil
  then show ?case by simp
next
  case (Cons c cs)
  obtain f s where c: "c = (f, s)" by (cases c)
  have stuck: "fold (\<lambda>(f, s) r. Option.bind r (\<lambda>q. let (e, q') = p_updateQuota P name f s False now q in
      if e = None then Some q' else None)) cs None = None" by (induction cs) auto
  from Cons.prems(7) c stuck obtain q where q: "p_updateQuota P name f s False now p = (None, q)"
    by (cases "p_updateQuota P name f s False now p") (auto split: if_splits)
  from update_done [OF Cons.prems(1) _ _ Cons.prems(5) q] Cons.prems(2,6) c
  have "ok q" "usage q name = Some (wrap64 (n0 + f), wrap64 (s0 + s))" by auto
  moreover have "wrap64 (wrap64 i) = wrap64 i" for i using wrap64_add [of i 0] by simp
  ultimately show ?case
    using Cons.IH [of q "wrap64 (n0 + f)" "wrap64 (s0 + s)"] Cons.prems(5-7) c q by (simp add: add.assoc)
qed

end

definition bolt_usage :: "'d bolt \<Rightarrow> 'd \<Rightarrow> string \<Rightarrow> (int \<times> int) option" where
  "bolt_usage b d name = map_option (\<lambda>u. (u_UsedQuotaFiles u, u_UsedQuotaSize u)) (accounts b d name)"

locale bolt_provider = bolt_db b for b :: "'d bolt" +
  fixes cr :: crypto

sublocale bolt_provider \<subseteq> bolt: quota_provider "BoltProvider cr b" "bolt_ok b" "bolt_usage b"
proof unfold_locales
  fix p name n s assume "bolt_ok b p" "bolt_usage b p name = Some (n, s)"
  then show "p_getUsedQuota (BoltProvider cr b) name p = (n, s, None)"
    by (auto simp: BoltProvider_def bolt_getUsedQuota_def bolt_usage_def userExists_accounts)
next
  fix p name assume "bolt_ok b p" "bolt_usage b p name = None"
  then show "\<exists>e. p_getUsedQuota (BoltProvider cr b) name p = (0, 0, Some e)"
    by (auto simp: BoltProvider_def bolt_getUsedQuota_def bolt_usage_def userExists_accounts)
next
  fix p f s now name reset p'
  assume "bolt_ok b p" "in_int64 f" "in_int64 s" "in_int64 (GetTimeAsMsSinceEpoch now)"
    and "p_updateQuota (BoltProvider cr b) name f s reset now p = (None, p')"
  then show "bolt_ok b p' \<and> (\<exists>n0 s0. bolt_usage b p name = Some (n0, s0)
      \<and> bolt_usage b p' = (bolt_usage b p)(name \<mapsto> if reset then (f, s) else (wrap64 (n0 + f), wrap64 (s0 + s))))"
    using updateQuota_refines [OF bolt_db_axioms, of p f s now name reset p']
    by (cases reset) (auto simp: BoltProvider_def bolt_usage_def fun_eq_iff quota_added_def)
next
  fix name f s reset now p e p'
  assume "p_updateQuota (BoltProvider cr b) name f s reset now p = (Some e, p')"
  then show "p' = p" using bolt_step_failed [OF bolt_db_axioms, of cr "QuotaAcc name f s reset now"] by simp
qed

context bolt_provider
begin

lemmas bolt_updates_add_up = bolt.updates_add_up
lemmas bolt_used_known = bolt.used_known

end

section \<open>A store in memory\<close>

text \<open>
  A store that satisfies the contract: the pairs of bucket and key with their values. Both
  buckets exist and no call fails.
\<close>

record memdb =
  md_data :: "((string \<times> string) \<times> dbval) list"
  md_seq :: "string \<Rightarrow> nat"

definition mem_bolt :: "memdb bolt" where
  "mem_bolt =
     \<lparr>bo_Bucket = (\<lambda>_ _. True),
      bo_Get = (\<lambda>d n k. map_of (md_data d) (n, k)),
      bo_Put = (\<lambda>n k v d. Inr (d\<lparr>md_data := AList.update (n, k) v (md_data d)\<rparr>)),
      bo_Delete = (\<lambda>n k d. Inr (d\<lparr>md_data := AList.delete (n, k) (md_data d)\<rparr>)),
      bo_Sequence = md_seq,
      bo_NextSequence = (\<lambda>n d. let i = word_of_nat (Suc (md_seq d n)) in Inr (i, d\<lparr>md_seq := (md_seq d)(n := unat i)\<rparr>)),
      bo_Keys = (\<lambda>d n. sort (remdups (map (snd \<circ> fst) (filter (\<lambda>e. fst (fst e) = n) (md_data d))))),
      bo_Update = (\<lambda>fn d. case fn d of Inl e \<Rightarrow> (Some e, d) | Inr d' \<Rightarrow> (None, d'))\<rparr>"

definition mem_empty :: memdb where
  "mem_empty = \<lparr>md_data = [], md_seq = (\<lambda>_. 0)\<rparr>"

definition plain_crypto :: crypto where
  "plain_crypto =
     \<lparr>cr_CreateHash = (\<lambda>p. Inr (argonPwdPrefix @ p)),
      cr_ComparePasswordAndHash = (\<lambda>p h. Inr (h = argonPwdPrefix @ p)),
      cr_CompareHashAndPassword = (\<lambda>h p. if h = bcryptPwdPrefix @ p then None else Some (ErrorString ''mismatch'')),
      cr_pbkdf2_Key = (\<lambda>p s i n h. bytes_of (p @ s)),
      cr_ParseAuthorizedKey = (\<lambda>k. if k = [] then Inl (ErrorString ''ssh: no key found'') else Inr k)\<rparr>"

lemma unat_Suc_u64: "n < 18446744073709551615 \<Longrightarrow> unat (1 + word_of_nat n :: u64) = Suc n"
proof -
  assume "n < 18446744073709551615"
  then have "unat (word_of_nat (Suc n) :: u64) = Suc n" by (simp add: unat_of_nat del: of_nat_Suc)
  then show ?thesis by simp
qed

interpretation mem: bolt_provider mem_bolt plain_crypto
proof unfold_locales
  fix d :: memdb and n
  have "k \<in> (snd \<circ> fst) ` {e \<in> set (md_data d). fst (fst e) = n} \<longleftrightarrow> map_of (md_data d) (n, k) \<noteq> None" for k
    by (auto simp: map_of_eq_None_iff image_iff) (metis fst_conv snd_conv prod.collapse)+
  then show "set (bo_Keys mem_bolt d n) = {k. bo_Get mem_bolt d n k \<noteq> None}"
    by (auto simp: mem_bolt_def)
qed (auto simp: mem_bolt_def Let_def update_conv delete_conv unat_Suc_u64 split: sum.splits)

lemma mem_empty_ok: "bolt_ok mem_bolt mem_empty"
  by (simp add: bolt_ok_def mem_bolt_def mem_empty_def getBuckets_def)

lemma expire_pages_bolt:
  assumes "int (length (bo_Keys b d usersBucket)) \<le> i + int k" and "0 \<le> i"
  shows "\<exists>del. expire_pages (BoltProvider cr b) unix i d = Some del"
  using assms
proof (induction k arbitrary: i rule: less_induct)
  case (less k)
  have skip: "collect_users limit off n vs us err = (us, err)" if "n + int (length vs) \<le> off" for limit off n vs us err
    using that by (induction limit off n vs us err rule: collect_users.induct) auto
  show ?case
  proof (cases "fst (GetUsers (BoltProvider cr b) 30 i [] [] d) = []")
    case True
    then show ?thesis by (subst expire_pages.simps) (auto simp: case_prod_unfold Let_def)
  next
    case False
    have "\<not> int (length (bo_Keys b d usersBucket)) \<le> i"
    proof
      assume "int (length (bo_Keys b d usersBucket)) \<le> i"
      then have "fst (GetUsers (BoltProvider cr b) 30 i [] [] d) = []"
        by (auto simp: GetUsers_def BoltProvider_def bolt_getUsers_def skip split: option.splits)
      with False show False by simp
    qed
    then have "k - 30 < k" using less.prems(1) by simp
    moreover have "int (length (bo_Keys b d usersBucket)) \<le> i + 30 + int (k - 30)"
      using less.prems(1) by linarith
    ultimately obtain del where "expire_pages (BoltProvider cr b) unix (i + 30) d = Some del"
      using less.IH [of "k - 30" "i + 30"] less.prems(2) by auto
    then show ?thesis by (subst expire_pages.simps) (auto simp: case_prod_unfold Let_def)
  qed
qed

section \<open>Properties\<close>

text \<open>Two accounts in the store in memory.\<close>

definition alice :: User where
  "alice = zeroUser\<lparr>u_Username := ''alice'', u_Password := ''secret'', u_HomeDir := ''/home/alice'',
     u_Permissions := [''list'', ''download'']\<rparr>"

definition bob :: User where
  "bob = zeroUser\<lparr>u_Username := ''bob'', u_Password := ''hunter'', u_HomeDir := ''/home/bob'', u_Permissions := [''*'']\<rparr>"

definition two_users :: memdb where
  "two_users = snd (bolt_addUser plain_crypto mem_bolt bob (snd (bolt_addUser plain_crypto mem_bolt alice mem_empty)))"

lemma user_ok_samples: "user_ok alice" "user_ok bob"
  by (simp_all add: user_ok_def in_int64_def alice_def bob_def zeroUser_def)

lemma validate_samples:
  "validateUser plain_crypto alice = Inr (alice\<lparr>u_Password := ''$argon2id$secret''\<rparr>)"
  "validateUser plain_crypto bob = Inr (bob\<lparr>u_Password := ''$argon2id$hunter''\<rparr>)"
  by code_simp+

lemma add_alice:
  "bolt_addUser plain_crypto mem_bolt alice mem_empty =
     (None, \<lparr>md_data = [((usersBucket, ''alice''), Doc (user_json (alice\<lparr>u_Password := ''$argon2id$secret'', u_ID := 1\<rparr>))),
                         ((usersIDIdxBucket, itob 1), Text ''alice'')], md_seq = (\<lambda>_. 0)(usersBucket := 1)\<rparr>)"
  by (simp add: bolt_addUser_def validate_samples mem_bolt_def mem_empty_def getBuckets_def Let_def)
    (simp add: alice_def zeroUser_def)

lemma alice_added:
  "bolt_ok mem_bolt (snd (bolt_addUser plain_crypto mem_bolt alice mem_empty))"
  "accounts mem_bolt (snd (bolt_addUser plain_crypto mem_bolt alice mem_empty)) ''alice''
     = Some (alice\<lparr>u_Password := ''$argon2id$secret'', u_ID := 1\<rparr>)"
proof -
  have seq: "bo_Sequence mem_bolt mem_empty usersBucket = 0" by (simp add: mem_bolt_def mem_empty_def)
  have name: "u_Username alice = ''alice''" by (simp add: alice_def)
  show "bolt_ok mem_bolt (snd (bolt_addUser plain_crypto mem_bolt alice mem_empty))"
    "accounts mem_bolt (snd (bolt_addUser plain_crypto mem_bolt alice mem_empty)) ''alice''
       = Some (alice\<lparr>u_Password := ''$argon2id$secret'', u_ID := 1\<rparr>)"
    using addUser_refines [OF mem.bolt_db_axioms mem_empty_ok user_ok_samples(1) _ add_alice]
    unfolding add_alice snd_conv by (auto simp: seq validate_samples name)
qed



text \<open>
  C23. A user that was added can be found by name and by the identifier it got, with the fields
  as validated, and is the only user with that name; the other users are as before.
\<close>

theorem added_user_found:
  assumes "bolt_db b" and "bolt_ok b d" and "user_ok user" and "Suc (bo_Sequence b d usersBucket) < 2 ^ 63"
    and "bolt_addUser cr b user d = (None, d')"
  shows "\<exists>u. validateUser cr user = Inr u
    \<and> bolt_userExists b (u_Username user) d' = (u\<lparr>u_ID := int (bo_Sequence b d usersBucket) + 1\<rparr>, None)
    \<and> bolt_getUserByID b (int (bo_Sequence b d usersBucket) + 1) d' = (u\<lparr>u_ID := int (bo_Sequence b d usersBucket) + 1\<rparr>, None)
    \<and> (\<forall>name. name \<noteq> u_Username user \<longrightarrow> bolt_userExists b name d' = bolt_userExists b name d)"
proof -
  from addUser_refines [OF assms] obtain u where u: "validateUser cr user = Inr u" "bolt_ok b d'"
    "accounts b d' = (accounts b d)(u_Username user \<mapsto> u\<lparr>u_ID := int (bo_Sequence b d usersBucket) + 1\<rparr>)" by blast
  then show ?thesis using getUserByID_accounts [OF u(2), of "u_Username user"] assms(2)
    by (auto simp: userExists_accounts)
qed

theorem added_user_found_witness:
  "bolt_getUserByID mem_bolt 1 (snd (bolt_addUser plain_crypto mem_bolt alice mem_empty))
     = (alice\<lparr>u_Password := ''$argon2id$secret'', u_ID := 1\<rparr>, None)"
proof -
  have seq: "bo_Sequence mem_bolt mem_empty usersBucket = 0" by (simp add: mem_bolt_def mem_empty_def)
  then have "Suc (bo_Sequence mem_bolt mem_empty usersBucket) < 2 ^ 63" by simp
  from added_user_found [OF mem.bolt_db_axioms mem_empty_ok user_ok_samples(1) this add_alice]
  show ?thesis unfolding add_alice snd_conv by (simp add: validate_samples seq)
qed

text \<open>
  C24. The quota of a user is the sum of what was reported: after any sequence of updates that
  succeed, the recorded number of files and bytes are those of the beginning plus the sums of
  the changes, in 64-bit arithmetic.
\<close>

theorem quota_sums_changes:
  assumes "bolt_db b" and "bolt_ok b d" and "accounts b d name = Some u"
    and "in_int64 (GetTimeAsMsSinceEpoch now)" and "list_all (\<lambda>(f, s). in_int64 f \<and> in_int64 s) changes"
    and "fold (\<lambda>(f, s) r. Option.bind r (\<lambda>q. let (e, q') = bolt_updateQuota b name f s False now q in if e = None then Some q' else None))
           changes (Some d) = Some d'"
  shows "bolt_getUsedQuota b name d' =
    (wrap64 (u_UsedQuotaFiles u + sum_list (map fst changes)), wrap64 (u_UsedQuotaSize u + sum_list (map snd changes)), None)"
proof -
  have prov: "bolt_provider b" by (simp add: bolt_provider_def assms(1))
  have u: "user_ok u" using assms(3) by (simp add: accounts_record [OF assms(2)] record_ok_def)
  then have "wrap64 (u_UsedQuotaFiles u) = u_UsedQuotaFiles u" "wrap64 (u_UsedQuotaSize u) = u_UsedQuotaSize u"
    by (simp_all add: user_ok_def in_int64_def)
  moreover have "p_updateQuota (BoltProvider cr b) = bolt_updateQuota b"
    "p_getUsedQuota (BoltProvider cr b) = bolt_getUsedQuota b" for cr by (simp_all add: BoltProvider_def)
  moreover have "bolt_usage b d name = Some (u_UsedQuotaFiles u, u_UsedQuotaSize u)" by (simp add: bolt_usage_def assms(3))
  moreover have "bolt_ok b d' \<and> bolt_usage b d' name = Some (wrap64 (u_UsedQuotaFiles u + sum_list (map fst changes)),
      wrap64 (u_UsedQuotaSize u + sum_list (map snd changes)))"
    using bolt_provider.bolt_updates_add_up [OF prov assms(2), where p' = d' and cr = plain_crypto] assms(4-6) calculation by simp
  ultimately show ?thesis using bolt_provider.bolt_used_known [OF prov, where cr = plain_crypto] by simp
qed

theorem quota_sums_changes_witness:
  "\<exists>d'. fold (\<lambda>(f, s) r. Option.bind r (\<lambda>q. let (e, q') = bolt_updateQuota mem_bolt ''alice'' f s False 0 q
        in if e = None then Some q' else None)) [(1, 100), (1, 50), (-1, -100)]
      (Some (snd (bolt_addUser plain_crypto mem_bolt alice mem_empty))) = Some d'
    \<and> bolt_getUsedQuota mem_bolt ''alice'' d' = (1, 50, None)"
proof -
  let ?d = "snd (bolt_addUser plain_crypto mem_bolt alice mem_empty)"
  let ?run = "fold (\<lambda>(f, s) r. Option.bind r (\<lambda>q. let (e, q') = bolt_updateQuota mem_bolt ''alice'' f s False 0 q
        in if e = None then Some q' else None)) [(1, 100), (1, 50), (-1, -100)] (Some ?d)"
  let ?u = "alice\<lparr>u_Password := ''$argon2id$secret'', u_ID := 1\<rparr>"
  note alice_added
  moreover have "\<not> Option.is_none ?run" by code_simp
  moreover have "in_int64 (GetTimeAsMsSinceEpoch 0)" by (simp add: in_int64_def GetTimeAsMsSinceEpoch_def go_div_def)
  ultimately show ?thesis
    using quota_sums_changes [OF mem.bolt_db_axioms, of ?d "''alice''" ?u 0 "[(1, 100), (1, 50), (-1, -100)]"]
    by (auto simp: in_int64_def alice_def zeroUser_def Option.is_none_def)
qed

text \<open>
  What a login proves: a password login that succeeds presented a password, found the user
  in the store, and the stored password is a hash of one of the three supported kinds that
  its checker accepted. A stored password without such a prefix is never accepted.
\<close>

theorem login_checks_hash:
  assumes "bolt_ok b d" and "bolt_validateUserAndPass cr b name password d = (u, None)"
  shows "password \<noteq> [] \<and> accounts b d name = Some u
    \<and> (if prefix argonPwdPrefix (u_Password u) then cr_ComparePasswordAndHash cr password (u_Password u) = Inr True
       else if prefix bcryptPwdPrefix (u_Password u) then cr_CompareHashAndPassword cr (u_Password u) password = None
       else IsStringPrefixInSlice (u_Password u) pbkdfPwdPrefixes
            \<and> comparePbkdf2PasswordAndHash cr password (u_Password u) = Inr True)"
  using assms
  by (auto simp: bolt_validateUserAndPass_def userExists_accounts checkUserAndPass_def Let_def
      split: if_splits option.splits sum.splits)

theorem login_checks_hash_witness:
  "\<exists>u. bolt_validateUserAndPass plain_crypto mem_bolt ''alice'' ''secret''
       (snd (bolt_addUser plain_crypto mem_bolt alice mem_empty)) = (u, None)
     \<and> cr_ComparePasswordAndHash plain_crypto ''secret'' (u_Password u) = Inr True"
proof -
  let ?d = "snd (bolt_addUser plain_crypto mem_bolt alice mem_empty)"
  let ?u = "alice\<lparr>u_Password := ''$argon2id$secret'', u_ID := 1\<rparr>"
  note ok = alice_added(1)
  from alice_added have "bolt_validateUserAndPass plain_crypto mem_bolt ''alice'' ''secret'' ?d = (?u, None)"
    by (simp add: bolt_validateUserAndPass_def userExists_accounts checkUserAndPass_def prefix_defs plain_crypto_def)
  with login_checks_hash [OF ok this] show ?thesis by (auto simp: prefix_defs)
qed

text \<open>
  C29. The expiry job ends: on the bolt provider the loop over the pages of users reaches an
  empty page, so that a run of the job returns, whatever the store holds.
\<close>

theorem expiry_job_ends:
  "\<exists>d'. check_user_expire_once cf (BoltProvider cr b) now d = Some d'"
  using expire_pages_bolt [of b d 0 "length (bo_Keys b d usersBucket)" cr "unix_of now"]
  by (auto simp: check_user_expire_once_def)

text \<open>
  C28. A user accepted by validation has a name, an absolute home directory, at least one
  permission, only known permissions, a way to log in, a password that is empty or hashed, and
  keys that parse. The hash function is assumed to mark its output with its prefix.
\<close>

theorem validated_user:
  assumes "validateUser cr user = Inr u" and "\<And>p h. cr_CreateHash cr p = Inr h \<Longrightarrow> prefix argonPwdPrefix h"
  shows "u_Username u \<noteq> [] \<and> path_IsAbs (u_HomeDir u) \<and> u_Permissions u \<noteq> []
    \<and> list_all (\<lambda>p. perm_kind p \<in> set validPerms) (u_Permissions u)
    \<and> (u_Password u \<noteq> [] \<or> u_PublicKeys u \<noteq> [])
    \<and> (u_Password u = [] \<or> IsStringPrefixInSlice (u_Password u) hashPwdPrefixes)
    \<and> list_all (\<lambda>k. cr_ParseAuthorizedKey cr k \<notin> range Inl) (u_PublicKeys u)"
proof -
  have perms: "list_all (\<lambda>p. perm_kind p \<in> set validPerms) ps" if "check_perms ps = None" for ps
    using that by (induction ps) (auto split: if_splits)
  have keys: "list_all (\<lambda>k. cr_ParseAuthorizedKey cr k \<notin> range Inl) ks" if "check_keys cr i ks = None" for i ks
    using that by (induction cr i ks rule: check_keys.induct) (auto split: sum.splits)
  have "IsStringPrefixInSlice h hashPwdPrefixes" if "cr_CreateHash cr p = Inr h" for p h
    using assms(2) [OF that] by (simp add: hashPwdPrefixes_def)
  moreover have "h \<noteq> []" if "cr_CreateHash cr p = Inr h" for p h
    using assms(2) [OF that] by (auto simp: prefix_defs)
  ultimately show ?thesis using assms(1) perms keys unfolding validateUser_def
    by (auto split: if_splits option.splits sum.splits)
qed

theorem validated_user_witness:
  "path_IsAbs (u_HomeDir alice) \<and> IsStringPrefixInSlice ''$argon2id$secret'' hashPwdPrefixes"
  using validated_user [OF validate_samples(1)] by (auto simp: plain_crypto_def)

text \<open>
  An update can overwrite another account. The REST handler checks only the identifier of
  the record it updates; with the record of alice under the name of bob, the update replaces
  the account of bob, which then has the password of alice and an identifier that leads to alice.
\<close>

theorem update_overwrites_other:
  "let u = (fst (bolt_getUserByID mem_bolt 1 two_users))\<lparr>u_Username := ''bob''\<rparr>;
       r = bolt_updateUser plain_crypto mem_bolt u two_users
   in fst r = None
      \<and> u_Password (fst (bolt_userExists mem_bolt ''bob'' (snd r))) = ''$argon2id$secret''
      \<and> u_Username (fst (bolt_getUserByID mem_bolt (u_ID (fst (bolt_userExists mem_bolt ''bob'' (snd r)))) (snd r))) = ''alice''"
  by code_simp

end
