(* ===== verification/Serv_State.thy ===== *)
theory Serv_State
  imports Serv_Accounts
begin

text \<open>
  The state of the package \<open>serv\<close> and \<^verbatim>\<open>src/serv/sftpd.go\<close>: the open connections, the transfers in
  progress, the quota scans, the idle check and the actions started on events. The package
  variables that are set once at start are the record \<open>settings\<close>; those that change, the file
  tree and the database are the record \<open>serv\<close>. A \<open>*Transfer\<close> is a number that \<open>sv_heap\<close> maps to
  the transfer. The time is \<open>sv_now\<close>, in nanoseconds. The calls hold the package's mutex, so each
  is one step.
\<close>

section \<open>State\<close>

record Connection =
  c_ID :: string
  c_User :: User
  c_ClientVersion :: string
  c_RemoteAddr :: string
  c_StartTime :: int
  c_lastActivity :: int
  c_protocol :: string

datatype transferType = transferUpload | transferDownload
datatype uploadMode = uploadModeStandard | uploadModeAtomic

record Transfer =
  t_file :: os_file
  t_path :: string
  t_start :: int
  t_bytesSent :: int
  t_bytesReceived :: int
  t_user :: User
  t_connectionID :: string
  t_transferType :: transferType
  t_lastActivity :: int
  t_isNewFile :: bool
  t_protocol :: string

record ActiveQuotaScan =
  qs_Username :: string
  qs_StartTime :: int

record Actions =
  ac_ExecuteOn :: "string list"
  ac_Command :: string
  ac_HTTPNotificationURL :: string

record connectionTransfer =
  ct_OperationType :: string
  ct_StartTime :: int
  ct_Size :: int
  ct_LastActivity :: int
  ct_Path :: string

record ConnectionStatus =
  cs_Username :: string
  cs_ConnectionID :: string
  cs_ClientVersion :: string
  cs_RemoteAddress :: string
  cs_ConnectionTime :: int
  cs_LastActivity :: int
  cs_Protocol :: string
  cs_Transfers :: "connectionTransfer list"

text \<open>What the server starts or sends outside: a command with its arguments, a GET with its query.\<close>

datatype event = RunCommand string "string list" | Notify string "(string \<times> string) list"

record 'p settings =
  se_env :: os_env
  se_config :: Config
  se_provider :: "'p Provider"
  se_actions :: Actions
  se_uploadMode :: uploadMode
  se_idleTimeout :: int
  se_url_error :: "string \<Rightarrow> goerr option"
  se_xid :: "nat \<Rightarrow> string"

record 'p serv =
  sv_fs :: fs
  sv_db :: 'p
  sv_openConnections :: "(string \<times> Connection) list"
  sv_heap :: "nat \<Rightarrow> Transfer"
  sv_next :: nat
  sv_activeTransfers :: "nat list"
  sv_activeQuotaScans :: "ActiveQuotaScan list"
  sv_closed :: "string list"
  sv_events :: "event list"
  sv_xids :: nat
  sv_now :: int

definition operationDownload :: string where "operationDownload = ''download''"
definition operationUpload :: string where "operationUpload = ''upload''"
definition operationDelete :: string where "operationDelete = ''delete''"
definition operationRename :: string where "operationRename = ''rename''"
definition protocolSFTP :: string where "protocolSFTP = ''SFTP''"
definition protocolSCP :: string where "protocolSCP = ''SCP''"

section \<open>Connections\<close>

definition addConnection :: "string \<Rightarrow> Connection \<Rightarrow> 'p serv \<Rightarrow> 'p serv" where
  "addConnection i conn w = w\<lparr>sv_openConnections := AList.update i conn (sv_openConnections w)\<rparr>"

definition removeConnection :: "string \<Rightarrow> 'p serv \<Rightarrow> 'p serv" where
  "removeConnection i w = w\<lparr>sv_openConnections := AList.delete i (sv_openConnections w)\<rparr>"

definition updateConnectionActivity :: "string \<Rightarrow> 'p serv \<Rightarrow> 'p serv" where
  "updateConnectionActivity i w =
     (case map_of (sv_openConnections w) i of
        None \<Rightarrow> w
      | Some c \<Rightarrow> w\<lparr>sv_openConnections := AList.update i (c\<lparr>c_lastActivity := sv_now w\<rparr>) (sv_openConnections w)\<rparr>)"

definition getActiveSessions :: "string \<Rightarrow> 'p serv \<Rightarrow> nat" where
  "getActiveSessions username w =
     length (filter (\<lambda>(_, c). u_Username (c_User c) = username) (sv_openConnections w))"

fun closeActive_loop :: "string \<Rightarrow> (string \<times> Connection) list \<Rightarrow> 'p serv \<Rightarrow> bool \<times> 'p serv" where
  "closeActive_loop i [] w = (False, w)"
| "closeActive_loop i ((_, c) # cs) w =
     (if c_ID c = i then (True, w\<lparr>sv_closed := sv_closed w @ [c_ID c]\<rparr>) else closeActive_loop i cs w)"

definition CloseActiveConnection :: "string \<Rightarrow> 'p serv \<Rightarrow> bool \<times> 'p serv" where
  "CloseActiveConnection i w = closeActive_loop i (sv_openConnections w) w"

text \<open>The time since the last activity of a connection or of one of its transfers.\<close>

definition idle_time :: "'p serv \<Rightarrow> Connection \<Rightarrow> int" where
  "idle_time w c =
     foldl (\<lambda>idle t. if t_connectionID (sv_heap w t) = c_ID c \<and> sv_now w - t_lastActivity (sv_heap w t) < idle
                    then sv_now w - t_lastActivity (sv_heap w t) else idle)
       (sv_now w - c_lastActivity c) (sv_activeTransfers w)"

definition CheckIdleConnections :: "'p settings \<Rightarrow> 'p serv \<Rightarrow> 'p serv" where
  "CheckIdleConnections se w =
     foldl (\<lambda>w' (_, c). if idle_time w c > se_idleTimeout se then w'\<lparr>sv_closed := sv_closed w' @ [c_ID c]\<rparr> else w')
       w (sv_openConnections w)"

definition transfer_stats :: "Connection \<Rightarrow> Transfer \<Rightarrow> connectionTransfer" where
  "transfer_stats c t =
     \<lparr>ct_OperationType = (if t_transferType t = transferUpload then operationUpload else operationDownload),
      ct_StartTime = GetTimeAsMsSinceEpoch (t_start t),
      ct_Size = (if t_transferType t = transferUpload then t_bytesReceived t else t_bytesSent t),
      ct_LastActivity = GetTimeAsMsSinceEpoch (t_lastActivity t),
      ct_Path = GetRelativePath (c_User c) (t_path t)\<rparr>"

definition connection_stats :: "'p serv \<Rightarrow> Connection \<Rightarrow> ConnectionStatus" where
  "connection_stats w c =
     foldl (\<lambda>st i. let t = sv_heap w i
                   in if t_connectionID t = c_ID c
                      then (if t_lastActivity t > c_lastActivity c
                            then st\<lparr>cs_LastActivity := GetTimeAsMsSinceEpoch (t_lastActivity t)\<rparr> else st)
                             \<lparr>cs_Transfers := cs_Transfers st @ [transfer_stats c t]\<rparr>
                      else st)
       \<lparr>cs_Username = u_Username (c_User c), cs_ConnectionID = c_ID c, cs_ClientVersion = c_ClientVersion c,
        cs_RemoteAddress = c_RemoteAddr c, cs_ConnectionTime = GetTimeAsMsSinceEpoch (c_StartTime c),
        cs_LastActivity = GetTimeAsMsSinceEpoch (c_lastActivity c), cs_Protocol = c_protocol c, cs_Transfers = []\<rparr>
       (sv_activeTransfers w)"

definition GetConnectionsStats :: "'p serv \<Rightarrow> ConnectionStatus list" where
  "GetConnectionsStats w = map (connection_stats w \<circ> snd) (sv_openConnections w)"

section \<open>Transfers and quota scans\<close>

text \<open>
  Both registries are slices from which an element is removed by moving the last one into its
  place.
\<close>

fun index_where :: "('a \<Rightarrow> bool) \<Rightarrow> 'a list \<Rightarrow> nat option" where
  "index_where P [] = None"
| "index_where P (x # xs) = (if P x then Some 0 else map_option Suc (index_where P xs))"

definition swap_remove :: "nat \<Rightarrow> 'a list \<Rightarrow> 'a list" where
  "swap_remove i xs = take (length xs - 1) (xs[i := xs ! (length xs - 1)])"

definition addTransfer :: "Transfer \<Rightarrow> 'p serv \<Rightarrow> nat \<times> 'p serv" where
  "addTransfer transfer w =
     (sv_next w, w\<lparr>sv_heap := (sv_heap w)(sv_next w := transfer), sv_next := Suc (sv_next w),
                   sv_activeTransfers := sv_activeTransfers w @ [sv_next w]\<rparr>)"

definition removeTransfer :: "nat \<Rightarrow> 'p serv \<Rightarrow> goerr option \<times> 'p serv" where
  "removeTransfer transfer w =
     (case index_where (\<lambda>v. v = transfer) (sv_activeTransfers w) of
        Some i \<Rightarrow> (None, w\<lparr>sv_activeTransfers := swap_remove i (sv_activeTransfers w)\<rparr>)
      | None \<Rightarrow> (Some (ErrorString ''transfer to remove not found''), w))"

definition GetQuotaScans :: "'p serv \<Rightarrow> ActiveQuotaScan list" where
  "GetQuotaScans w = sv_activeQuotaScans w"

definition AddQuotaScan :: "string \<Rightarrow> 'p serv \<Rightarrow> bool \<times> 'p serv" where
  "AddQuotaScan username w =
     (if list_ex (\<lambda>s. qs_Username s = username) (sv_activeQuotaScans w) then (False, w)
      else (True, w\<lparr>sv_activeQuotaScans := sv_activeQuotaScans w
              @ [\<lparr>qs_Username = username, qs_StartTime = GetTimeAsMsSinceEpoch (sv_now w)\<rparr>]\<rparr>))"

definition RemoveQuotaScan :: "string \<Rightarrow> 'p serv \<Rightarrow> goerr option \<times> 'p serv" where
  "RemoveQuotaScan username w =
     (case index_where (\<lambda>s. qs_Username s = username) (sv_activeQuotaScans w) of
        Some i \<Rightarrow> (None, w\<lparr>sv_activeQuotaScans := swap_remove i (sv_activeQuotaScans w)\<rparr>)
      | None \<Rightarrow> (Some (ErrorString (''quota scan to remove not found for user: '' @ username)), w))"

section \<open>Actions\<close>

text \<open>
  The command must be an absolute path that exists. The command and the request run in the
  background; what is recorded is that they were started.
\<close>

definition action_command :: "'p settings \<Rightarrow> string \<Rightarrow> string \<Rightarrow> string \<Rightarrow> string \<Rightarrow> 'p serv \<Rightarrow> goerr option \<times> 'p serv" where
  "action_command se operation username path target w =
     (let cmd = ac_Command (se_actions se)
      in if cmd \<noteq> [] \<and> path_IsAbs cmd
         then (case os_Stat (se_env se) (sv_fs w) cmd of
                 Inl e \<Rightarrow> (Some e, w)
               | Inr _ \<Rightarrow>
                   (case env_op_fault (se_env se) ''exec'' cmd of
                      Some e \<Rightarrow> (Some (PathError ''fork/exec'' cmd (SysErrno e)), w)
                    | None \<Rightarrow> (None, w\<lparr>sv_events := sv_events w
                                 @ [RunCommand cmd [operation, username, path, target]]\<rparr>)))
         else (None, w))"

definition executeAction :: "'p settings \<Rightarrow> string \<Rightarrow> string \<Rightarrow> string \<Rightarrow> string \<Rightarrow> 'p serv \<Rightarrow> goerr option \<times> 'p serv" where
  "executeAction se operation username path target w =
     (if \<not> IsStringInSlice operation (ac_ExecuteOn (se_actions se)) then (None, w)
      else (let (err, w) = action_command se operation username path target w;
                url = ac_HTTPNotificationURL (se_actions se)
            in if url \<noteq> []
               then (case se_url_error se url of
                       None \<Rightarrow> (None, w\<lparr>sv_events := sv_events w
                           @ [Notify url ([(''action'', operation), (''username'', username), (''path'', path)]
                                @ (if target \<noteq> [] then [(''target_path'', target)] else []))]\<rparr>)
                     | Some e \<Rightarrow> (Some e, w))
               else (err, w)))"

section \<open>Lemmas on the registries\<close>

lemma index_where_Some:
  "index_where P xs = Some i \<Longrightarrow> i < length xs \<and> P (xs ! i) \<and> (\<forall>j < i. \<not> P (xs ! j))"
proof (induction xs arbitrary: i)
  case (Cons x xs)
  then show ?case by (cases i) (auto simp: less_Suc_eq_0_disj split: if_splits)
qed simp

lemma index_where_None: "index_where P xs = None \<longleftrightarrow> (\<forall>x \<in> set xs. \<not> P x)"
  by (induction xs) auto

lemma mset_swap_remove:
  assumes "i < length xs"
  shows "mset (swap_remove i xs) = mset xs - {#xs ! i#}"
proof -
  obtain ys z where xs: "xs = ys @ [z]" using assms by (cases xs rule: rev_cases) auto
  show ?thesis
  proof (cases "i = length ys")
    case True
    then show ?thesis using xs by (simp add: swap_remove_def)
  next
    case False
    with assms xs have i: "i < length ys" by simp
    then have "swap_remove i xs = ys[i := z]" using xs by (simp add: swap_remove_def nth_append list_update_append)
    then show ?thesis using xs i by (simp add: mset_update nth_append)
  qed
qed

end
