(* ===== verification/Serv_Paths.thy ===== *)
theory Serv_Paths
  imports Serv_State
begin

text \<open>
  The path checks of \<^verbatim>\<open>src/serv/filehandler.go\<close>: \<open>buildPath\<close> maps a path of the client into the
  home directory of the user and refuses one that leads out of it, and \<open>createMissingDirs\<close>
  makes the directories above a new file. The lemmas say where in the tree the accepted
  paths lead.
\<close>

section \<open>Operations\<close>

definition isSubDir :: "os_env \<Rightarrow> fs \<Rightarrow> Connection \<Rightarrow> string \<Rightarrow> goerr option" where
  "isSubDir env f c sub =
     (case EvalSymlinks env f (u_HomeDir (c_User c)) of
        Inl e \<Rightarrow> Some e
      | Inr parent \<Rightarrow>
          (if \<not> prefix parent sub then Some (ErrorString (''dir '' @ sub @ '' is not inside: '' @ parent)) else None))"

text \<open>
  The loop goes up while the parent does not exist. Going up makes the path shorter until it
  is the root, which exists, or \<open>.\<close>.
\<close>

definition path_size :: "string \<Rightarrow> nat" where
  "path_size p = (if p = dot then 0 else length p)"

function nonexistent_loop :: "os_env \<Rightarrow> fs \<Rightarrow> string \<Rightarrow> string list \<times> string \<times> goerr option" where
  "nonexistent_loop env f parent =
     (case os_Stat env f parent of
        Inr _ \<Rightarrow> ([], parent, None)
      | Inl e \<Rightarrow>
          (if os_IsNotExist e \<and> path_size (path_Dir parent) < path_size parent
           then (let (results, p, err) = nonexistent_loop env f (path_Dir parent) in (parent # results, p, err))
           else ([], parent, Some e)))"
  by pat_completeness auto
termination by (relation "measure (\<lambda>(_, _, p). path_size p)") auto

declare nonexistent_loop.simps [simp del]

definition findNonexistentDirs :: "os_env \<Rightarrow> fs \<Rightarrow> Connection \<Rightarrow> string \<Rightarrow> string list \<times> goerr option" where
  "findNonexistentDirs env f c path =
     (let cleanPath = path_Clean path;
          (results, parent, err) = nonexistent_loop env f (path_Dir cleanPath)
      in case err of
           Some e \<Rightarrow> (results, Some e)
         | None \<Rightarrow> (case EvalSymlinks env f parent of
                      Inl e \<Rightarrow> (results, Some e)
                    | Inr p \<Rightarrow> (results, isSubDir env f c p)))"

definition findFirstExistingDir :: "os_env \<Rightarrow> fs \<Rightarrow> Connection \<Rightarrow> string \<Rightarrow> goerr + string" where
  "findFirstExistingDir env f c path =
     (case findNonexistentDirs env f c path of
        (_, Some e) \<Rightarrow> Inl e
      | (results, None) \<Rightarrow>
          (let parent = (if results \<noteq> [] then path_Dir (last results) else GetHomeDir (c_User c))
           in case EvalSymlinks env f parent of
                Inl e \<Rightarrow> Inl e
              | Inr p \<Rightarrow>
                  (case os_Stat env f p of
                     Inl e \<Rightarrow> Inl e
                   | Inr fileInfo \<Rightarrow>
                       (if \<not> fi_IsDir fileInfo then Inl (ErrorString (''resolved path is not a dir: '' @ p))
                        else case isSubDir env f c p of Some e \<Rightarrow> Inl e | None \<Rightarrow> Inr p))))"

definition buildPath :: "os_env \<Rightarrow> fs \<Rightarrow> Connection \<Rightarrow> string \<Rightarrow> goerr + string" where
  "buildPath env f c rawPath =
     (let r = path_Clean (path_Join [u_HomeDir (c_User c), rawPath])
      in case EvalSymlinks env f r of
           Inl e \<Rightarrow>
             (if \<not> os_IsNotExist e then Inl e
              else case findFirstExistingDir env f c r of Inl e \<Rightarrow> Inl e | Inr _ \<Rightarrow> Inr r)
         | Inr p \<Rightarrow> (case isSubDir env f c p of Some e \<Rightarrow> Inl e | None \<Rightarrow> Inr r))"

fun make_dirs :: "os_env \<Rightarrow> User \<Rightarrow> string list \<Rightarrow> fs \<Rightarrow> goerr option \<times> fs" where
  "make_dirs env u [] f = (None, f)"
| "make_dirs env u (d # ds) f =
     (case os_Mkdir env f d 0x1FF of
        (Some e, f) \<Rightarrow> (Some e, f)
      | (None, f) \<Rightarrow> make_dirs env u ds (SetPathPermissions env d (GetUID u) (GetGID u) f))"

definition createMissingDirs :: "os_env \<Rightarrow> Connection \<Rightarrow> string \<Rightarrow> fs \<Rightarrow> goerr option \<times> fs" where
  "createMissingDirs env c filePath f =
     (case findNonexistentDirs env f c filePath of
        (_, Some e) \<Rightarrow> (Some e, f)
      | (dirsToCreate, None) \<Rightarrow> make_dirs env (c_User c) (rev dirsToCreate) f)"

definition getUploadTempFilePath :: "string \<Rightarrow> string \<Rightarrow> string" where
  "getUploadTempFilePath guid path =
     path_Join [path_Dir path, ''.sftpgo-upload.'' @ guid @ ''.'' @ path_Base path]"

section \<open>Locations inside the home directory\<close>

definition inside :: "string \<Rightarrow> loc \<Rightarrow> bool" where
  "inside home l \<longleftrightarrow> prefix home (make_path True l)"

lemma prefix_join: "prefix (join_with c xs) (join_with c (xs @ ys))"
  by (induction xs rule: induct_list012) (auto simp: prefix_def, cases ys, auto)

lemma inside_append: "inside home l \<Longrightarrow> inside home (l @ k)"
  unfolding inside_def by (erule prefix_order.trans) (simp add: make_path_def prefix_join)

lemma inside_prefix: "inside home l \<Longrightarrow> prefix l k \<Longrightarrow> inside home k"
  by (auto simp: prefix_def intro: inside_append)

lemma isSubDir_inside:
  "isSubDir env f c (make_path True l) = None \<Longrightarrow> \<exists>h. EvalSymlinks env f (u_HomeDir (c_User c)) = Inr h \<and> inside h l"
  by (auto simp: isSubDir_def inside_def split: sum.splits if_splits)

lemma buildPath_clean:
  assumes "path_IsAbs (u_HomeDir (c_User c))" and "buildPath env f c raw = Inr r"
  shows "\<exists>es. list_all name_ok es \<and> r = make_path True es"
proof -
  let ?p = "path_Join [u_HomeDir (c_User c), raw]"
  have "r = path_Clean ?p" using assms(2) by (auto simp: buildPath_def Let_def split: sum.splits option.splits if_splits)
  moreover have "path_IsAbs ?p" using assms(1) by (rule Join_abs)
  ultimately show ?thesis using rooted_elems [of ?p] by (auto simp: path_Clean_def)
qed

lemma Stat_make_path:
  assumes "list_all name_ok es" and "reaches f kernel_links True [] es d" and "at f d \<noteq> None"
  shows "case os_Stat env f (make_path True es) of
      Inr _ \<Rightarrow> lookup_fault env (make_path True es) = None
    | Inl e \<Rightarrow> \<not> os_IsNotExist e"
  using assms
  by (auto simp: os_Stat_def stat_with_def resolve_make_path reaches_iff [symmetric] lookup_fault_def os_IsNotExist_def
      underlyingError_def split: option.splits if_splits)

text \<open>
  Where an accepted path leads. When the entry at its end is not a link, or the links are
  followed to an existing entry, that entry is inside the home directory.
\<close>

lemma buildPath_followed:
  assumes "path_IsAbs (u_HomeDir (c_User c))" and "buildPath env f c raw = Inr r"
    and "resolve env f True r = Inr l" and "at f l \<noteq> None"
  shows "\<exists>h. EvalSymlinks env f (u_HomeDir (c_User c)) = Inr h \<and> inside h l"
proof -
  obtain es where es: "list_all name_ok es" "r = make_path True es" using buildPath_clean [OF assms(1,2)] by blast
  have "EvalSymlinks env f r = Inr (make_path True l)"
    using EvalSymlinks_resolve es assms(3,4) by blast
  then have "isSubDir env f c (make_path True l) = None"
    using assms(2) by (auto simp: buildPath_def Let_def split: sum.splits option.splits if_splits)
  then show ?thesis by (rule isSubDir_inside)
qed

lemma parent_checked:
  assumes "list_all name_ok (xs @ [x])" and "reaches f kernel_links True [] xs d" and "at f d \<noteq> None"
    and "findNonexistentDirs env f c (make_path True (xs @ [x])) = (results, None)"
  shows "results = [] \<and> (\<exists>h. EvalSymlinks env f (u_HomeDir (c_User c)) = Inr h \<and> inside h d)"
proof -
  let ?p = "make_path True xs"
  have ok: "list_all name_ok xs" using assms(1) by simp
  have dir: "path_Dir (path_Clean (make_path True (xs @ [x]))) = ?p" using assms(1) path_Dir_make_path by simp
  obtain fi where st: "os_Stat env f ?p = Inr fi"
  proof (cases "os_Stat env f ?p")
    case (Inl e)
    then have "\<not> os_IsNotExist e" using Stat_make_path [OF ok assms(2,3), of env] by simp
    then have "nonexistent_loop env f ?p = ([], ?p, Some e)" using Inl by (simp add: nonexistent_loop.simps [of env f ?p])
    then show ?thesis using assms(4) dir by (simp add: findNonexistentDirs_def)
  qed
  then have loop: "nonexistent_loop env f ?p = ([], ?p, None)" by (simp add: nonexistent_loop.simps [of env f ?p])
  have "lookup_fault env ?p = None" using Stat_make_path [OF ok assms(2,3), of env] st by simp
  then have "resolve env f True ?p = Inr d" using assms(2) by (simp add: resolve_make_path [OF ok] reaches_iff)
  then have "EvalSymlinks env f ?p = Inr (make_path True d)" using EvalSymlinks_resolve [OF ok] assms(3) by blast
  then have "isSubDir env f c (make_path True d) = None" "results = []"
    using assms(4) dir loop by (auto simp: findNonexistentDirs_def)
  then show ?thesis using isSubDir_inside by blast
qed

lemma buildPath_missing:
  assumes "list_all name_ok es" and "buildPath env f c raw = Inr (make_path True es)"
    and "resolve env f False (make_path True es) = Inr l" and "at f l = None"
  shows "\<exists>results. findNonexistentDirs env f c (make_path True es) = (results, None)"
proof -
  have r: "reaches f kernel_links False [] es l" and nf: "lookup_fault env (make_path True es) = None"
    using assms(3) by (auto simp: resolve_make_path [OF assms(1)] reaches_iff split: option.splits)
  from reaches_follow [OF r] assms(4) have "reaches f kernel_links True [] es l" by (simp add: is_link_def)
  then have "reaches f eval_links True [] es l"
    by (rule reaches_more_links) (simp add: kernel_links_def eval_links_def)
  then have "EvalSymlinks env f (make_path True es) = Inl (PathError ''lstat'' (make_path True es) (SysErrno ENOENT))"
    using nf assms(4) by (simp add: EvalSymlinks_make_path [OF assms(1)] reaches_iff [symmetric])
  moreover have "path_Clean (path_Join [u_HomeDir (c_User c), raw]) = make_path True es"
    using assms(2) by (auto simp: buildPath_def Let_def split: sum.splits option.splits if_splits)
  ultimately obtain p where "findFirstExistingDir env f c (make_path True es) = Inr p"
    using assms(2) by (auto simp: buildPath_def Let_def split: sum.splits)
  then show ?thesis by (auto simp: findFirstExistingDir_def split: prod.splits option.splits)
qed

lemma buildPath_confined:
  assumes "path_IsAbs (u_HomeDir (c_User c))" and "buildPath env f c raw = Inr r"
    and "resolve env f False r = Inr l" and "\<not> is_link (at f l)"
  shows "\<exists>h. EvalSymlinks env f (u_HomeDir (c_User c)) = Inr h \<and> inside h l"
proof -
  obtain es where es: "list_all name_ok es" "r = make_path True es" using buildPath_clean [OF assms(1,2)] by blast
  have r: "reaches f kernel_links False [] es l" and nf: "lookup_fault env r = None"
    using assms(3) es by (auto simp: resolve_make_path reaches_iff split: option.splits)
  show ?thesis
  proof (cases "at f l = None")
    case False
    from reaches_follow [OF r assms(4)] have "resolve env f True r = Inr l"
      using es nf by (simp add: resolve_make_path reaches_iff)
    then show ?thesis using buildPath_followed [OF assms(1,2)] False by blast
  next
    case True
    have "es \<noteq> []" using r True by (auto elim: reaches.cases)
    then obtain xs x where xs: "es = xs @ [x]" by (cases es rule: rev_cases) auto
    then have "name_ok x" using es by simp
    from reaches_last [OF r [unfolded xs] name_plain [OF this]] obtain d m where
      d: "reaches f kernel_links True [] xs d" "at f d = Some (Dir m)" "l = d @ [x]" by auto
    from buildPath_missing [OF es(1) _ _ True] assms(2,3) es(2) obtain results where
      "findNonexistentDirs env f c (make_path True (xs @ [x])) = (results, None)" using xs by blast
    from parent_checked [OF _ d(1) _ this] es(1) xs d(2) obtain h where
      "EvalSymlinks env f (u_HomeDir (c_User c)) = Inr h" "inside h d" by auto
    then show ?thesis using d(3) inside_append by blast
  qed
qed

end
