(* ===== verification/Serv_Files.thy ===== *)
theory Serv_Files
  imports Serv_Paths Sftp_Request
begin

text \<open>
  The file handlers of a connection, \<^verbatim>\<open>src/serv/filehandler.go\<close>, with the transfers of
  \<^verbatim>\<open>src/serv/transfer.go\<close> and the listings of \<^verbatim>\<open>src/serv/lister.go\<close>. The handlers run under the
  lock of the connection; log lines are left out.
\<close>

type_synonym srequest = "(nat, fileInfo list) Request"

definition on_fs :: "('a \<times> fs) \<Rightarrow> 'p serv \<Rightarrow> 'a \<times> 'p serv" where
  "on_fs r w = (fst r, w\<lparr>sv_fs := snd r\<rparr>)"

definition set_permissions :: "'p settings \<Rightarrow> Connection \<Rightarrow> string \<Rightarrow> 'p serv \<Rightarrow> 'p serv" where
  "set_permissions se c path w =
     w\<lparr>sv_fs := SetPathPermissions (se_env se) path (GetUID (c_User c)) (GetGID (c_User c)) (sv_fs w)\<rparr>"

definition update_quota :: "'p settings \<Rightarrow> User \<Rightarrow> int \<Rightarrow> int \<Rightarrow> 'p serv \<Rightarrow> 'p serv" where
  "update_quota se user files bytes w =
     w\<lparr>sv_db := snd (UpdateUserQuota (se_config se) (se_provider se) user files bytes False (sv_now w) (sv_db w))\<rparr>"

definition action :: "'p settings \<Rightarrow> string \<Rightarrow> User \<Rightarrow> string \<Rightarrow> string \<Rightarrow> 'p serv \<Rightarrow> 'p serv" where
  "action se operation user path target w = snd (executeAction se operation (u_Username user) path target w)"

section \<open>Transfers\<close>

definition new_transfer :: "Connection \<Rightarrow> os_file \<Rightarrow> string \<Rightarrow> transferType \<Rightarrow> bool \<Rightarrow> int \<Rightarrow> Transfer" where
  "new_transfer c fl path ty isNew now =
     \<lparr>t_file = fl, t_path = path, t_start = now, t_bytesSent = 0, t_bytesReceived = 0, t_user = c_User c,
      t_connectionID = c_ID c, t_transferType = ty, t_lastActivity = now, t_isNewFile = isNew,
      t_protocol = c_protocol c\<rparr>"

definition set_transfer :: "nat \<Rightarrow> Transfer \<Rightarrow> 'p serv \<Rightarrow> 'p serv" where
  "set_transfer i t w = w\<lparr>sv_heap := (sv_heap w)(i := t)\<rparr>"

text \<open>\<open>handleThrottle\<close> sleeps until the transfer is as old as its bandwidth asks for.\<close>

definition throttle_ms :: "Transfer \<Rightarrow> int \<Rightarrow> int" where
  "throttle_ms t now =
     (let wanted = (if t_transferType t = transferDownload then u_DownloadBandwidth (t_user t)
                    else u_UploadBandwidth (t_user t));
          transferred = (if t_transferType t = transferDownload then t_bytesSent t else t_bytesReceived t)
      in if wanted > 0
         then (let realElapsed = go_div (now - t_start t) 1000000;
                   wantedElapsed = go_div (wrap64 (1000 * go_div transferred 1000)) wanted
               in if wantedElapsed > realElapsed then wantedElapsed - realElapsed else 0)
         else 0)"

definition handleThrottle :: "nat \<Rightarrow> 'p serv \<Rightarrow> 'p serv" where
  "handleThrottle i w = w\<lparr>sv_now := sv_now w + throttle_ms (sv_heap w i) (sv_now w) * 1000000\<rparr>"

definition Transfer_ReadAt :: "'p settings \<Rightarrow> nat \<Rightarrow> nat \<Rightarrow> int \<Rightarrow> 'p serv \<Rightarrow> (bytes \<times> goerr option) \<times> 'p serv" where
  "Transfer_ReadAt se i n off w =
     (let t = (sv_heap w i)\<lparr>t_lastActivity := sv_now w\<rparr>;
          (b, e) = file_ReadAt (se_env se) (sv_fs w) (t_file t) n off;
          t = t\<lparr>t_bytesSent := wrap64 (t_bytesSent t + int (length b))\<rparr>
      in ((b, e), handleThrottle i (set_transfer i t w)))"

definition Transfer_WriteAt :: "'p settings \<Rightarrow> nat \<Rightarrow> bytes \<Rightarrow> int \<Rightarrow> 'p serv \<Rightarrow> (nat \<times> goerr option) \<times> 'p serv" where
  "Transfer_WriteAt se i b off w =
     (let t = (sv_heap w i)\<lparr>t_lastActivity := sv_now w\<rparr>;
          ((written, e), f) = file_WriteAt (se_env se) (sv_fs w) (t_file t) b off;
          t = t\<lparr>t_bytesReceived := wrap64 (t_bytesReceived t + int written)\<rparr>
      in ((written, e), handleThrottle i (set_transfer i t (w\<lparr>sv_fs := f\<rparr>))))"

definition Transfer_Close :: "'p settings \<Rightarrow> nat \<Rightarrow> 'p serv \<Rightarrow> goerr option \<times> 'p serv" where
  "Transfer_Close se i w =
     (let t = sv_heap w i;
          (err, fl) = file_Close (se_env se) (t_file t);
          w = set_transfer i (t\<lparr>t_file := fl\<rparr>) w;
          (err, w) = (if t_transferType t = transferUpload \<and> fl_Name fl \<noteq> t_path t
                      then on_fs (os_Rename (se_env se) (sv_fs w) (fl_Name fl) (t_path t)) w
                      else (err, w));
          w = (if t_transferType t = transferDownload then action se operationDownload (t_user t) (t_path t) [] w
               else action se operationUpload (t_user t) (t_path t) [] w);
          w = snd (removeTransfer i w);
          w = (if t_transferType t = transferUpload
               then update_quota se (t_user t) (if t_isNewFile t then 1 else 0) (t_bytesReceived t) w
               else w)
      in (err, w))"

section \<open>Listings\<close>

text \<open>
  \<open>sftpFileInfo\<close> replaces the result of \<open>Sys()\<close>; the names of users and groups come from the
  system's databases, the arguments \<open>unames\<close> and \<open>gnames\<close>.
\<close>

definition sftpFileInfo :: "(u32 \<Rightarrow> string option) \<Rightarrow> (u32 \<Rightarrow> string option) \<Rightarrow> fileInfo \<Rightarrow> fileInfo" where
  "sftpFileInfo unames gnames fi =
     (case fi_sys fi of
        SysStat_t nlink uid gid \<Rightarrow>
          fi\<lparr>fi_sys := SysSftpFileAttr
               \<lparr>at_Nlink = nlink, at_Uid = uid, at_Gid = gid,
                at_Uname = (case unames uid of None \<Rightarrow> ''[unknown]'' | Some n \<Rightarrow> n),
                at_Gname = (case gnames gid of None \<Rightarrow> ''[unknown]'' | Some n \<Rightarrow> n)\<rparr>\<rparr>
      | _ \<Rightarrow> fi)"

text \<open>A negative offset is out of the range of the slice.\<close>

definition listerAt_ListAt :: "(u32 \<Rightarrow> string option) \<Rightarrow> (u32 \<Rightarrow> string option) \<Rightarrow> fileInfo list \<Rightarrow> nat \<Rightarrow> int
    \<Rightarrow> (fileInfo list \<times> goerr option) option" where
  "listerAt_ListAt unames gnames l n offset =
     (if offset \<ge> int (length l) then Some ([], Some IoEOF)
      else if offset < 0 then None
      else (let maxlen = min (nat offset + n) (length l);
                r = map (sftpFileInfo unames gnames) (take (maxlen - nat offset) (drop (nat offset) l))
            in Some (r, if length r < n then Some IoEOF else None)))"

section \<open>Reading and writing files\<close>

definition hasSpace :: "'p settings \<Rightarrow> Connection \<Rightarrow> bool \<Rightarrow> 'p serv \<Rightarrow> bool" where
  "hasSpace se c checkFiles w =
     (let u = c_User c
      in if (checkFiles \<and> u_QuotaFiles u > 0) \<or> u_QuotaSize u > 0
         then (case GetUsedQuota (se_config se) (se_provider se) (u_Username u) (sv_db w) of
                 (numFile, bytes, err) \<Rightarrow>
                   (case err of
                      Some (MethodDisabledError _) \<Rightarrow> True
                    | Some _ \<Rightarrow> False
                    | None \<Rightarrow>
                        \<not> ((checkFiles \<and> u_QuotaFiles u > 0 \<and> numFile \<ge> u_QuotaFiles u)
                           \<or> (u_QuotaSize u > 0 \<and> bytes \<ge> u_QuotaSize u))))
         else True)"

text \<open>
  The size is stored into a copy of the attributes and is lost; when \<open>os.Stat\<close> failed for another
  reason than a missing file, and the file opens all the same, the code dereferences nil.
\<close>

definition Connection_Fileread :: "'p settings \<Rightarrow> Connection \<Rightarrow> srequest \<Rightarrow> 'p serv \<Rightarrow> ((goerr + nat) \<times> 'p serv) option" where
  "Connection_Fileread se c request w =
     (let w = updateConnectionActivity (c_ID c) w
      in if \<not> HasPerm (c_User c) PermDownload then Some (Inl ErrSSHFxPermissionDenied, w)
         else case buildPath (se_env se) (sv_fs w) c (rq_Filepath request) of
                Inl _ \<Rightarrow> Some (Inl ErrSSHFxNoSuchFile, w)
              | Inr p \<Rightarrow>
                  (let st1 = os_Stat (se_env se) (sv_fs w) p
                   in case st1 of
                        Inl e \<Rightarrow>
                          (if os_IsNotExist e then Some (Inl ErrSSHFxNoSuchFile, w)
                           else case os_Open (se_env se) (sv_fs w) p of
                                  (Inl _, f) \<Rightarrow> Some (Inl ErrSSHFxFailure, w\<lparr>sv_fs := f\<rparr>)
                                | (Inr _, _) \<Rightarrow> None)
                      | Inr _ \<Rightarrow>
                          (case os_Open (se_env se) (sv_fs w) p of
                             (Inl _, f) \<Rightarrow> Some (Inl ErrSSHFxFailure, w\<lparr>sv_fs := f\<rparr>)
                           | (Inr fl, f) \<Rightarrow>
                               (let (i, w) = addTransfer (new_transfer c fl p transferDownload False (sv_now w)) (w\<lparr>sv_fs := f\<rparr>)
                                in Some (Inr i, w)))))"

definition handleSFTPUploadToNewFile :: "'p settings \<Rightarrow> Connection \<Rightarrow> string \<Rightarrow> string \<Rightarrow> 'p serv
    \<Rightarrow> (goerr + nat) \<times> 'p serv" where
  "handleSFTPUploadToNewFile se c requestPath filePath w =
     (if \<not> hasSpace se c True w then (Inl ErrSSHFxFailure, w)
      else if (case os_Stat (se_env se) (sv_fs w) (path_Dir requestPath) of Inl e \<Rightarrow> os_IsNotExist e | Inr _ \<Rightarrow> False)
              \<and> \<not> HasPerm (c_User c) PermCreateDirs
      then (Inl ErrSSHFxPermissionDenied, w)
      else case on_fs (createMissingDirs (se_env se) c requestPath (sv_fs w)) w of
             (Some _, w) \<Rightarrow> (Inl ErrSSHFxFailure, w)
           | (None, w) \<Rightarrow>
               (case on_fs (os_Create (se_env se) (sv_fs w) filePath) w of
                  (Inl _, w) \<Rightarrow> (Inl ErrSSHFxFailure, w)
                | (Inr fl, w) \<Rightarrow>
                    (let w = set_permissions se c filePath w;
                         (i, w) = addTransfer (new_transfer c fl requestPath transferUpload True (sv_now w)) w
                     in (Inr i, w))))"

definition getOSOpenFlags :: "FileOpenFlags \<Rightarrow> u32" where
  "getOSOpenFlags fl =
     (let osFlags = 0;
          osFlags = (if fo_Read fl \<and> fo_Write fl then osFlags OR O_RDWR
                     else if fo_Write fl then osFlags OR O_WRONLY else osFlags);
          osFlags = (if fo_Append fl then osFlags OR O_APPEND else osFlags);
          osFlags = (if fo_Creat fl then osFlags OR O_CREATE else osFlags);
          osFlags = (if fo_Trunc fl then osFlags OR O_TRUNC else osFlags);
          osFlags = (if fo_Excl fl then osFlags OR O_EXCL else osFlags)
      in osFlags)"

definition handleSFTPUploadToExistingFile :: "'p settings \<Rightarrow> Connection \<Rightarrow> FileOpenFlags \<Rightarrow> string \<Rightarrow> string \<Rightarrow> int
    \<Rightarrow> 'p serv \<Rightarrow> (goerr + nat) \<times> 'p serv" where
  "handleSFTPUploadToExistingFile se c pflags requestPath filePath fileSize w =
     (if \<not> hasSpace se c False w then (Inl ErrSSHFxFailure, w)
      else (let osFlags = getOSOpenFlags pflags
            in if osFlags AND O_TRUNC = 0 then (Inl ErrSSHFxOpUnsupported, w)
               else case (if se_uploadMode se = uploadModeAtomic
                          then on_fs (os_Rename (se_env se) (sv_fs w) requestPath filePath) w else (None, w)) of
                      (Some _, w) \<Rightarrow> (Inl ErrSSHFxFailure, w)
                    | (None, w) \<Rightarrow>
                        (case on_fs (os_OpenFile (se_env se) (sv_fs w) filePath osFlags 0x1B6) w of
                           (Inl _, w) \<Rightarrow> (Inl ErrSSHFxFailure, w)
                         | (Inr fl, w) \<Rightarrow>
                             (let w = update_quota se (c_User c) 0 (- fileSize) w;
                                  w = set_permissions se c filePath w;
                                  (i, w) = addTransfer (new_transfer c fl requestPath transferUpload False (sv_now w)) w
                              in (Inr i, w)))))"

definition Connection_Filewrite :: "'p settings \<Rightarrow> Connection \<Rightarrow> srequest \<Rightarrow> 'p serv \<Rightarrow> (goerr + nat) \<times> 'p serv" where
  "Connection_Filewrite se c request w =
     (let w = updateConnectionActivity (c_ID c) w
      in if \<not> HasPerm (c_User c) PermUpload then (Inl ErrSSHFxPermissionDenied, w)
         else case buildPath (se_env se) (sv_fs w) c (rq_Filepath request) of
                Inl _ \<Rightarrow> (Inl ErrSSHFxNoSuchFile, w)
              | Inr p \<Rightarrow>
                  (let (filePath, w) =
                         (if se_uploadMode se = uploadModeAtomic
                          then (getUploadTempFilePath (se_xid se (sv_xids w)) p, w\<lparr>sv_xids := Suc (sv_xids w)\<rparr>)
                          else (p, w))
                   in case os_Stat (se_env se) (sv_fs w) p of
                        Inl e \<Rightarrow> (if os_IsNotExist e then handleSFTPUploadToNewFile se c p filePath w
                                 else (Inl ErrSSHFxFailure, w))
                      | Inr stat \<Rightarrow>
                          (if fi_IsDir stat then (Inl ErrSSHFxOpUnsupported, w)
                           else handleSFTPUploadToExistingFile se c (Request_Pflags request) p filePath
                                  (sint (fi_size stat)) w)))"

section \<open>Commands\<close>

definition getSFTPCmdTargetPath :: "'p settings \<Rightarrow> Connection \<Rightarrow> string \<Rightarrow> 'p serv \<Rightarrow> goerr + string" where
  "getSFTPCmdTargetPath se c requestTarget w =
     (if requestTarget \<noteq> []
      then (case buildPath (se_env se) (sv_fs w) c requestTarget of
              Inl _ \<Rightarrow> Inl ErrSSHFxOpUnsupported | Inr target \<Rightarrow> Inr target)
      else Inr [])"

definition handleSFTPRename :: "'p settings \<Rightarrow> Connection \<Rightarrow> string \<Rightarrow> string \<Rightarrow> 'p serv \<Rightarrow> goerr option \<times> 'p serv" where
  "handleSFTPRename se c sourcePath targetPath w =
     (if \<not> HasPerm (c_User c) PermRename then (Some ErrSSHFxPermissionDenied, w)
      else case on_fs (os_Rename (se_env se) (sv_fs w) sourcePath targetPath) w of
             (Some _, w) \<Rightarrow> (Some ErrSSHFxFailure, w)
           | (None, w) \<Rightarrow> (None, action se operationRename (c_User c) sourcePath targetPath w))"

definition handleSFTPRmdir :: "'p settings \<Rightarrow> Connection \<Rightarrow> string \<Rightarrow> 'p serv \<Rightarrow> goerr option \<times> 'p serv" where
  "handleSFTPRmdir se c path w =
     (if \<not> HasPerm (c_User c) PermDelete then (Some ErrSSHFxPermissionDenied, w)
      else case ScanDirContents (se_env se) (sv_fs w) path of
             (numFiles, bytes, fileList, Some _) \<Rightarrow> (Some ErrSSHFxFailure, w)
           | (numFiles, bytes, fileList, None) \<Rightarrow>
               (case on_fs (os_RemoveAll (se_env se) (sv_fs w) path) w of
                  (Some _, w) \<Rightarrow> (Some ErrSSHFxFailure, w)
                | (None, w) \<Rightarrow>
                    (Some ErrSSHFxOk, fold (\<lambda>p. action se operationDelete (c_User c) p [])
                       fileList (update_quota se (c_User c) (- numFiles) (- bytes) w))))"

definition handleSFTPSymlink :: "'p settings \<Rightarrow> Connection \<Rightarrow> string \<Rightarrow> string \<Rightarrow> 'p serv \<Rightarrow> goerr option \<times> 'p serv" where
  "handleSFTPSymlink se c sourcePath targetPath w =
     (if \<not> HasPerm (c_User c) PermCreateSymlinks then (Some ErrSSHFxPermissionDenied, w)
      else case on_fs (os_Symlink (se_env se) (sv_fs w) sourcePath targetPath) w of
             (Some _, w) \<Rightarrow> (Some ErrSSHFxFailure, w)
           | (None, w) \<Rightarrow> (None, w))"

definition handleSFTPMkdir :: "'p settings \<Rightarrow> Connection \<Rightarrow> string \<Rightarrow> 'p serv \<Rightarrow> goerr option \<times> 'p serv" where
  "handleSFTPMkdir se c path w =
     (if \<not> HasPerm (c_User c) PermCreateDirs then (Some ErrSSHFxPermissionDenied, w)
      else case on_fs (createMissingDirs (se_env se) c (path_Join [path, ''testfile'']) (sv_fs w)) w of
             (Some _, w) \<Rightarrow> (Some ErrSSHFxFailure, w)
           | (None, w) \<Rightarrow> (None, w))"

definition handleSFTPRemove :: "'p settings \<Rightarrow> Connection \<Rightarrow> string \<Rightarrow> 'p serv \<Rightarrow> goerr option \<times> 'p serv" where
  "handleSFTPRemove se c path w =
     (if \<not> HasPerm (c_User c) PermDelete then (Some ErrSSHFxPermissionDenied, w)
      else case os_Lstat (se_env se) (sv_fs w) path of
             Inl _ \<Rightarrow> (Some ErrSSHFxFailure, w)
           | Inr fi \<Rightarrow>
               (case on_fs (os_Remove (se_env se) (sv_fs w) path) w of
                  (Some _, w) \<Rightarrow> (Some ErrSSHFxFailure, w)
                | (None, w) \<Rightarrow>
                    (Some ErrSSHFxOk, action se operationDelete (c_User c) path []
                       (if fi_mode fi AND ModeSymlink \<noteq> ModeSymlink
                        then update_quota se (c_User c) (-1) (- sint (fi_size fi)) w else w))))"

text \<open>One attribute is changed, the first of those that the request carries in this order.\<close>

definition handleSFTPSetstat :: "'p settings \<Rightarrow> string \<Rightarrow> srequest \<Rightarrow> 'p serv \<Rightarrow> goerr option \<times> 'p serv" where
  "handleSFTPSetstat se filePath request w =
     (let attrFlags = Request_AttrFlags request; attrs = Request_Attributes request; env = se_env se;
          result = (\<lambda>r. case on_fs r w of (Some _, w) \<Rightarrow> (Some ErrSSHFxFailure, w) | (None, w) \<Rightarrow> (None, w))
      in if fa_Permissions attrFlags
         then result (os_Chmod env (sv_fs w) filePath (FileStat_FileMode attrs))
         else if fa_UidGid attrFlags
         then result (os_Chown env (sv_fs w) filePath (uint (st_UID attrs)) (uint (st_GID attrs)))
         else if fa_Acmodtime attrFlags
         then result (os_Chtimes env (sv_fs w) filePath (uint (st_Atime attrs)) (uint (st_Mtime attrs)))
         else (None, w))"

definition Connection_Filecmd :: "'p settings \<Rightarrow> Connection \<Rightarrow> srequest \<Rightarrow> 'p serv \<Rightarrow> goerr option \<times> 'p serv" where
  "Connection_Filecmd se c request w =
     (let w = updateConnectionActivity (c_ID c) w
      in case buildPath (se_env se) (sv_fs w) c (rq_Filepath request) of
           Inl _ \<Rightarrow> (Some ErrSSHFxNoSuchFile, w)
         | Inr p \<Rightarrow>
             (case getSFTPCmdTargetPath se c (rq_Target request) w of
                Inl _ \<Rightarrow> (Some ErrSSHFxOpUnsupported, w)
              | Inr target \<Rightarrow>
                  (let finish = (\<lambda>r. case r of
                         (Some e, w) \<Rightarrow> (Some e, w)
                       | (None, w) \<Rightarrow> (Some ErrSSHFxOk, set_permissions se c (if target \<noteq> [] then target else p) w))
                   in if rq_Method request = ''Setstat'' then handleSFTPSetstat se p request w
                      else if rq_Method request = ''Rename'' then finish (handleSFTPRename se c p target w)
                      else if rq_Method request = ''Rmdir'' then handleSFTPRmdir se c p w
                      else if rq_Method request = ''Mkdir'' then finish (handleSFTPMkdir se c p w)
                      else if rq_Method request = ''Symlink'' then finish (handleSFTPSymlink se c p target w)
                      else if rq_Method request = ''Remove'' then handleSFTPRemove se c p w
                      else (Some ErrSSHFxOpUnsupported, w))))"

section \<open>Listing\<close>

definition Connection_Filelist :: "'p settings \<Rightarrow> Connection \<Rightarrow> srequest \<Rightarrow> 'p serv \<Rightarrow> (goerr + fileInfo list) \<times> 'p serv" where
  "Connection_Filelist se c request w =
     (let w = updateConnectionActivity (c_ID c) w
      in case buildPath (se_env se) (sv_fs w) c (rq_Filepath request) of
           Inl _ \<Rightarrow> (Inl ErrSSHFxNoSuchFile, w)
         | Inr p \<Rightarrow>
             (if rq_Method request = ''List''
              then (if \<not> HasPerm (c_User c) PermListItems then (Inl ErrSSHFxPermissionDenied, w)
                    else case ReadDir (se_env se) (sv_fs w) p of
                           Inl _ \<Rightarrow> (Inl ErrSSHFxFailure, w)
                         | Inr files \<Rightarrow> (Inr files, w))
              else if rq_Method request = ''Stat''
              then (if \<not> HasPerm (c_User c) PermListItems then (Inl ErrSSHFxPermissionDenied, w)
                    else case os_Stat (se_env se) (sv_fs w) p of
                           Inl e \<Rightarrow> (Inl (if os_IsNotExist e then ErrSSHFxNoSuchFile else ErrSSHFxFailure), w)
                         | Inr s \<Rightarrow> (Inr [s], w))
              else (Inl ErrSSHFxOpUnsupported, w)))"

end
