(* ===== verification/Serv_Confine.thy ===== *)
theory Serv_Confine
  imports Serv_Files
begin

text \<open>
  The file handlers change nothing outside the home directory of the user. \<open>only_inside\<close> relates
  two file trees that differ at the locations of a set only, such as those inside a directory; each call of the operating system is
  shown to keep to the entry that its path leads to, and the path checks say where that is.
  A last component that is a symbolic link is the exception, which two properties show.
\<close>

section \<open>Trees that differ inside a directory\<close>

text \<open>
  The entries that changed are in the set \<open>P\<close>, a file that appears at a location is new or comes
  from there, and so is every inode whose contents or attributes changed.
\<close>

definition from_inside :: "(loc \<Rightarrow> bool) \<Rightarrow> fs \<Rightarrow> nat \<Rightarrow> bool" where
  "from_inside P f i \<longleftrightarrow> fs_next f \<le> i \<or> (\<exists>l. at f l = Some (File i) \<and> P l)"

definition only_inside :: "(loc \<Rightarrow> bool) \<Rightarrow> fs \<Rightarrow> fs \<Rightarrow> bool" where
  "only_inside P f f' \<longleftrightarrow> fs_next f \<le> fs_next f'
     \<and> (\<forall>l. at f' l \<noteq> at f l \<longrightarrow> P l)
     \<and> (\<forall>l i. at f' l = Some (File i) \<longrightarrow> at f l = Some (File i) \<or> from_inside P f i)
     \<and> (\<forall>i. fs_data f' i \<noteq> fs_data f i \<or> fs_meta f' i \<noteq> fs_meta f i \<longrightarrow> from_inside P f i)"

definition up_closed :: "(loc \<Rightarrow> bool) \<Rightarrow> bool" where
  "up_closed P \<longleftrightarrow> (\<forall>l k. P l \<longrightarrow> P (l @ k))"

lemma up_closed_inside [simp]: "up_closed (inside h)"
  by (simp add: up_closed_def inside_append)

lemma up_closed_under [simp]: "up_closed (prefix hl)"
  by (auto simp: up_closed_def)

lemma up_append: "up_closed P \<Longrightarrow> P l \<Longrightarrow> P (l @ k)"
  by (simp add: up_closed_def)

lemma up_prefix: "up_closed P \<Longrightarrow> P l \<Longrightarrow> prefix l k \<Longrightarrow> P k"
  by (auto simp: prefix_def up_closed_def)

lemma only_inside_refl [simp]: "only_inside P f f"
  by (simp add: only_inside_def)

lemma from_inside_back:
  assumes "only_inside P f f1" and "from_inside P f1 i"
  shows "from_inside P f i"
proof (cases "fs_next f1 \<le> i")
  case True
  then show ?thesis using assms(1) by (auto simp: only_inside_def from_inside_def)
next
  case False
  then obtain l where "at f1 l = Some (File i)" "P l" using assms(2) by (auto simp: from_inside_def)
  then show ?thesis using assms(1) unfolding only_inside_def by (metis from_inside_def)
qed

lemma only_inside_trans:
  assumes "only_inside P f f1" and "only_inside P f1 f2"
  shows "only_inside P f f2"
  unfolding only_inside_def
proof (intro conjI allI impI)
  show "fs_next f \<le> fs_next f2" using assms by (auto simp: only_inside_def)
next
  fix l assume "at f2 l \<noteq> at f l"
  then show "P l" using assms unfolding only_inside_def by metis
next
  fix l i assume "at f2 l = Some (File i)"
  then have "at f1 l = Some (File i) \<or> from_inside P f1 i" using assms(2) by (simp add: only_inside_def)
  then show "at f l = Some (File i) \<or> from_inside P f i"
    using from_inside_back [OF assms(1)] assms(1) unfolding only_inside_def by blast
next
  fix i assume "fs_data f2 i \<noteq> fs_data f i \<or> fs_meta f2 i \<noteq> fs_meta f i"
  then have "(fs_data f2 i \<noteq> fs_data f1 i \<or> fs_meta f2 i \<noteq> fs_meta f1 i) \<or> (fs_data f1 i \<noteq> fs_data f i \<or> fs_meta f1 i \<noteq> fs_meta f i)"
    by metis
  then show "from_inside P f i" using from_inside_back [OF assms(1)] assms unfolding only_inside_def by blast
qed

text \<open>A file outside keeps its place and its contents, when no two entries share an inode.\<close>

definition no_sharing :: "fs \<Rightarrow> bool" where
  "no_sharing f \<longleftrightarrow> (\<forall>l k i. at f l = Some (File i) \<and> at f k = Some (File i) \<longrightarrow> l = k)
     \<and> (\<forall>l i. at f l = Some (File i) \<longrightarrow> i < fs_next f)"

lemma outside_kept:
  assumes "only_inside P f f'" and "no_sharing f" and "\<not> P l"
  shows "at f' l = at f l \<and> (\<forall>i. at f l = Some (File i) \<longrightarrow> fs_data f' i = fs_data f i \<and> fs_meta f' i = fs_meta f i)"
proof -
  have "\<not> from_inside P f i" if "at f l = Some (File i)" for i
    using assms(2,3) that unfolding no_sharing_def from_inside_def by (metis leD)
  then show ?thesis using assms(1,3) unfolding only_inside_def by blast
qed

section \<open>The calls of the operating system\<close>

lemma resolve_opD: "resolve_op env f fol opn p = Inr l \<Longrightarrow> resolve env f fol p = Inr l"
  by (auto simp: resolve_op_def split: sum.splits option.splits)

lemma put_inside:
  assumes "P l" and "l \<noteq> [] \<or> is_dir (Some nd)" and "\<And>i. nd \<noteq> File i"
  shows "only_inside P f (put l nd f)"
  using assms by (auto simp: only_inside_def at_put)

lemma update_meta_inside:
  assumes "P l"
  shows "only_inside P f (update_meta g l f)"
proof (cases "at f l")
  case (Some nd)
  show ?thesis
  proof (cases nd)
    case (Dir m)
    then show ?thesis using Some assms put_inside [of P l "Dir (g m)" f] by (simp add: update_meta_def is_dir_def)
  next
    case (File i)
    then show ?thesis using Some assms by (auto simp: update_meta_def only_inside_def from_inside_def)
  qed (simp add: update_meta_def Some)
qed (simp add: update_meta_def)

lemma change_meta_inside:
  assumes "\<And>l. resolve env f True p = Inr l \<Longrightarrow> at f l \<noteq> None \<Longrightarrow> P l"
  shows "only_inside P f (snd (change_meta opn g env f p))"
  using assms update_meta_inside
  by (auto simp: change_meta_def resolve_op_def split: sum.splits option.splits)

lemma SetPathPermissions_inside:
  assumes "\<And>l. resolve env f True p = Inr l \<Longrightarrow> at f l \<noteq> None \<Longrightarrow> P l"
  shows "only_inside P f (SetPathPermissions env p uid gid f)"
  unfolding SetPathPermissions_def os_Chown_def by (rule change_meta_inside [OF assms])

lemma not_None_root: "at f l = None \<Longrightarrow> l \<noteq> []"
  by auto

lemma Mkdir_inside:
  assumes "\<And>l. resolve env f False p = Inr l \<Longrightarrow> at f l = None \<Longrightarrow> P l"
  shows "only_inside P f (snd (os_Mkdir env f p perm))"
  using assms
  by (auto simp: os_Mkdir_def resolve_op_def is_dir_def intro!: put_inside dest: not_None_root split: sum.splits option.splits)

lemma Symlink_inside:
  assumes "\<And>l. resolve env f False p = Inr l \<Longrightarrow> at f l = None \<Longrightarrow> P l"
  shows "only_inside P f (snd (os_Symlink env f old p))"
  using assms
  by (auto simp: os_Symlink_def resolve_op_def intro!: put_inside dest: not_None_root split: sum.splits option.splits)

lemma drop_under_inside:
  assumes "up_closed P" and "P l" and "l \<noteq> []"
  shows "only_inside P f (drop_under l f)"
  using assms up_prefix by (auto simp: only_inside_def at_drop_under split: if_splits)

lemma Remove_inside:
  assumes "up_closed P" and "\<And>l. resolve env f False p = Inr l \<Longrightarrow> at f l \<noteq> None \<Longrightarrow> P l"
  shows "only_inside P f (snd (os_Remove env f p))"
  using assms by (auto simp: os_Remove_def resolve_op_def intro!: drop_under_inside split: sum.splits option.splits)

lemma clear_root_inside: "up_closed P \<Longrightarrow> P [] \<Longrightarrow> only_inside P f (f\<lparr>fs_tree := []\<rparr>)"
  using up_append [of P "[]"] by (auto simp: only_inside_def at_def)

lemma RemoveAll_inside:
  assumes "up_closed P" and "\<And>l. resolve env f False p = Inr l \<Longrightarrow> P l"
  shows "only_inside P f (snd (os_RemoveAll env f p))"
  using assms
  by (auto simp: os_RemoveAll_def resolve_op_def intro!: drop_under_inside clear_root_inside split: sum.splits option.splits)

lemma map_of_moved:
  "map_of (map (\<lambda>(x, nd). (if prefix l x then k @ drop (length l) x else x, nd)) (filter (\<lambda>(x, _). \<not> prefix k x) t)) x =
     (if prefix k x
      then (if prefix k (l @ drop (length k) x) then None else map_of t (l @ drop (length k) x))
      else if prefix l x then None else map_of t x)"
proof (induction t)
  case (Cons e t)
  obtain z nd where e: "e = (z, nd)" by (cases e)
  have "k @ drop (length l) z = x \<longleftrightarrow> z = l @ drop (length k) x" if "prefix k x" "prefix l z"
    using that by (auto simp: prefix_def)
  moreover have "k @ drop (length l) z \<noteq> x" if "\<not> prefix k x" using that by auto
  ultimately show ?case using Cons.IH e by auto
qed simp

lemma at_move:
  assumes "l \<noteq> []" and "k \<noteq> []"
  shows "at (move l k f) x =
    (if prefix k x then (if prefix k (l @ drop (length k) x) then None else at f (l @ drop (length k) x))
     else if prefix l x then None else at f x)"
  using assms by (auto simp: at_def move_def map_of_moved)

lemma move_inside:
  assumes "up_closed P" and "P l" and "P k" and "l \<noteq> []" and "k \<noteq> []"
  shows "only_inside P f (move l k f)"
  unfolding only_inside_def
proof (intro conjI allI impI)
  fix x assume "at (move l k f) x \<noteq> at f x"
  then show "P x" using assms up_prefix by (auto simp: at_move split: if_splits)
next
  fix x i assume "at (move l k f) x = Some (File i)"
  then have "at f x = Some (File i) \<or> at f (l @ drop (length k) x) = Some (File i)"
    using assms by (auto simp: at_move split: if_splits)
  then show "at f x = Some (File i) \<or> from_inside P f i"
    using up_append [OF assms(1,2)] by (auto simp: from_inside_def)
qed (auto simp: move_def)

lemma Rename_inside:
  assumes "up_closed P" and "\<And>l. resolve env f False p = Inr l \<Longrightarrow> at f l \<noteq> None \<Longrightarrow> P l"
    and "\<And>k. resolve env f False q = Inr k \<Longrightarrow> \<not> is_dir (at f k) \<Longrightarrow> P k"
  shows "only_inside P f (snd (os_Rename env f p q))"
proof (cases "resolve_op env f False ''rename'' p")
  case (Inr l)
  note r = resolve_opD [OF this]
  show ?thesis
  proof (cases "resolve_op env f False ''rename'' q")
    case (Inl e)
    then show ?thesis using Inr by (simp add: os_Rename_def)
  next
    case (Inr k)
    note r' = resolve_opD [OF this]
    show ?thesis
    proof (cases "at f l \<noteq> None \<and> \<not> is_dir (at f k) \<and> \<not> prefix l k")
      case True
      then have "l \<noteq> []" "k \<noteq> []" by (auto simp: is_dir_def)
      then have "only_inside P f (move l k f)" using True assms(1) assms(2) [OF r] assms(3) [OF r'] move_inside by blast
      then show ?thesis using Inr \<open>resolve_op env f False ''rename'' p = Inr l\<close> by (simp add: os_Rename_def)
    next
      case False
      then show ?thesis using Inr \<open>resolve_op env f False ''rename'' p = Inr l\<close> by (auto simp: os_Rename_def)
    qed
  qed
qed (simp add: os_Rename_def)

lemma create_inside:
  assumes "P l" and "at f l = None"
  shows "only_inside P f ((put l (File (fs_next f)) f)\<lparr>fs_data := (fs_data f)(fs_next f := []),
     fs_meta := (fs_meta f)(fs_next f := m), fs_next := Suc (fs_next f)\<rparr>)"
  using assms not_None_root [OF assms(2)] by (auto simp: only_inside_def from_inside_def at_put)

lemma truncate_inside:
  assumes "P l" and "at f l = Some (File i)"
  shows "only_inside P f (f\<lparr>fs_data := (fs_data f)(i := b)\<rparr>)"
  using assms by (auto simp: only_inside_def from_inside_def)

lemma OpenFile_inside:
  assumes "\<And>l fol. resolve env f fol p = Inr l \<Longrightarrow> at f l = None \<or> (\<exists>i. at f l = Some (File i)) \<Longrightarrow> P l"
  shows "only_inside P f (snd (os_OpenFile env f p flags perm))"
proof -
  define create where "create = (flags AND O_CREATE \<noteq> 0)"
  define excl where "excl = (create \<and> flags AND O_EXCL \<noteq> 0)"
  show ?thesis
  proof (cases "resolve_op env f (\<not> excl) ''open'' p")
    case (Inl e)
    then show ?thesis unfolding os_OpenFile_def Let_def create_def [symmetric] excl_def [symmetric] by simp
  next
    case (Inr l)
    note r = resolve_opD [OF this]
    show ?thesis unfolding os_OpenFile_def Let_def create_def [symmetric] excl_def [symmetric] Inr
      using create_inside [of P l f] truncate_inside [of P l f] assms [OF r] by (auto split: option.splits node.splits)
  qed
qed

section \<open>Making the missing directories\<close>

lemma resolve_reaches:
  assumes "list_all name_ok es" and "resolve env f fol (make_path True es) = Inr l"
  shows "reaches f kernel_links fol [] es l"
  using assms by (auto simp: resolve_make_path reaches_iff split: option.splits)

lemma Stat_reaches:
  assumes "list_all name_ok es" and "os_Stat env f (make_path True es) = Inr fi"
  shows "\<exists>d. reaches f kernel_links True [] es d \<and> at f d \<noteq> None"
  using assms resolve_reaches
  by (fastforce simp: os_Stat_def stat_with_def split: sum.splits option.splits)

lemma names_take: "list_all name_ok zs \<Longrightarrow> list_all name_ok (take k zs)"
  by (auto simp: list_all_iff dest: in_set_takeD)

lemma loop_result:
  assumes "list_all name_ok zs" and "nonexistent_loop env f (make_path True zs) = (results, parent, None)"
  shows "\<exists>k \<le> length zs. parent = make_path True (take k zs) \<and> (\<exists>fi. os_Stat env f parent = Inr fi)
    \<and> rev results = map (\<lambda>j. make_path True (take j zs)) [Suc k..<Suc (length zs)]"
  using assms
proof (induction zs arbitrary: results rule: rev_induct)
  case Nil
  then show ?case by (auto simp: nonexistent_loop.simps [of env f "make_path True []"]
      path_Dir_make_path [of "[]", simplified] split: sum.splits if_splits)
next
  case (snoc y ys)
  let ?p = "make_path True (ys @ [y])"
  show ?case
  proof (cases "os_Stat env f ?p")
    case (Inr fi)
    then have "results = [] \<and> parent = ?p" using snoc.prems(2) by (simp add: nonexistent_loop.simps [of env f ?p])
    then show ?thesis using Inr by (intro exI [of _ "length (ys @ [y])"]) auto
  next
    case (Inl e)
    have "path_Dir ?p = make_path True ys" using snoc.prems(1) path_Dir_make_path [of "ys @ [y]"] by simp
    with snoc.prems(2) Inl obtain rs where rs: "nonexistent_loop env f (make_path True ys) = (rs, parent, None)"
      "results = ?p # rs"
      by (auto simp: nonexistent_loop.simps [of env f ?p] split: if_splits prod.splits)
    from snoc.IH [OF _ rs(1)] snoc.prems(1) obtain k where k: "k \<le> length ys" "parent = make_path True (take k ys)"
      "\<exists>fi. os_Stat env f parent = Inr fi" "rev rs = map (\<lambda>j. make_path True (take j ys)) [Suc k..<Suc (length ys)]"
      by auto
    have "map (\<lambda>j. make_path True (take j ys)) [Suc k..<Suc (length ys)]
        = map (\<lambda>j. make_path True (take j (ys @ [y]))) [Suc k..<Suc (length ys)]" by (rule map_cong) auto
    then have "rev results = map (\<lambda>j. make_path True (take j (ys @ [y]))) [Suc k..<Suc (length (ys @ [y]))]"
      using rs(2) k(1,4) by simp
    then show ?thesis using k by (intro exI [of _ k]) auto
  qed
qed

text \<open>The new entries are directories on the way to the last one.\<close>

definition grows_towards :: "loc \<Rightarrow> fs \<Rightarrow> fs \<Rightarrow> bool" where
  "grows_towards e f f' \<longleftrightarrow> (\<forall>x. at f' x \<noteq> at f x \<longrightarrow> prefix x e \<and> is_dir (at f' x) \<and> (at f x = None \<or> is_dir (at f x)))"

lemma grows_towards_trans: "grows_towards e f f1 \<Longrightarrow> grows_towards e f1 f2 \<Longrightarrow> grows_towards e f f2"
  unfolding grows_towards_def by metis

lemma grows_towards_to: "grows_towards e f f' \<Longrightarrow> grows_to l f f'"
  by (auto simp: grows_towards_def grows_to_def is_dir_iff is_link_iff)

lemma update_meta_grows:
  assumes "at f l = Some (Dir m)"
  shows "grows_towards l f (update_meta g l f)"
  using assms by (auto simp: grows_towards_def update_meta_def at_put is_dir_def split: if_splits)

lemma make_dir_step:
  assumes "list_all name_ok (zs @ [y])" and "reaches f kernel_links True [] zs d" and "P d" and up: "up_closed P"
    and mk: "os_Mkdir env f (make_path True (zs @ [y])) perm = (None, f1)"
    and f2: "f2 = SetPathPermissions env (make_path True (zs @ [y])) uid gid f1"
  shows "only_inside P f f2 \<and> reaches f2 kernel_links True [] (zs @ [y]) (d @ [y]) \<and> grows_towards (d @ [y]) f f2
    \<and> at f (d @ [y]) = None"
proof -
  from mk obtain l m where l: "resolve env f False (make_path True (zs @ [y])) = Inr l" "at f l = None" "f1 = put l (Dir m) f"
    by (auto simp: os_Mkdir_def resolve_op_def split: sum.splits option.splits if_splits)
  have y: "plain y" using assms(1) by (simp add: name_plain)
  note r = resolve_reaches [OF assms(1) l(1)]
  from reaches_last [OF r y] reaches_unique assms(2) have ld: "l = d @ [y]" by blast
  have in': "P (d @ [y])" using up assms(3) by (rule up_append)
  have g1: "grows_towards (d @ [y]) f f1" using l ld by (auto simp: grows_towards_def at_put is_dir_def)
  have "reaches f kernel_links True [] (zs @ [y]) (d @ [y])"
    using reaches_follow [OF r] l(2) ld by (simp add: is_link_def)
  then have r1: "reaches f1 kernel_links True [] (zs @ [y]) (d @ [y])" using reaches_grows grows_towards_to [OF g1] by blast
  have at1: "at f1 (d @ [y]) = Some (Dir m)" using l ld by (simp add: at_put is_dir_def)
  have o1: "only_inside P f f1" using put_inside [of P "d @ [y]" "Dir m" f] in' l ld by (simp add: is_dir_def)
  have res: "k = d @ [y]" if "resolve env f1 True (make_path True (zs @ [y])) = Inr k" for k
    using reaches_unique [OF resolve_reaches [OF assms(1) that] r1] .
  have o2: "only_inside P f1 f2" unfolding f2 by (rule SetPathPermissions_inside) (use res in' in blast)
  have g2: "grows_towards (d @ [y]) f1 f2"
  proof (cases "resolve_op env f1 True ''chown'' (make_path True (zs @ [y]))")
    case (Inl e)
    then show ?thesis by (simp add: f2 SetPathPermissions_def os_Chown_def change_meta_def grows_towards_def)
  next
    case (Inr k)
    then have "k = d @ [y]" using res resolve_opD by blast
    then show ?thesis using Inr at1 update_meta_grows [OF at1]
      by (simp add: f2 SetPathPermissions_def os_Chown_def change_meta_def)
  qed
  have "reaches f2 kernel_links True [] (zs @ [y]) (d @ [y])" using reaches_grows [OF r1 grows_towards_to [OF g2]] .
  then show ?thesis using only_inside_trans [OF o1 o2] grows_towards_trans [OF g1 g2] l(2) ld by blast
qed

lemma make_dirs_inside:
  assumes up: "up_closed P" and "list_all name_ok zs" and "k \<le> length zs" and "reaches f kernel_links True [] (take k zs) d" and "P d"
    and "make_dirs env u (map (\<lambda>j. make_path True (take j zs)) [Suc k..<Suc (length zs)]) f = (err, f')"
  shows "only_inside P f f' \<and> (err = None \<longrightarrow> reaches f' kernel_links True [] zs (d @ drop k zs)
     \<and> P (d @ drop k zs) \<and> grows_towards (d @ drop k zs) f f'
     \<and> (k = length zs \<and> f' = f \<or> k < length zs \<and> at f (d @ [zs ! k]) = None))"
  using assms(3-6)
proof (induction "length zs - k" arbitrary: k d f)
  case 0
  then show ?case by (auto simp: grows_towards_def)
next
  case (Suc n)
  then have k: "k < length zs" by simp
  let ?p = "make_path True (take (Suc k) zs)"
  have tk: "take (Suc k) zs = take k zs @ [zs ! k]" using k by (simp add: take_Suc_conv_app_nth)
  have ok: "list_all name_ok (take k zs @ [zs ! k])" using names_take [OF assms(2), of "Suc k"] tk by simp
  have ds: "map (\<lambda>j. make_path True (take j zs)) [Suc k..<Suc (length zs)]
      = ?p # map (\<lambda>j. make_path True (take j zs)) [Suc (Suc k)..<Suc (length zs)]"
    using k by (simp add: upt_conv_Cons)
  show ?case
  proof (cases "os_Mkdir env f ?p 0x1FF")
    case (Pair e f1)
    show ?thesis
    proof (cases e)
      case (Some x)
      then have "f1 = f" using Pair by (auto simp: os_Mkdir_def split: sum.splits if_splits)
      then show ?thesis using Suc.prems(4) ds Pair Some by auto
    next
      case None
      let ?f2 = "SetPathPermissions env ?p (GetUID u) (GetGID u) f1"
      from make_dir_step [OF ok Suc.prems(2,3) up, of env "0x1FF" f1 ?f2] Pair None tk
      have st: "only_inside P f ?f2" "reaches ?f2 kernel_links True [] (take (Suc k) zs) (d @ [zs ! k])"
        "grows_towards (d @ [zs ! k]) f ?f2" "at f (d @ [zs ! k]) = None" by auto
      have dk: "d @ drop k zs = (d @ [zs ! k]) @ drop (Suc k) zs" using k by (simp add: Cons_nth_drop_Suc)
      from Suc.hyps(1) [of "Suc k" ?f2 "d @ [zs ! k]"] Suc.hyps(2) Suc.prems(3,4) ds Pair None k st(2) up_append [OF up]
      have "only_inside P ?f2 f' \<and> (err = None \<longrightarrow> reaches f' kernel_links True [] zs (d @ drop k zs)
         \<and> P (d @ drop k zs) \<and> grows_towards (d @ drop k zs) ?f2 f')" by (simp add: dk)
      moreover have "grows_towards (d @ drop k zs) f ?f2"
        using st(3) unfolding dk grows_towards_def by (metis prefix_order.trans prefixI)
      ultimately show ?thesis using only_inside_trans [OF st(1)] grows_towards_trans st(4) k by blast
    qed
  qed
qed

lemma createMissingDirs_inside:
  assumes "list_all name_ok (zs @ [x])" and up: "up_closed P"
    and checked: "\<And>k d. reaches f kernel_links True [] (take k zs) d \<Longrightarrow> at f d \<noteq> None
      \<Longrightarrow> isSubDir env f c (make_path True d) = None \<Longrightarrow> P d"
    and "createMissingDirs env c (make_path True (zs @ [x])) f = (err, f')"
  shows "only_inside P f f' \<and> (err = None \<longrightarrow> (\<exists>e. reaches f' kernel_links True [] zs e \<and> P e \<and> grows_towards e f f'
    \<and> (f' = f \<or> (\<exists>a. prefix a e \<and> at f a = None))))"
proof (cases "findNonexistentDirs env f c (make_path True (zs @ [x]))")
  case (Pair results er)
  show ?thesis
  proof (cases er)
    case (Some e)
    then show ?thesis using Pair assms(4) by (auto simp: createMissingDirs_def)
  next
    case None
    have ok: "list_all name_ok zs" using assms(1) by simp
    have dir: "path_Dir (path_Clean (make_path True (zs @ [x]))) = make_path True zs"
      using assms(1) path_Dir_make_path [of "zs @ [x]"] by simp
    from Pair None dir obtain parent p where loop: "nonexistent_loop env f (make_path True zs) = (results, parent, None)"
      and p: "EvalSymlinks env f parent = Inr p" "isSubDir env f c p = None"
      by (auto simp: findNonexistentDirs_def split: prod.splits option.splits sum.splits)
    from loop_result [OF ok loop] obtain k fi where k: "k \<le> length zs" "parent = make_path True (take k zs)"
      "os_Stat env f parent = Inr fi" "rev results = map (\<lambda>j. make_path True (take j zs)) [Suc k..<Suc (length zs)]"
      by blast
    have okk: "list_all name_ok (take k zs)" using names_take [OF ok] .
    from k(3) k(2) obtain d where d: "resolve env f True parent = Inr d" "at f d \<noteq> None"
      by (auto simp: os_Stat_def stat_with_def split: sum.splits option.splits)
    then have "p = make_path True d" using EvalSymlinks_resolve [OF okk] p(1) k(2) by force
    moreover have "reaches f kernel_links True [] (take k zs) d" using resolve_reaches [OF okk] d(1) k(2) by blast
    ultimately have "P d" using checked d(2) p(2) by blast
    moreover note \<open>reaches f kernel_links True [] (take k zs) d\<close>
    moreover have "prefix (d @ [zs ! k]) (d @ drop k zs)" if "k < length zs"
      using that by (simp add: Cons_nth_drop_Suc [symmetric])
    moreover have "make_dirs env (c_User c) (map (\<lambda>j. make_path True (take j zs)) [Suc k..<Suc (length zs)]) f = (err, f')"
      using assms(4) Pair None k(4) by (simp add: createMissingDirs_def)
    ultimately show ?thesis using make_dirs_inside [OF up ok k(1)] by blast
  qed
qed

section \<open>Creating a file\<close>

definition tree_ok :: "fs \<Rightarrow> bool" where
  "tree_ok f \<longleftrightarrow> (\<forall>l x. at f (l @ [x]) \<noteq> None \<longrightarrow> is_dir (at f l))"

lemma tree_ok_below: "tree_ok f \<Longrightarrow> at f a = None \<Longrightarrow> at f (a @ b) = None"
proof (induction b rule: rev_induct)
  case (snoc x b)
  then have "\<not> is_dir (at f (a @ b))" by (simp add: is_dir_def)
  then show ?case using snoc.prems(1) unfolding tree_ok_def by (metis append_assoc)
qed simp

lemma resolve_same_tree:
  assumes "list_all name_ok es" and "at f' = at f" and "resolve env f' fol (make_path True es) = Inr l"
  shows "resolve env f fol (make_path True es) = Inr l"
proof -
  have "grows_to l f' f" using assms(2) by (simp add: grows_to_def)
  then have "reaches f kernel_links fol [] es l" using reaches_grows resolve_reaches [OF assms(1,3)] by blast
  then show ?thesis using assms(3) by (auto simp: resolve_make_path [OF assms(1)] reaches_iff split: option.splits)
qed

lemma OpenFile_at:
  "at (snd (os_OpenFile env f p flags perm)) x = at f x
   \<or> (\<exists>fol i. resolve env f fol p = Inr x \<and> at f x = None \<and> at (snd (os_OpenFile env f p flags perm)) x = Some (File i))"
proof -
  define create where "create = (flags AND O_CREATE \<noteq> 0)"
  define excl where "excl = (create \<and> flags AND O_EXCL \<noteq> 0)"
  show ?thesis
  proof (cases "resolve_op env f (\<not> excl) ''open'' p")
    case (Inl e)
    then show ?thesis unfolding os_OpenFile_def Let_def create_def [symmetric] excl_def [symmetric] by simp
  next
    case (Inr l)
    note r = resolve_opD [OF this]
    then show ?thesis unfolding os_OpenFile_def Let_def create_def [symmetric] excl_def [symmetric] Inr
      by (auto simp: at_put not_None_root split: option.splits node.splits)
  qed
qed

lemma new_file_inside:
  assumes up: "up_closed P" and names: "list_all name_ok zs" "name_ok y"
    and dir: "reaches f1 kernel_links True [] zs e" "P e"
    and nl: "\<And>fol l. resolve env f1 fol (make_path True (zs @ [y])) = Inr l \<Longrightarrow> \<not> is_link (at f1 (e @ [y]))"
    and f2: "f2 = snd (os_OpenFile env f1 (make_path True (zs @ [y])) flags perm)"
  shows "only_inside P f1 f2 \<and> only_inside P f2 (SetPathPermissions env (make_path True (zs @ [y])) uid gid f2)"
proof -
  have ok: "list_all name_ok (zs @ [y])" and y: "plain y" using names by (simp_all add: name_plain)
  have loc: "l = e @ [y]" if "resolve env f1 fol (make_path True (zs @ [y])) = Inr l" for fol l
    using reaches_last [OF resolve_reaches [OF ok that] y] reaches_unique [OF dir(1)] nl [OF that] by blast
  have in': "P (e @ [y])" using up dir(2) by (rule up_append)
  have o2: "only_inside P f1 f2" unfolding f2 using loc in' by (intro OpenFile_inside) blast
  have at2: "at f2 x = at f1 x \<or> (x = e @ [y] \<and> at f1 x = None \<and> (\<exists>i. at f2 x = Some (File i)))" for x
    using OpenFile_at [of env f1 "make_path True (zs @ [y])" flags perm x] loc unfolding f2 by blast
  then have "grows_to e f1 f2" unfolding grows_to_def by (metis append_self_conv not_Cons_self2)
  with dir(1) have d2: "reaches f2 kernel_links True [] zs e" by (rule reaches_grows)
  have "P l" if r: "resolve env f2 True (make_path True (zs @ [y])) = Inr l" for l
  proof -
    from reaches_last [OF resolve_reaches [OF ok r] y] reaches_unique [OF d2] obtain m where
      m: "at f2 e = Some (Dir m)" "\<not> is_link (at f2 (e @ [y])) \<longrightarrow> l = e @ [y]" by blast
    have "\<exists>k. resolve env f1 False (make_path True (zs @ [y])) = Inr k"
    proof -
      have "at f1 e = Some (Dir m)" using at2 [of e] m(1) by auto
      from reaches_append [OF dir(1) this y] r show ?thesis
        by (auto simp: resolve_make_path [OF ok] reaches_iff [symmetric] split: option.splits)
    qed
    then have "\<not> is_link (at f2 (e @ [y]))" using nl at2 [of "e @ [y]"] by (auto simp: is_link_def)
    then show ?thesis using m(2) in' by simp
  qed
  then show ?thesis using o2 by (auto intro!: SetPathPermissions_inside)
qed

end
