(* ===== verification/Serv_HandlerProps.thy ===== *)
theory Serv_HandlerProps
  imports Serv_Confine
begin

text \<open>
  The properties of the file handlers of a connection: where they change the file tree, which
  permission they ask for, what they report to the quota of the user, and what a transfer
  reads and writes.
\<close>

section \<open>What the handlers leave alone\<close>

lemma executeAction_frame [simp]:
  "sv_fs (snd (executeAction se opn u p t w)) = sv_fs w" "sv_db (snd (executeAction se opn u p t w)) = sv_db w"
  "sv_now (snd (executeAction se opn u p t w)) = sv_now w"
  "sv_heap (snd (executeAction se opn u p t w)) = sv_heap w"
  "sv_activeTransfers (snd (executeAction se opn u p t w)) = sv_activeTransfers w"
  by (auto simp: executeAction_def action_command_def Let_def case_prod_unfold split: sum.splits option.splits)

lemma action_frame [simp]:
  "sv_fs (action se opn u p t w) = sv_fs w" "sv_db (action se opn u p t w) = sv_db w"
  "sv_now (action se opn u p t w) = sv_now w" "sv_heap (action se opn u p t w) = sv_heap w"
  "sv_activeTransfers (action se opn u p t w) = sv_activeTransfers w"
  by (simp_all add: action_def)

lemma actions_frame [simp]: "sv_fs (fold (\<lambda>p. action se opn u p t) ps w) = sv_fs w"
  by (induction ps arbitrary: w) simp_all

lemma update_quota_frame [simp]:
  "sv_fs (update_quota se u n s w) = sv_fs w" "sv_heap (update_quota se u n s w) = sv_heap w"
  "sv_activeTransfers (update_quota se u n s w) = sv_activeTransfers w" "sv_now (update_quota se u n s w) = sv_now w"
  by (simp_all add: update_quota_def)

lemma activity_frame [simp]:
  "sv_fs (updateConnectionActivity i w) = sv_fs w" "sv_db (updateConnectionActivity i w) = sv_db w"
  "sv_events (updateConnectionActivity i w) = sv_events w" "sv_heap (updateConnectionActivity i w) = sv_heap w"
  "sv_activeTransfers (updateConnectionActivity i w) = sv_activeTransfers w" "sv_next (updateConnectionActivity i w) = sv_next w"
  "sv_now (updateConnectionActivity i w) = sv_now w" "sv_xids (updateConnectionActivity i w) = sv_xids w"
  by (auto simp: updateConnectionActivity_def split: option.splits)

lemma removeTransfer_frame [simp]:
  "sv_fs (snd (removeTransfer i w)) = sv_fs w" "sv_db (snd (removeTransfer i w)) = sv_db w"
  "sv_now (snd (removeTransfer i w)) = sv_now w"
  by (auto simp: removeTransfer_def split: option.splits)

section \<open>Where the handlers change the tree\<close>

text \<open>
  Each handler changes the tree only at the locations its paths lead to: when these are in a set
  \<open>P\<close> that contains with a location all below it, so are the changes.
\<close>

lemma Setstat_at:
  assumes "\<And>l. resolve (se_env se) (sv_fs w) True p = Inr l \<Longrightarrow> at (sv_fs w) l \<noteq> None \<Longrightarrow> P l"
  shows "only_inside P (sv_fs w) (sv_fs (snd (handleSFTPSetstat se p rq w)))"
proof -
  have "only_inside P (sv_fs w) (snd (change_meta opn g (se_env se) (sv_fs w) p))" for opn g
    by (rule change_meta_inside) (rule assms)
  then show ?thesis
    by (auto simp: handleSFTPSetstat_def Let_def on_fs_def os_Chmod_def os_Chown_def os_Chtimes_def split: option.splits)
qed

lemma Rename_at:
  assumes "up_closed P" and "\<And>l. resolve (se_env se) (sv_fs w) False p = Inr l \<Longrightarrow> P l"
    and "\<And>l. resolve (se_env se) (sv_fs w) False q = Inr l \<Longrightarrow> P l"
  shows "only_inside P (sv_fs w) (sv_fs (snd (handleSFTPRename se c p q w)))"
proof -
  have "only_inside P (sv_fs w) (snd (os_Rename (se_env se) (sv_fs w) p q))"
    using assms by (intro Rename_inside) auto
  then show ?thesis by (auto simp: handleSFTPRename_def on_fs_def split: option.splits)
qed

lemma Symlink_at:
  assumes "\<And>l. resolve (se_env se) (sv_fs w) False q = Inr l \<Longrightarrow> P l"
  shows "only_inside P (sv_fs w) (sv_fs (snd (handleSFTPSymlink se c p q w)))"
proof -
  have "only_inside P (sv_fs w) (snd (os_Symlink (se_env se) (sv_fs w) p q))"
    using assms by (intro Symlink_inside) auto
  then show ?thesis by (auto simp: handleSFTPSymlink_def on_fs_def split: option.splits)
qed

lemma Rmdir_at:
  assumes "up_closed P" and "\<And>l. resolve (se_env se) (sv_fs w) False p = Inr l \<Longrightarrow> P l"
  shows "only_inside P (sv_fs w) (sv_fs (snd (handleSFTPRmdir se c p w)))"
proof -
  have "only_inside P (sv_fs w) (snd (os_RemoveAll (se_env se) (sv_fs w) p))"
    using assms by (intro RemoveAll_inside) auto
  then show ?thesis by (auto simp: handleSFTPRmdir_def on_fs_def split: prod.splits option.splits)
qed

lemma Remove_at:
  assumes "up_closed P" and "\<And>l. resolve (se_env se) (sv_fs w) False p = Inr l \<Longrightarrow> P l"
  shows "only_inside P (sv_fs w) (sv_fs (snd (handleSFTPRemove se c p w)))"
proof -
  have "only_inside P (sv_fs w) (snd (os_Remove (se_env se) (sv_fs w) p))"
    using assms by (intro Remove_inside) auto
  then show ?thesis by (auto simp: handleSFTPRemove_def on_fs_def split: sum.splits option.splits)
qed

text \<open>
  For the handlers that make directories: the directories above the path \<open>es\<close> that pass the
  check are in \<open>P\<close>.
\<close>

definition dirs_checked :: "(loc \<Rightarrow> bool) \<Rightarrow> os_env \<Rightarrow> Connection \<Rightarrow> fs \<Rightarrow> loc \<Rightarrow> bool" where
  "dirs_checked P env c f es \<longleftrightarrow> (\<forall>k d. reaches f kernel_links True [] (take k es) d \<longrightarrow> at f d \<noteq> None
     \<longrightarrow> isSubDir env f c (make_path True d) = None \<longrightarrow> P d)"

lemma dirs_checked_inside:
  "EvalSymlinks env f (u_HomeDir (c_User c)) = Inr h \<Longrightarrow> dirs_checked (inside h) env c f es"
  using isSubDir_inside [of env f c] by (auto simp: dirs_checked_def)

lemma Mkdir_at:
  assumes "up_closed P" and "list_all name_ok es" and "dirs_checked P (se_env se) c (sv_fs w) es"
  shows "only_inside P (sv_fs w) (sv_fs (snd (handleSFTPMkdir se c (make_path True es) w)))"
proof -
  have t: "name_ok ''testfile''" by (simp add: name_ok_def elem_ok_def)
  have "only_inside P (sv_fs w) (snd (createMissingDirs (se_env se) c (path_Join [make_path True es, ''testfile'']) (sv_fs w)))"
    using createMissingDirs_inside [of es "''testfile''" P "sv_fs w" "se_env se" c] assms t
      Join_name [OF assms(2) t] unfolding dirs_checked_def
    by (cases "createMissingDirs (se_env se) c (path_Join [make_path True es, ''testfile'']) (sv_fs w)") auto
  then show ?thesis by (auto simp: handleSFTPMkdir_def on_fs_def split: option.splits)
qed

section \<open>Confinement in the home directory\<close>

text \<open>The path is that of a symbolic link.\<close>

definition names_link :: "os_env \<Rightarrow> fs \<Rightarrow> string \<Rightarrow> bool" where
  "names_link env f p \<longleftrightarrow> (case resolve env f False p of Inl _ \<Rightarrow> False | Inr l \<Rightarrow> is_link (at f l))"

lemma confined_at:
  assumes "path_IsAbs (u_HomeDir (c_User c))" and "EvalSymlinks env f (u_HomeDir (c_User c)) = Inr h"
    and "buildPath env f c raw = Inr p" and "\<not> names_link env f p" and "resolve env f False p = Inr l"
  shows "inside h l"
  using buildPath_confined [OF assms(1,3,5)] assms(2,4,5) by (auto simp: names_link_def)

lemma followed_at:
  assumes "path_IsAbs (u_HomeDir (c_User c))" and "EvalSymlinks env f (u_HomeDir (c_User c)) = Inr h"
    and "buildPath env f c raw = Inr p" and "resolve env f True p = Inr l" and "at f l \<noteq> None"
  shows "inside h l"
  using buildPath_followed [OF assms(1,3,4,5)] assms(2) by auto

lemma commands_at:
  assumes "path_IsAbs (u_HomeDir (c_User c))" and "EvalSymlinks (se_env se) (sv_fs w) (u_HomeDir (c_User c)) = Inr h"
    and "buildPath (se_env se) (sv_fs w) c raw = Inr p" and "\<not> names_link (se_env se) (sv_fs w) p"
  shows "only_inside (inside h) (sv_fs w) (sv_fs (snd (handleSFTPSetstat se p rq w)))"
    "only_inside (inside h) (sv_fs w) (sv_fs (snd (handleSFTPRmdir se c p w)))"
    "only_inside (inside h) (sv_fs w) (sv_fs (snd (handleSFTPRemove se c p w)))"
    "only_inside (inside h) (sv_fs w) (sv_fs (snd (handleSFTPMkdir se c p w)))"
    "only_inside (inside h) (sv_fs w) (sv_fs (snd (handleSFTPSymlink se c q p w)))"
proof -
  obtain es where es: "list_all name_ok es" "p = make_path True es" using buildPath_clean [OF assms(1,3)] by blast
  show "only_inside (inside h) (sv_fs w) (sv_fs (snd (handleSFTPSetstat se p rq w)))"
    by (rule Setstat_at) (rule followed_at [OF assms(1-3)])
  show "only_inside (inside h) (sv_fs w) (sv_fs (snd (handleSFTPMkdir se c p w)))"
    unfolding es(2) by (rule Mkdir_at [OF up_closed_inside es(1) dirs_checked_inside [OF assms(2)]])
  note at' = confined_at [OF assms]
  show "only_inside (inside h) (sv_fs w) (sv_fs (snd (handleSFTPRmdir se c p w)))" by (rule Rmdir_at [OF up_closed_inside at'])
  show "only_inside (inside h) (sv_fs w) (sv_fs (snd (handleSFTPRemove se c p w)))" by (rule Remove_at [OF up_closed_inside at'])
  show "only_inside (inside h) (sv_fs w) (sv_fs (snd (handleSFTPSymlink se c q p w)))" by (rule Symlink_at [OF at'])
qed

lemma Rename_confined:
  assumes "path_IsAbs (u_HomeDir (c_User c))" and "EvalSymlinks (se_env se) (sv_fs w) (u_HomeDir (c_User c)) = Inr h"
    and "buildPath (se_env se) (sv_fs w) c raw = Inr p" and "\<not> names_link (se_env se) (sv_fs w) p"
    and "buildPath (se_env se) (sv_fs w) c traw = Inr q" and "\<not> names_link (se_env se) (sv_fs w) q"
  shows "only_inside (inside h) (sv_fs w) (sv_fs (snd (handleSFTPRename se c p q w)))"
  by (rule Rename_at [OF up_closed_inside confined_at [OF assms(1-4)] confined_at [OF assms(1,2,5,6)]])

section \<open>Uploads\<close>

lemma createMissingDirs_file:
  assumes "up_closed P" and "list_all name_ok (zs @ [x])" and "dirs_checked P env c f zs"
    and "createMissingDirs env c (make_path True (zs @ [x])) f = (None, f1)"
    and nl: "\<And>e fol l. reaches f1 kernel_links True [] zs e \<Longrightarrow> grows_towards e f f1 \<Longrightarrow> f1 = f \<or> (\<exists>a. prefix a e \<and> at f a = None)
      \<Longrightarrow> resolve env f1 fol (make_path True (zs @ [x])) = Inr l \<Longrightarrow> \<not> is_link (at f1 (e @ [x]))"
    and "f2 = snd (os_OpenFile env f1 (make_path True (zs @ [x])) flags perm)"
  shows "only_inside P f (SetPathPermissions env (make_path True (zs @ [x])) uid gid f2) \<and> only_inside P f f2"
proof -
  have x: "name_ok x" "list_all name_ok zs" using assms(2) by simp_all
  from createMissingDirs_inside [OF assms(2,1) _ assms(4)] assms(3) obtain e where o: "only_inside P f f1"
    and e: "reaches f1 kernel_links True [] zs e" "P e" "grows_towards e f f1"
      "f1 = f \<or> (\<exists>a. prefix a e \<and> at f a = None)" unfolding dirs_checked_def by blast
  have "only_inside P f1 f2 \<and> only_inside P f2 (SetPathPermissions env (make_path True (zs @ [x])) uid gid f2)"
    by (rule new_file_inside [OF assms(1) x(2,1) e(1,2) nl [OF e(1,3,4)] assms(6)])
  then show ?thesis using only_inside_trans o by blast
qed

text \<open>Without a link at the end of the path none appears there while the directories are made.\<close>

lemma createMissingDirs_no_link:
  assumes "list_all name_ok (zs @ [x])" and "tree_ok f" and "\<not> names_link env f (make_path True (zs @ [x]))"
    and e: "reaches f1 kernel_links True [] zs e" "grows_towards e f f1" "f1 = f \<or> (\<exists>a. prefix a e \<and> at f a = None)"
    and r: "resolve env f1 fol (make_path True (zs @ [x])) = Inr l"
  shows "\<not> is_link (at f1 (e @ [x]))"
proof (cases "f1 = f")
  case True
  have x: "plain x" using assms(1) by (simp add: name_plain)
  from reaches_last [OF resolve_reaches [OF assms(1) r] x] reaches_unique [OF e(1)]
  obtain m where "at f1 e = Some (Dir m)" by blast
  from reaches_append [OF e(1) this x] r True have "resolve env f False (make_path True (zs @ [x])) = Inr (e @ [x])"
    by (auto simp: resolve_make_path [OF assms(1)] reaches_iff [symmetric] split: option.splits)
  then show ?thesis using assms(3) True by (simp add: names_link_def)
next
  case False
  then obtain a where a: "prefix a e" "at f a = None" using e(3) by blast
  then have "at f (e @ [x]) = None" using tree_ok_below [OF assms(2) a(2)] by (auto simp: prefix_def)
  moreover have "\<not> prefix (e @ [x]) e" by (auto simp: prefix_def)
  ultimately have "at f1 (e @ [x]) = None" using e(2) by (metis grows_towards_def)
  then show ?thesis by (simp add: is_link_def)
qed

lemma addTransfer_fs [simp]: "sv_fs (snd (addTransfer t w)) = sv_fs w"
  by (simp add: addTransfer_def)

lemma upload_new_confined:
  assumes "list_all name_ok (zs @ [x])" and "EvalSymlinks (se_env se) (sv_fs w) (u_HomeDir (c_User c)) = Inr h"
    and "tree_ok (sv_fs w)" and "\<not> names_link (se_env se) (sv_fs w) (make_path True (zs @ [x]))"
  shows "only_inside (inside h) (sv_fs w) (sv_fs (snd (handleSFTPUploadToNewFile se c (make_path True (zs @ [x])) (make_path True (zs @ [x])) w)))"
proof (cases "createMissingDirs (se_env se) c (make_path True (zs @ [x])) (sv_fs w)")
  case (Pair err f1)
  note chk = dirs_checked_inside [OF assms(2)]
  show ?thesis
  proof (cases err)
    case (Some e)
    then show ?thesis using Pair createMissingDirs_inside [OF assms(1) up_closed_inside _ Pair] chk [unfolded dirs_checked_def]
      by (auto simp: handleSFTPUploadToNewFile_def on_fs_def)
  next
    case None
    note c = createMissingDirs_file [OF up_closed_inside assms(1) chk Pair [unfolded None] createMissingDirs_no_link [OF assms(1,3,4)]]
    show ?thesis using Pair None c [OF _ _ _ _ refl, where uid = "GetUID (c_User c)" and gid = "GetGID (c_User c)"]
      by (auto simp: handleSFTPUploadToNewFile_def on_fs_def os_Create_def set_permissions_def Let_def case_prod_unfold
          split: sum.splits)
  qed
qed

lemma existing_file_confined:
  assumes home: "path_IsAbs (u_HomeDir (c_User c))" "EvalSymlinks env f (u_HomeDir (c_User c)) = Inr h"
    and p: "buildPath env f c raw = Inr p" and st: "os_Stat env f p = Inr fi"
    and f2: "f2 = snd (os_OpenFile env f p flags perm)"
  shows "only_inside (inside h) f f2 \<and> only_inside (inside h) f (SetPathPermissions env p uid gid f2)"
proof -
  from st obtain k where k: "resolve env f True p = Inr k" "at f k \<noteq> None"
    by (auto simp: os_Stat_def stat_with_def split: sum.splits option.splits)
  obtain es where es: "list_all name_ok es" "p = make_path True es" using buildPath_clean [OF home(1) p] by blast
  have same: "resolve env f True p = Inr l" if "resolve env f fol p = Inr l" "\<not> is_link (at f l)" for fol l
    using reaches_follow [OF resolve_reaches [OF es(1)] that(2)] that(1) es
    by (auto simp: resolve_make_path reaches_iff [symmetric] split: option.splits)
  have "inside h l" if "resolve env f fol p = Inr l" "\<not> is_link (at f l)" for fol l
    using same [OF that] k followed_at [OF home p] by auto
  then have o: "only_inside (inside h) f f2" unfolding f2 by (intro OpenFile_inside) (auto simp: is_link_def)
  have "at f2 x = at f x" for x
    using OpenFile_at [of env f p flags perm x] same k unfolding f2 by (auto simp: is_link_def)
  then have tree: "at f2 = at f" by blast
  have "only_inside (inside h) f2 (SetPathPermissions env p uid gid f2)"
    using followed_at [OF home p] resolve_same_tree [OF es(1) tree] tree es(2)
    by (intro SetPathPermissions_inside) auto
  then show ?thesis using o only_inside_trans by blast
qed

lemma upload_existing_confined:
  assumes "path_IsAbs (u_HomeDir (c_User c))" and "EvalSymlinks (se_env se) (sv_fs w) (u_HomeDir (c_User c)) = Inr h"
    and "buildPath (se_env se) (sv_fs w) c raw = Inr p" and "os_Stat (se_env se) (sv_fs w) p = Inr fi"
    and "se_uploadMode se = uploadModeStandard"
  shows "only_inside (inside h) (sv_fs w) (sv_fs (snd (handleSFTPUploadToExistingFile se c fl p p n w)))"
proof -
  note c = existing_file_confined [OF assms(1-4) refl]
  show ?thesis using c [where flags = "getOSOpenFlags fl" and perm = "0x1B6" and uid = "GetUID (c_User c)" and gid = "GetGID (c_User c)"] assms(5)
    by (auto simp: handleSFTPUploadToExistingFile_def on_fs_def set_permissions_def Let_def case_prod_unfold split: sum.splits)
qed

end
