(* ===== verification/Serv_Links.thy ===== *)
theory Serv_Links
  imports Serv_HandlerProps
begin

text \<open>
  File trees without symbolic links in a directory. Where there are none, a path below the
  directory leads to the location it spells, so that the handlers change nothing but what is
  below it, and they make no new links unless asked for one.
\<close>

section \<open>Paths without links\<close>

text \<open>No link at the home directory, above it or below it.\<close>

definition linkless :: "loc \<Rightarrow> fs \<Rightarrow> bool" where
  "linkless hl f \<longleftrightarrow> (\<forall>l. prefix l hl \<or> prefix hl l \<longrightarrow> \<not> is_link (at f l))"

definition home_path :: "loc \<Rightarrow> string \<Rightarrow> bool" where
  "home_path hl p \<longleftrightarrow> (\<exists>es. list_all name_ok (hl @ es) \<and> p = make_path True (hl @ es))"

lemma linkless_on: "linkless hl f \<Longrightarrow> prefix l (hl @ es) \<Longrightarrow> \<not> is_link (at f l)"
  unfolding linkless_def by (metis prefix_same_cases prefixI)

lemma reaches_linkless:
  assumes "reaches f n fol cur cs l" and "list_all plain cs" and "\<And>k. prefix k cs \<Longrightarrow> \<not> is_link (at f (cur @ k))"
  shows "l = cur @ cs"
  using assms
proof (induction rule: reaches.induct)
  case (link cur m c t cs fol n l)
  from link.prems(2) [of "[c]"] link.hyps(3) show ?case by (simp add: is_link_def)
next
  case (enter cur m c nd n fol cs l)
  have "\<not> is_link (at f ((cur @ [c]) @ k))" if "prefix k cs" for k using enter.prems(2) [of "c # k"] that by simp
  then show ?case using enter.IH enter.prems(1) by simp
qed (auto simp: plain_def)

lemma names_plain: "list_all name_ok es \<Longrightarrow> list_all plain es"
  by (auto simp: list_all_iff name_plain)

lemma path_reaches:
  assumes "linkless hl f" and "list_all name_ok es" and "prefix es (hl @ xs)" and "reaches f n fol [] es l"
  shows "l = es"
  using reaches_linkless [OF assms(4) names_plain [OF assms(2)]] linkless_on [OF assms(1)] assms(3)
  by (metis append_Nil prefix_order.trans)

lemma home_resolve:
  assumes "linkless hl f" and "home_path hl p" and "resolve env f fol p = Inr l"
  shows "prefix hl l"
proof -
  obtain es where es: "list_all name_ok (hl @ es)" "p = make_path True (hl @ es)" using assms(2) by (auto simp: home_path_def)
  have "l = hl @ es" using path_reaches [OF assms(1) es(1) _ resolve_reaches [OF es(1)], of es] assms(3) es(2) by auto
  then show ?thesis by simp
qed

lemma home_resolve_or_empty:
  assumes "linkless hl f" and "p = [] \<or> home_path hl p" and "resolve env f fol p = Inr l"
  shows "prefix hl l"
proof (cases "p = []")
  case True
  then show ?thesis using assms(3) by (auto simp: resolve_def split: option.splits)
qed (use assms home_resolve in blast)

text \<open>The paths of a client are below the home directory.\<close>

lemma buildPath_home:
  assumes "list_all name_ok hl" and "u_HomeDir (c_User c) = make_path True hl" and "buildPath env f c (cleanPath x) = Inr p"
  shows "home_path hl p"
proof -
  have "path_Join [make_path True hl, cleanPath x] = make_path True (hl @ path_elems (cleanPath x))"
    using Join_rooted_names [of "make_path True hl" "cleanPath x"] assms(1) by simp
  moreover have ok: "list_all name_ok (hl @ path_elems (cleanPath x))" using assms(1) cleanPath_names by simp
  ultimately have "p = make_path True (hl @ path_elems (cleanPath x))"
    using assms(2,3) by (auto simp: buildPath_def Let_def split: sum.splits option.splits if_splits)
  then show ?thesis using ok by (auto simp: home_path_def)
qed

lemma make_path_longer:
  assumes "name_ok x"
  shows "length (make_path True d) < length (make_path True (d @ x # r))"
proof -
  have "length (make_path True d) < length (make_path True (d @ [x]))"
    using assms by (simp add: make_path_snoc name_ok_def elem_ok_def) (simp add: make_path_def)
  also have "prefix (make_path True (d @ [x])) (make_path True ((d @ [x]) @ r))"
    by (simp add: make_path_def prefix_join del: append_assoc)
  then have "length (make_path True (d @ [x])) \<le> length (make_path True (d @ x # r))"
    using prefix_length_le by fastforce
  finally show ?thesis .
qed

text \<open>A directory on the way to a path below the home that passes the check is below the home.\<close>

lemma home_checked:
  assumes "linkless hl f" and "list_all name_ok (hl @ es)" and "u_HomeDir (c_User c) = make_path True hl"
    and "prefix zs (hl @ es)"
  shows "dirs_checked (prefix hl) env c f zs"
  unfolding dirs_checked_def
proof (intro allI impI)
  fix k d
  assume r: "reaches f kernel_links True [] (take k zs) d" and s: "isSubDir env f c (make_path True d) = None"
  have pre: "prefix (take k zs) (hl @ es)" using assms(4) take_is_prefix prefix_order.trans by blast
  then have "list_all name_ok (take k zs)" using assms(2) by (metis list_all_append prefixE)
  from path_reaches [OF assms(1) this pre r] have d: "prefix d (hl @ es)" using pre by simp
  from isSubDir_inside [OF s] obtain h where h: "EvalSymlinks env f (make_path True hl) = Inr h" "inside h d"
    using assms(3) by auto
  have ok: "list_all name_ok hl" using assms(2) by simp
  from h(1) obtain l where l: "reaches f eval_links True [] hl l" "h = make_path True l"
    by (auto simp: EvalSymlinks_make_path [OF ok] reaches_iff split: option.splits sum.splits if_splits)
  have "h = make_path True hl" using path_reaches [OF assms(1) ok, of "[]" eval_links True l] l by simp
  then have len: "length (make_path True hl) \<le> length (make_path True d)"
    using h(2) by (simp add: inside_def prefix_length_le)
  show "prefix hl d"
  proof (rule ccontr)
    assume "\<not> prefix hl d"
    then have "strict_prefix d hl" using d by (metis prefix_same_cases prefixI strict_prefix_def)
    then obtain x r where "hl = d @ x # r" by (auto elim: strict_prefixE')
    then show False using make_path_longer [of x d r] ok len by simp
  qed
qed

section \<open>Calls that make no links\<close>

definition no_new_links :: "fs \<Rightarrow> fs \<Rightarrow> bool" where
  "no_new_links f f' \<longleftrightarrow> (\<forall>l. is_link (at f' l) \<longrightarrow> is_link (at f l))"

lemma no_new_links_refl [simp]: "no_new_links f f"
  by (simp add: no_new_links_def)

lemma no_new_links_trans: "no_new_links f f1 \<Longrightarrow> no_new_links f1 f2 \<Longrightarrow> no_new_links f f2"
  by (simp add: no_new_links_def)

lemma linkless_kept: "linkless hl f \<Longrightarrow> no_new_links f f' \<Longrightarrow> linkless hl f'"
  by (auto simp: linkless_def no_new_links_def)

lemma put_links: "\<not> is_link (Some nd) \<Longrightarrow> l \<noteq> [] \<or> is_dir (Some nd) \<Longrightarrow> no_new_links f (put l nd f)"
  by (auto simp: no_new_links_def at_put)

lemma drop_under_links: "l \<noteq> [] \<Longrightarrow> no_new_links f (drop_under l f)"
  by (auto simp: no_new_links_def at_drop_under is_link_def)

lemma change_meta_links [simp]: "no_new_links f (snd (change_meta opn g env f p))"
proof -
  have "no_new_links f (update_meta g l f)" for l
    by (auto simp: update_meta_def is_link_iff is_dir_iff no_new_links_def at_put split: option.splits node.splits if_splits)
  then show ?thesis by (auto simp: change_meta_def split: sum.splits)
qed

lemma SetPathPermissions_links [simp]: "no_new_links f (SetPathPermissions env p uid gid f)"
  by (simp add: SetPathPermissions_def os_Chown_def)

lemma Mkdir_links [simp]: "no_new_links f (snd (os_Mkdir env f p perm))"
  by (auto simp: os_Mkdir_def is_link_def is_dir_def intro!: put_links split: sum.splits)

lemma Remove_links [simp]: "no_new_links f (snd (os_Remove env f p))"
  by (auto simp: os_Remove_def intro!: drop_under_links split: sum.splits)

lemma RemoveAll_links [simp]: "no_new_links f (snd (os_RemoveAll env f p))"
proof -
  have "no_new_links f (f\<lparr>fs_tree := []\<rparr>)" by (auto simp: no_new_links_def at_def is_link_def)
  then show ?thesis by (auto simp: os_RemoveAll_def intro!: drop_under_links split: sum.splits)
qed

lemma OpenFile_links [simp]: "no_new_links f (snd (os_OpenFile env f p flags perm))"
  unfolding no_new_links_def
proof (intro allI impI)
  fix x assume "is_link (at (snd (os_OpenFile env f p flags perm)) x)"
  then show "is_link (at f x)" using OpenFile_at [of env f p flags perm x] by (auto simp: is_link_def)
qed

lemma make_dirs_links: "make_dirs env u ds f = (err, f') \<Longrightarrow> no_new_links f f'"
proof (induction ds arbitrary: f)
  case (Cons d ds)
  obtain e f1 where m: "os_Mkdir env f d 0x1FF = (e, f1)" by force
  have l1: "no_new_links f f1" using Mkdir_links [of f env d "0x1FF"] m by simp
  show ?case
  proof (cases e)
    case None
    then have "no_new_links (SetPathPermissions env d (GetUID u) (GetGID u) f1) f'" using Cons m by simp
    then show ?thesis using no_new_links_trans [OF l1 no_new_links_trans [OF SetPathPermissions_links]] by blast
  qed (use Cons.prems m l1 in auto)
qed simp

lemma createMissingDirs_links: "createMissingDirs env c p f = (err, f') \<Longrightarrow> no_new_links f f'"
  by (auto simp: createMissingDirs_def dest: make_dirs_links split: prod.splits option.splits)

text \<open>A rename moves links only when there are some below the source.\<close>

lemma Rename_links:
  assumes "linkless hl f" and "\<And>l. resolve env f False p = Inr l \<Longrightarrow> prefix hl l"
  shows "no_new_links f (snd (os_Rename env f p q))"
proof (cases "resolve_op env f False ''rename'' p")
  case (Inr l)
  have l: "prefix hl l" using assms(2) resolve_opD [OF Inr] by blast
  have "no_new_links f (move l k f)" if "l \<noteq> []" "k \<noteq> []" for k
    unfolding no_new_links_def
  proof (intro allI impI)
    fix x assume x: "is_link (at (move l k f) x)"
    have "prefix hl (l @ drop (length k) x)" using l by (auto simp: prefix_def)
    then have "\<not> is_link (at f (l @ drop (length k) x))" using assms(1) unfolding linkless_def by blast
    then show "is_link (at f x)" using x that by (auto simp: at_move is_link_def split: if_splits)
  qed
  then have "no_new_links f (move l k f)" if "at f l \<noteq> None" "\<not> is_dir (at f k)" "\<not> prefix l k" for k
    using that by (metis at_root is_dir_def node.simps(10) option.simps(5) Nil_prefix)
  then show ?thesis
    by (cases "resolve_op env f False ''rename'' q") (auto simp: os_Rename_def Inr)
qed (simp add: os_Rename_def)

end
