(* ===== verification/Sftp_RequestInv.thy ===== *)
theory Sftp_RequestInv
  imports Sftp_RequestProps
begin

text \<open>
  What the handlers keep, the request server keeps. The locale \<open>kept_by_handlers\<close> is the contract of a
  set of handlers for an invariant of the world: every call keeps it, and the objects handed out
  stay usable. From it follows that a worker keeps the invariant on every packet, and with it a
  whole session, from the first packet to the closing of the requests left open. The requests
  that the server builds carry clean paths, apart from the target of a posix rename, which the
  worker takes from the packet as it is.
\<close>

section \<open>Runs of a session\<close>

text \<open>
  The packets of a session, handled one after the other; the result is \<open>None\<close> after a panic.
  \<open>Serve\<close> hands the packets to workers, and the handlers of a connection exclude each other, so
  that a session is one such sequence of packets, in the order in which they were taken up.
\<close>

fun serve_packets :: "extensionPair list \<Rightarrow> ('w, 'h, 'l) Handlers \<Rightarrow> clock \<Rightarrow> (nat \<Rightarrow> bytes) \<Rightarrow> u32
    \<Rightarrow> requestPacket list \<Rightarrow> ('h, 'l) RequestServer \<Rightarrow> 'w
    \<Rightarrow> (responsePacket list \<times> ('h, 'l) RequestServer \<times> 'w) option" where
  "serve_packets exts hs ck mem oid [] rs w = Some ([], rs, w)"
| "serve_packets exts hs ck mem oid (p # ps) rs w =
     (case packetWorker exts hs ck mem oid p rs w of
        None \<Rightarrow> None
      | Some (rpkt, rs, w) \<Rightarrow>
          (case serve_packets exts hs ck mem (oid + 1) ps rs w of
             None \<Rightarrow> None
           | Some (rpkts, rs, w) \<Rightarrow> Some (rpkt # rpkts, rs, w)))"

definition Serve :: "extensionPair list \<Rightarrow> ('w, 'h, 'l) Handlers \<Rightarrow> clock \<Rightarrow> (nat \<Rightarrow> bytes) \<Rightarrow> reader
    \<Rightarrow> allocator option \<Rightarrow> 'w \<Rightarrow> (responsePacket list \<times> goerr option \<times> 'w) option" where
  "Serve exts hs ck mem rd alloc w =
     (let (pkts, err) = serveLoop rd alloc 1
      in case serve_packets exts hs ck mem 1 pkts (NewRequestServer alloc) w of
           None \<Rightarrow> None
         | Some (rpkts, rs, w) \<Rightarrow>
             (let (err, rs, w) = Serve_cleanup hs (Some err) rs w in Some (rpkts, err, w)))"

section \<open>Requests with clean paths\<close>

definition clean_req :: "('h, 'l) Request \<Rightarrow> bool" where
  "clean_req r \<longleftrightarrow> (\<exists>x. rq_Filepath r = cleanPath x) \<and> (rq_Target r = [] \<or> (\<exists>y. rq_Target r = cleanPath y))"

fun posix_rename :: "requestPacket \<Rightarrow> bool" where
  "posix_rename (sshFxpExtendedPacket _ _ (Some (sshFxpExtendedPacketPosixRename _ _ _ _))) = True"
| "posix_rename _ = False"

lemma clean_req_New [simp]: "clean_req (NewRequest m p)"
  by (auto simp: clean_req_def NewRequest_def)

lemma clean_req_fields [simp]:
  "clean_req (r\<lparr>rq_Method := m\<rparr>) = clean_req r" "clean_req (r\<lparr>rq_Flags := fl\<rparr>) = clean_req r"
  "clean_req (r\<lparr>rq_Attrs := b\<rparr>) = clean_req r" "clean_req (r\<lparr>rq_handle := h\<rparr>) = clean_req r"
  "clean_req (r\<lparr>rq_writerAt := x\<rparr>) = clean_req r" "clean_req (r\<lparr>rq_readerAt := x\<rparr>) = clean_req r"
  "clean_req (r\<lparr>rq_writerReaderAt := x\<rparr>) = clean_req r" "clean_req (r\<lparr>rq_listerAt := l\<rparr>) = clean_req r"
  "clean_req (lsInc n r) = clean_req r"
  by (simp_all add: clean_req_def lsInc_def)

lemma clean_req_target: "clean_req r \<Longrightarrow> clean_req (r\<lparr>rq_Target := cleanPath y\<rparr>)"
  by (auto simp: clean_req_def)

lemma requestFromPacket_clean: "requestFromPacket pkt p = Some r \<Longrightarrow> clean_req r"
  by (auto simp: requestFromPacket_def Let_def intro!: clean_req_target
      split: wpkt.splits requestPacket.splits extendedPacket.splits option.splits)

text \<open>Handlers may rely on clean paths, which is the argument \<open>strict\<close>.\<close>

definition req_ok :: "bool \<Rightarrow> ('h, 'l) Request \<Rightarrow> bool" where
  "req_ok strict r \<longleftrightarrow> (strict \<longrightarrow> clean_req r)"

lemma req_ok_New [simp]: "req_ok strict (NewRequest m p)"
  by (simp add: req_ok_def)

lemma req_ok_fields [simp]:
  "req_ok strict (r\<lparr>rq_Method := m\<rparr>) = req_ok strict r" "req_ok strict (r\<lparr>rq_Flags := fl\<rparr>) = req_ok strict r"
  "req_ok strict (r\<lparr>rq_Attrs := b\<rparr>) = req_ok strict r" "req_ok strict (r\<lparr>rq_handle := h\<rparr>) = req_ok strict r"
  "req_ok strict (r\<lparr>rq_writerAt := x\<rparr>) = req_ok strict r" "req_ok strict (r\<lparr>rq_readerAt := x\<rparr>) = req_ok strict r"
  "req_ok strict (r\<lparr>rq_writerReaderAt := x\<rparr>) = req_ok strict r" "req_ok strict (r\<lparr>rq_listerAt := l\<rparr>) = req_ok strict r"
  "req_ok strict (lsInc n r) = req_ok strict r"
  by (simp_all add: req_ok_def)

text \<open>The objects that a request refers to.\<close>

definition rq_objs :: "('h, 'l) Request \<Rightarrow> 'h set" where
  "rq_objs r = set_option (rq_writerAt r) \<union> set_option (rq_readerAt r) \<union> set_option (rq_writerReaderAt r)"

lemma rq_objs_New [simp]: "rq_objs (NewRequest m p) = {}"
  by (simp add: rq_objs_def NewRequest_def)

lemma rq_objs_fields [simp]:
  "rq_objs (r\<lparr>rq_Method := m\<rparr>) = rq_objs r" "rq_objs (r\<lparr>rq_Flags := fl\<rparr>) = rq_objs r"
  "rq_objs (r\<lparr>rq_Attrs := b\<rparr>) = rq_objs r" "rq_objs (r\<lparr>rq_handle := h\<rparr>) = rq_objs r"
  "rq_objs (r\<lparr>rq_listerAt := l\<rparr>) = rq_objs r" "rq_objs (r\<lparr>rq_Target := t\<rparr>) = rq_objs r"
  "rq_objs (lsInc n r) = rq_objs r"
  by (simp_all add: rq_objs_def lsInc_def)

lemma requestFromPacket_ok: "requestFromPacket pkt p = Some r \<Longrightarrow> req_ok strict r"
  by (simp add: req_ok_def requestFromPacket_clean)

lemma requestFromPacket_objs: "requestFromPacket pkt p = Some r \<Longrightarrow> rq_objs r = {}"
  by (auto simp: requestFromPacket_def Let_def
      split: wpkt.splits requestPacket.splits extendedPacket.splits option.splits)

text \<open>Closing a request closes its objects one after the other.\<close>

definition close_part :: "('w, 'h, 'l) Handlers \<Rightarrow> 'h option \<Rightarrow> goerr option \<Rightarrow> 'w \<Rightarrow> goerr option \<times> 'w" where
  "close_part hs obj err w =
     (case close_obj hs obj w of None \<Rightarrow> (err, w) | Some (err2, w) \<Rightarrow> (if err = None then err2 else err, w))"

lemma Request_close_parts:
  "snd (snd (Request_close hs r w)) =
     (let (e1, w1) = close_part hs (rq_writerAt r) None w; (e2, w2) = close_part hs (rq_writerReaderAt r) e1 w1
      in snd (close_part hs (rq_readerAt r) e2 w2))"
  by (simp add: Request_close_def close_part_def Let_def case_prod_unfold split: option.split)

lemma set_update_subset: "set (AList.update k v al) \<subseteq> insert (k, v) (set al)"
  by (induction al) auto

section \<open>The contract of the handlers\<close>

text \<open>A step from one world to another keeps the invariant and the objects that can be used.\<close>

definition keeps :: "('w \<Rightarrow> bool) \<Rightarrow> ('w \<Rightarrow> 'h \<Rightarrow> bool) \<Rightarrow> 'w \<Rightarrow> 'w \<Rightarrow> bool" where
  "keeps I ok w w' \<longleftrightarrow> I w' \<and> (\<forall>x. ok w x \<longrightarrow> ok w' x)"

lemma keeps_refl: "I w \<Longrightarrow> keeps I ok w w"
  by (simp add: keeps_def)

lemma keeps_trans: "keeps I ok w w1 \<Longrightarrow> keeps I ok w1 w2 \<Longrightarrow> keeps I ok w w2"
  by (simp add: keeps_def)

lemma keepsD: "keeps I ok w w' \<Longrightarrow> I w'" "keeps I ok w w' \<Longrightarrow> ok w x \<Longrightarrow> ok w' x"
  by (simp_all add: keeps_def)

locale kept_by_handlers =
  fixes strict :: bool and hs :: "('w, 'h, 'l) Handlers" and I :: "'w \<Rightarrow> bool" and ok :: "'w \<Rightarrow> 'h \<Rightarrow> bool"
  assumes Fileread: "I w \<Longrightarrow> req_ok strict r \<Longrightarrow> h_Fileread hs r w = (res, w')
      \<Longrightarrow> keeps I ok w w' \<and> (\<forall>x. res = Inr x \<longrightarrow> ok w' x)"
    and Filewrite: "I w \<Longrightarrow> req_ok strict r \<Longrightarrow> h_Filewrite hs r w = (res, w')
      \<Longrightarrow> keeps I ok w w' \<and> (\<forall>x. res = Inr x \<longrightarrow> ok w' x)"
    and OpenFile: "h_OpenFile hs = Some opn \<Longrightarrow> I w \<Longrightarrow> req_ok strict r \<Longrightarrow> opn r w = (res, w')
      \<Longrightarrow> keeps I ok w w' \<and> (\<forall>x. res = Inr x \<longrightarrow> ok w' x)"
    and Filecmd: "I w \<Longrightarrow> req_ok strict r \<Longrightarrow> h_Filecmd hs r w = (err, w') \<Longrightarrow> keeps I ok w w'"
    and PosixRename: "h_PosixRename hs = Some ren \<Longrightarrow> I w \<Longrightarrow> req_ok strict r \<Longrightarrow> ren r w = (err, w') \<Longrightarrow> keeps I ok w w'"
    and Filelist: "I w \<Longrightarrow> req_ok strict r \<Longrightarrow> h_Filelist hs r w = (l, w') \<Longrightarrow> keeps I ok w w'"
    and Lstat: "h_Lstat hs = Some lst \<Longrightarrow> I w \<Longrightarrow> req_ok strict r \<Longrightarrow> lst r w = (l, w') \<Longrightarrow> keeps I ok w w'"
    and ReadAt: "I w \<Longrightarrow> ok w x \<Longrightarrow> h_ReadAt hs x n off w = (rd, w') \<Longrightarrow> keeps I ok w w'"
    and WriteAt: "I w \<Longrightarrow> ok w x \<Longrightarrow> h_WriteAt hs x b off w = (err, w') \<Longrightarrow> keeps I ok w w'"
    and Close: "h_Close hs x = Some cl \<Longrightarrow> I w \<Longrightarrow> ok w x \<Longrightarrow> cl w = (err, w') \<Longrightarrow> keeps I ok w w'"
    and TransferError: "h_TransferError hs x = Some tr \<Longrightarrow> I w \<Longrightarrow> ok w x \<Longrightarrow> tr e w = w' \<Longrightarrow> keeps I ok w w'"
    and ListAt: "I w \<Longrightarrow> h_ListAt hs lister n off w = (fi, w') \<Longrightarrow> keeps I ok w w'"
begin

definition objs_ok :: "'w \<Rightarrow> ('h, 'l) Request \<Rightarrow> bool" where
  "objs_ok w r \<longleftrightarrow> (\<forall>x \<in> rq_objs r. ok w x)"

lemma same: "I w \<Longrightarrow> keeps I ok w w"
  by (rule keeps_refl)

lemma objs_keep: "objs_ok w r \<Longrightarrow> keeps I ok w w' \<Longrightarrow> objs_ok w' r"
  by (auto simp: objs_ok_def keeps_def)

lemma close_obj_keeps:
  assumes "I w" and "\<forall>x. obj = Some x \<longrightarrow> ok w x" and "close_obj hs obj w = Some (err, w')"
  shows "keeps I ok w w'"
  using assms Close by (auto simp: close_obj_def split: option.splits)

lemma close_part_keeps:
  assumes "I w" and "\<forall>x. obj = Some x \<longrightarrow> ok w x"
  shows "keeps I ok w (snd (close_part hs obj err w))"
proof (cases "close_obj hs obj w")
  case None
  then show ?thesis using assms(1) by (simp add: close_part_def same)
next
  case (Some q)
  then show ?thesis using close_obj_keeps [OF assms] by (cases q) (auto simp: close_part_def)
qed

lemma Request_close_keeps:
  assumes "I w" and "objs_ok w r" and "Request_close hs r w = (err, r', w')"
  shows "keeps I ok w w'"
proof -
  have objs: "\<forall>x. rq_writerAt r = Some x \<longrightarrow> ok v x" "\<forall>x. rq_readerAt r = Some x \<longrightarrow> ok v x"
    "\<forall>x. rq_writerReaderAt r = Some x \<longrightarrow> ok v x" if "keeps I ok w v" for v
    using that assms(2) by (auto simp: objs_ok_def rq_objs_def keeps_def)
  let ?s1 = "close_part hs (rq_writerAt r) None w"
  let ?s2 = "close_part hs (rq_writerReaderAt r) (fst ?s1) (snd ?s1)"
  have k1: "keeps I ok w (snd ?s1)" by (rule close_part_keeps [OF assms(1) objs(1) [OF same [OF assms(1)]]])
  have k2: "keeps I ok w (snd ?s2)"
    using keeps_trans [OF k1 close_part_keeps [OF keepsD(1) [OF k1] objs(3) [OF k1]]] .
  have "keeps I ok w (snd (close_part hs (rq_readerAt r) (fst ?s2) (snd ?s2)))"
    using keeps_trans [OF k2 close_part_keeps [OF keepsD(1) [OF k2] objs(2) [OF k2]]] .
  then show ?thesis using Request_close_parts [of hs r w] assms(3) by (simp add: case_prod_unfold Let_def)
qed

lemma notify_keeps:
  assumes "I w" and "\<forall>x. obj = Some x \<longrightarrow> ok w x"
  shows "keeps I ok w (notify hs e obj w)"
  using assms TransferError by (auto simp: notify_def keeps_refl split: option.splits)

lemma Request_transferError_keeps:
  assumes "I w" and "objs_ok w r"
  shows "keeps I ok w (Request_transferError hs err r w)"
proof (cases err)
  case (Some e)
  have objs: "\<forall>x. rq_writerAt r = Some x \<longrightarrow> ok v x" "\<forall>x. rq_readerAt r = Some x \<longrightarrow> ok v x"
    "\<forall>x. rq_writerReaderAt r = Some x \<longrightarrow> ok v x" if "keeps I ok w v" for v
    using that assms(2) by (auto simp: objs_ok_def rq_objs_def keeps_def)
  note k1 = notify_keeps [OF assms(1) objs(1) [OF same [OF assms(1)]], of e]
  note k2 = keeps_trans [OF k1 notify_keeps [OF keepsD(1) [OF k1] objs(3) [OF k1]]]
  note k3 = keeps_trans [OF k2 notify_keeps [OF keepsD(1) [OF k2] objs(2) [OF k2]]]
  then show ?thesis by (simp add: Request_transferError_def Some Let_def)
qed (use assms(1) in \<open>simp add: Request_transferError_def keeps_refl\<close>)

lemma fileget_keeps:
  assumes "I w" and "objs_ok w r" and "fileget hs mem r pkt al oid w = (rp, al', w')"
  shows "keeps I ok w w'"
  using assms ReadAt
  by (auto simp: fileget_def objs_ok_def rq_objs_def same split: option.splits prod.splits)

lemma fileput_keeps:
  assumes "I w" and "objs_ok w r" and "fileput hs mem r pkt al oid w = (rp, al', w')"
  shows "keeps I ok w w'"
  using assms WriteAt
  by (auto simp: fileput_def objs_ok_def rq_objs_def same split: option.splits prod.splits)

lemma fileputget_keeps:
  assumes "I w" and "objs_ok w r" and "fileputget hs mem r pkt al oid w = (rp, al', w')"
  shows "keeps I ok w w'"
proof (cases "rq_writerReaderAt r")
  case (Some x)
  then have x: "ok w x" using assms(2) by (simp add: objs_ok_def rq_objs_def)
  show ?thesis
  proof (cases pkt)
    case (PReq q)
    then show ?thesis using assms(1,3) Some ReadAt [OF assms(1) x] WriteAt [OF assms(1) x] same
      by (cases q) (auto simp: fileputget_def split: prod.splits)
  qed (use assms Some same in \<open>simp add: fileputget_def\<close>)
qed (use assms same in \<open>simp add: fileputget_def\<close>)

lemma filecmd_keeps:
  assumes "I w" and "req_ok strict r" and "filecmd hs r pkt w = Some (rp, r', w')"
  shows "keeps I ok w w' \<and> req_ok strict r' \<and> rq_objs r' = rq_objs r"
proof -
  let ?c = "case pkt of
       PReq (sshFxpFsetstatPacket _ flags _ attrs) \<Rightarrow> map_option (\<lambda>b. r\<lparr>rq_Flags := flags, rq_Attrs := b\<rparr>) (attrs_bytes attrs)
     | _ \<Rightarrow> Some r"
  obtain r1 where c: "?c = Some r1"
  proof (cases ?c)
    case None
    then show ?thesis using assms(3) unfolding filecmd_def Let_def None by simp
  qed
  have r1: "req_ok strict r1" "rq_objs r1 = rq_objs r"
    using c assms(2) by (auto split: wpkt.splits requestPacket.splits option.splits)
  show ?thesis
    using assms(3) Filecmd [OF assms(1), of r1] Filecmd [OF assms(1), of "r1\<lparr>rq_Method := ''Rename''\<rparr>"]
      PosixRename [OF _ assms(1), of _ r1] r1
    unfolding filecmd_def Let_def c option.case by (auto split: if_splits option.splits prod.splits)
qed

lemma filelist_keeps:
  assumes "I w" and "req_ok strict r" and "filelist hs ck r pkt w = (rp, r', w')"
  shows "keeps I ok w w' \<and> req_ok strict r' \<and> rq_objs r' = rq_objs r"
  using assms ListAt
  by (auto simp: filelist_def same Let_def split: option.splits prod.splits if_splits)

lemma filestat_keeps:
  assumes "I w" and "req_ok strict r" and "filestat hs r pkt w = (rp, r', w')"
  shows "keeps I ok w w' \<and> req_ok strict r' \<and> rq_objs r' = rq_objs r"
proof -
  obtain l r1 w1 where f: "(if rq_Method r = ''Lstat''
         then (case h_Lstat hs of
                 Some lstat \<Rightarrow> (let (l, w) = lstat r w in (l, r, w))
               | None \<Rightarrow> (let r = r\<lparr>rq_Method := ''Stat''\<rparr>; (l, w) = h_Filelist hs r w in (l, r, w)))
         else (let (l, w) = h_Filelist hs r w in (l, r, w))) = (l, r1, w1)" by (rule prod_cases3)
  then have r1: "keeps I ok w w1" "req_ok strict r1" "rq_objs r1 = rq_objs r"
    using Filelist [OF assms(1), of r] Filelist [OF assms(1), of "r\<lparr>rq_Method := ''Stat''\<rparr>"] Lstat [OF _ assms(1), of _ r] assms(2)
    by (auto simp: Let_def split: if_splits option.splits prod.splits)
  have eq: "filestat hs r pkt w = (case l of
       Inl err \<Rightarrow> (statusFromError (wpkt_id pkt) (Some err), r1, w1)
     | Inr lister \<Rightarrow> (let ((finfo, err), w) = h_ListAt hs lister 1 0 w1 in (stat_reply (wpkt_id pkt) r1 finfo err, r1, w)))"
    unfolding filestat_def f by (simp only: Let_def prod.case)
  have "keeps I ok w1 w' \<and> r' = r1"
  proof (cases l)
    case (Inl e)
    then show ?thesis using assms(3) eq same [OF keepsD(1) [OF r1(1)]] by simp
  next
    case (Inr lister)
    then show ?thesis using assms(3) eq ListAt [OF keepsD(1) [OF r1(1)], of lister 1 0]
      by (cases "h_ListAt hs lister 1 0 w1") (auto simp: case_prod_unfold)
  qed
  then show ?thesis using r1(2,3) keeps_trans [OF r1(1)] by blast
qed

lemma Request_call_keeps:
  assumes "I w" and "req_ok strict r" and "objs_ok w r" and "Request_call hs ck mem r pkt al oid w = Some (rp, r', al', w')"
  shows "keeps I ok w w' \<and> req_ok strict r' \<and> rq_objs r' = rq_objs r"
proof -
  have get: "keeps I ok w (snd (snd (fileget hs mem r pkt al oid w)))"
    and put: "keeps I ok w (snd (snd (fileput hs mem r pkt al oid w)))"
    and both: "keeps I ok w (snd (snd (fileputget hs mem r pkt al oid w)))"
    using fileget_keeps [OF assms(1,3)] fileput_keeps [OF assms(1,3)] fileputget_keeps [OF assms(1,3)] by (metis prod.collapse)+
  have lst: "keeps I ok w (snd (snd (filelist hs ck r pkt w))) \<and> req_ok strict (fst (snd (filelist hs ck r pkt w)))
      \<and> rq_objs (fst (snd (filelist hs ck r pkt w))) = rq_objs r"
    using filelist_keeps [OF assms(1,2)] by (metis prod.collapse)
  have sta: "keeps I ok w (snd (snd (filestat hs r pkt w))) \<and> req_ok strict (fst (snd (filestat hs r pkt w)))
      \<and> rq_objs (fst (snd (filestat hs r pkt w))) = rq_objs r"
    using filestat_keeps [OF assms(1,2)] by (metis prod.collapse)
  from assms(4) show ?thesis unfolding Request_call_def Let_def case_prod_unfold
    by (simp only: split: if_split_asm)
      (use get put both lst sta assms(2) filecmd_keeps [OF assms(1,2)] same [OF assms(1)] in auto)
qed

text \<open>The two ways to open: the request that results refers to usable objects only.\<close>

definition opens_ok :: "(('h, 'l) Request \<Rightarrow> wpkt \<Rightarrow> 'w \<Rightarrow> responsePacket \<times> ('h, 'l) Request \<times> 'w) \<Rightarrow> bool" where
  "opens_ok opn \<longleftrightarrow> (\<forall>r pkt w rp r' w'. I w \<longrightarrow> req_ok strict r \<longrightarrow> rq_objs r = {} \<longrightarrow> opn r pkt w = (rp, r', w')
     \<longrightarrow> keeps I ok w w' \<and> req_ok strict r' \<and> objs_ok w' r')"

lemma Request_opendir_opens: "opens_ok (Request_opendir hs)"
  unfolding opens_ok_def
proof (intro allI impI)
  fix r :: "('h, 'l) Request" and pkt w rp r' w'
  assume a: "I w" "req_ok strict r" "rq_objs r = {}" "Request_opendir hs r pkt w = (rp, r', w')"
  then show "keeps I ok w w' \<and> req_ok strict r' \<and> objs_ok w' r'"
    using Filelist [OF a(1), of "r\<lparr>rq_Method := ''List''\<rparr>"]
    by (auto simp: Request_opendir_def objs_ok_def Let_def split: sum.splits prod.splits)
qed

lemma Request_open_opens: "opens_ok (Request_open hs)"
  unfolding opens_ok_def
proof (intro allI impI)
  fix r :: "('h, 'l) Request" and pkt w rp r' w'
  assume a: "I w" "req_ok strict r" "rq_objs r = {}" "Request_open hs r pkt w = (rp, r', w')"
  have none: "rq_writerAt r = None" "rq_readerAt r = None" "rq_writerReaderAt r = None"
    using a(3) by (auto simp: rq_objs_def)
  from a(4) none show "keeps I ok w w' \<and> req_ok strict r' \<and> objs_ok w' r'"
    using Filewrite [OF a(1), of "r\<lparr>rq_Method := ''Put''\<rparr>"] OpenFile [OF _ a(1), of _ "r\<lparr>rq_Method := ''Open''\<rparr>"]
      Fileread [OF a(1), of "r\<lparr>rq_Method := ''Get''\<rparr>"] same [OF a(1)] a(2)
    by (auto simp: Request_open_def objs_ok_def rq_objs_def Let_def split: sum.splits prod.splits if_splits option.splits)
qed

section \<open>Workers and sessions\<close>

text \<open>All open requests have clean paths and usable objects.\<close>

definition table_ok :: "'w \<Rightarrow> ('h, 'l) RequestServer \<Rightarrow> bool" where
  "table_ok w rs \<longleftrightarrow> (\<forall>(h, r) \<in> set (rsv_openRequests rs). req_ok strict r \<and> objs_ok w r)"

lemma table_get: "table_ok w rs \<Longrightarrow> getRequest rs h = Some r \<Longrightarrow> req_ok strict r \<and> objs_ok w r"
  by (auto simp: table_ok_def getRequest_def dest: map_of_SomeD)

lemma table_keep: "table_ok w rs \<Longrightarrow> keeps I ok w w' \<Longrightarrow> table_ok w' rs"
  by (auto simp: table_ok_def intro: objs_keep)

lemma table_alloc [simp]: "table_ok w (rs\<lparr>rsv_alloc := al\<rparr>) = table_ok w rs"
  by (simp add: table_ok_def)

lemma table_set: "table_ok w rs \<Longrightarrow> req_ok strict r \<Longrightarrow> objs_ok w r \<Longrightarrow> table_ok w (setRequest rs h r)"
  using set_update_subset [of h r "rsv_openRequests rs"] by (auto simp: table_ok_def setRequest_def)

lemma closeRequest_keeps:
  assumes "I w" and "table_ok w rs" and "closeRequest hs rs h w = (err, rs', w')"
  shows "keeps I ok w w' \<and> table_ok w' rs'"
proof (cases "getRequest rs h")
  case None
  then show ?thesis using assms same by (auto simp: closeRequest_def)
next
  case (Some r)
  obtain r' where c: "Request_close hs r w = (err, r', w')"
    using assms(3) Some by (auto simp: closeRequest_def Let_def split: prod.splits)
  have k: "keeps I ok w w'" using Request_close_keeps [OF assms(1) _ c] table_get [OF assms(2) Some] by blast
  have "rs' = deleteRequest rs h"
    using assms(3) Some by (auto simp: closeRequest_def Let_def split: prod.splits)
  then have "table_ok w rs'" using assms(2)
    by (auto simp: table_ok_def deleteRequest_def AList.delete_eq)
  then show ?thesis using k table_keep by blast
qed

lemma call_on_open_keeps:
  assumes "I w" and "table_ok w rs" and "call_on_open hs ck mem oid pkt h rs w = Some (rp, rs', w')"
  shows "keeps I ok w w' \<and> table_ok w' rs'"
proof (cases "getRequest rs h")
  case None
  then show ?thesis using assms same by (auto simp: call_on_open_def)
next
  case (Some r)
  then have r: "req_ok strict r" "objs_ok w r" using table_get [OF assms(2)] by auto
  from assms(3) Some obtain r' al where c: "Request_call hs ck mem r pkt (rsv_alloc rs) oid w = Some (rp, r', al, w')"
    and rs': "rs' = (setRequest rs h r')\<lparr>rsv_alloc := al\<rparr>"
    by (auto simp: call_on_open_def split: option.splits)
  from Request_call_keeps [OF assms(1) r c] have k: "keeps I ok w w'" "req_ok strict r'" "objs_ok w r'"
    using r(2) by (auto simp: objs_ok_def)
  then show ?thesis using table_set [OF table_keep [OF assms(2) k(1)] k(2) objs_keep [OF k(3,1)]] rs' by simp
qed

lemma call_on_copy_keeps:
  assumes "I w" and "table_ok w rs" and "call_on_copy hs ck mem oid pkt m h rs w = Some (rp, rs', w')"
  shows "keeps I ok w w' \<and> table_ok w' rs'"
proof (cases "getRequest rs h")
  case None
  then show ?thesis using assms same by (auto simp: call_on_copy_def)
next
  case (Some r)
  let ?r = "NewRequest m (rq_Filepath r) :: ('h, 'l) Request"
  from assms(3) Some obtain r' al where c: "Request_call hs ck mem ?r pkt (rsv_alloc rs) oid w = Some (rp, r', al, w')"
    and rs': "rs' = rs\<lparr>rsv_alloc := al\<rparr>"
    by (auto simp: call_on_copy_def split: option.splits)
  have "objs_ok w ?r" by (simp add: objs_ok_def)
  from Request_call_keeps [OF assms(1) req_ok_New this c] show ?thesis using table_keep [OF assms(2)] rs' by auto
qed

lemma open_with_keeps:
  assumes "I w" and "table_ok w rs" and opn: "opens_ok opn" and "open_with hs opn pkt path rs w = Some (rp, rs', w')"
  shows "keeps I ok w w' \<and> table_ok w' rs'"
proof -
  obtain r0 :: "('h, 'l) Request" where r0: "requestFromPacket pkt path = Some r0"
    using assms(4) by (auto simp: open_with_def split: option.splits)
  note r0 = r0 requestFromPacket_ok [where strict = strict, OF r0] requestFromPacket_objs [OF r0]
  obtain h rs1 where n: "nextRequest rs r0 = (h, rs1)" by force
  obtain rp1 r w1 where o: "opn (r0\<lparr>rq_handle := h\<rparr>) pkt w = (rp1, r, w1)" by (rule prod_cases3)
  have k: "keeps I ok w w1" "req_ok strict r" "objs_ok w1 r"
    using opn [unfolded opens_ok_def, rule_format, OF assms(1) _ _ o] r0(2,3) by auto
  have "rsv_openRequests rs1 = rsv_openRequests (setRequest rs h (r0\<lparr>rq_handle := h\<rparr>))"
    using n by (auto simp: nextRequest_def setRequest_def Let_def)
  moreover have "objs_ok w (r0\<lparr>rq_handle := h\<rparr>)" using r0(3) by (simp add: objs_ok_def)
  ultimately have "table_ok w rs1"
    using table_set [OF assms(2), of "r0\<lparr>rq_handle := h\<rparr>" h] r0(2) by (simp add: table_ok_def)
  note t1 = table_set [OF table_keep [OF this k(1)] k(2,3), of h]
  show ?thesis
  proof (cases "is_handle rp1")
    case True
    then show ?thesis using assms(4) r0(1) n o t1 k(1) by (auto simp: open_with_def Let_def)
  next
    case False
    then obtain err where "closeRequest hs (setRequest rs1 h r) h w1 = (err, rs', w')"
      using assms(4) r0(1) n o by (auto simp: open_with_def Let_def split: prod.splits)
    from closeRequest_keeps [OF keepsD(1) [OF k(1)] t1 this] show ?thesis using keeps_trans [OF k(1)] by blast
  qed
qed

lemma worker_other_keeps:
  assumes "I w" and "table_ok w rs" and "worker_other hs ck mem oid pkt rs w = Some (rp, rs', w')"
  shows "keeps I ok w w' \<and> table_ok w' rs'"
proof (cases "wpkt_getHandle pkt")
  case (Some h)
  then show ?thesis using assms call_on_open_keeps by (auto simp: worker_other_def)
next
  case None
  note nh = this
  show ?thesis
  proof (cases "wpkt_getPath pkt")
    case None
    then show ?thesis using nh assms same by (auto simp: worker_other_def)
  next
    case (Some path)
    from assms(3) nh Some obtain r rp1 r1 al w1 err r2 where
      r: "requestFromPacket pkt path = Some r"
      and c: "Request_call hs ck mem r pkt (rsv_alloc rs) oid w = Some (rp1, r1, al, w1)"
      and cl: "Request_close hs r1 w1 = (err, r2, w')" and rs': "rs' = rs\<lparr>rsv_alloc := al\<rparr>"
      by (auto simp: worker_other_def Let_def split: option.splits prod.splits)
    note r0 = requestFromPacket_ok [where strict = strict, OF r] requestFromPacket_objs [OF r]
    have "objs_ok w r" using r0(2) by (simp add: objs_ok_def)
    from Request_call_keeps [OF assms(1) r0(1) this c] have k: "keeps I ok w w1" and "objs_ok w1 r1"
      using r0(2) by (auto simp: objs_ok_def)
    from Request_close_keeps [OF keepsD(1) [OF k] this(2) cl] have k': "keeps I ok w w'" using keeps_trans [OF k] by blast
    then show ?thesis using table_keep [OF assms(2)] rs' by simp
  qed
qed

lemma packetWorker_keeps:
  assumes "I w" and "table_ok w rs" and "strict \<longrightarrow> \<not> posix_rename p" and "packetWorker exts hs ck mem oid p rs w = Some (rp, rs', w')"
  shows "keeps I ok w w' \<and> table_ok w' rs'"
proof -
  have close: "keeps I ok w w' \<and> table_ok w' rs'"
    if "closeRequest hs rs h w = (err, rs', w')" for h err
    using closeRequest_keeps [OF assms(1,2) that] .
  have keep: ?thesis if "(rs', w') = (rs, w)" using that assms(1,2) same by simp
  note parts = worker_other_keeps [OF assms(1,2)] call_on_copy_keeps [OF assms(1,2)]
    open_with_keeps [OF assms(1,2) Request_open_opens] open_with_keeps [OF assms(1,2) Request_opendir_opens]
  show ?thesis
  proof (cases "wpkt_of p")
    case (PReq q)
    then show ?thesis using assms(4) parts close keep
      by (cases q) (auto simp: packetWorker_def Let_def split: prod.splits)
  next
    case (PExt e)
    show ?thesis
    proof (cases e)
      case (sshFxpExtendedPacketPosixRename i q old new)
      let ?r = "(NewRequest ''PosixRename'' old)\<lparr>rq_Target := new\<rparr> :: ('h, 'l) Request"
      have "\<not> strict" using assms(3) PExt sshFxpExtendedPacketPosixRename by (cases p rule: wpkt_of.cases) auto
      then have r: "req_ok strict ?r" "objs_ok w ?r" by (simp_all add: req_ok_def objs_ok_def)
      from assms(4) obtain rp1 r1 al where "Request_call hs ck mem ?r (PExt e) (rsv_alloc rs) oid w = Some (rp1, r1, al, w')"
        and "rs' = rs\<lparr>rsv_alloc := al\<rparr>"
        by (auto simp: packetWorker_def PExt sshFxpExtendedPacketPosixRename split: option.splits)
      then show ?thesis using Request_call_keeps [OF assms(1) r] table_keep [OF assms(2)] by fastforce
    qed (use assms(4) parts(1) PExt in \<open>auto simp: packetWorker_def\<close>)
  qed
qed

lemma serve_packets_keeps:
  assumes "I w" and "table_ok w rs" and "list_all (\<lambda>p. strict \<longrightarrow> \<not> posix_rename p) ps"
    and "serve_packets exts hs ck mem oid ps rs w = Some (rps, rs', w')"
  shows "keeps I ok w w' \<and> table_ok w' rs'"
  using assms
proof (induction ps arbitrary: oid rs w rps)
  case Nil
  then show ?case using same by auto
next
  case (Cons p ps)
  from Cons.prems(4) obtain rp rs1 w1 rps1 where
    p: "packetWorker exts hs ck mem oid p rs w = Some (rp, rs1, w1)"
    and ps: "serve_packets exts hs ck mem (oid + 1) ps rs1 w1 = Some (rps1, rs', w')"
    by (auto split: option.splits)
  have k: "keeps I ok w w1" "table_ok w1 rs1" using packetWorker_keeps [OF Cons.prems(1,2) _ p] Cons.prems(3) by auto
  from Cons.IH [OF keepsD(1) [OF k(1)] k(2) _ ps] Cons.prems(3) show ?case using keeps_trans [OF k(1)] by auto
qed

lemma cleanup_keeps:
  assumes "I w" and "list_all (\<lambda>(h, r). objs_ok w r) reqs"
    and "fold (\<lambda>(handle, req) (err, rs, w).
        (let err = (if err = Some IoEOF then Some IoUnexpectedEOF else err);
             w = Request_transferError hs err req w;
             rs = deleteRequest rs handle;
             (_, _, w) = Request_close hs req w
         in (err, rs, w))) reqs (err, rs, w) = (err', rs', w')"
  shows "keeps I ok w w'"
  using assms
proof (induction reqs arbitrary: err rs w)
  case Nil
  then show ?case using same by simp
next
  case (Cons q reqs)
  obtain h r where q: "q = (h, r)" by force
  let ?err = "if err = Some IoEOF then Some IoUnexpectedEOF else err"
  let ?w1 = "Request_transferError hs ?err r w"
  obtain e2 r2 w2 where c: "Request_close hs r ?w1 = (e2, r2, w2)" by (rule prod_cases3)
  have r: "objs_ok w r" and rest: "list_all (\<lambda>(h, r). objs_ok w r) reqs" using Cons.prems(2) q by auto
  note k1 = Request_transferError_keeps [OF Cons.prems(1) r, of ?err]
  note k2 = keeps_trans [OF k1 Request_close_keeps [OF keepsD(1) [OF k1] objs_keep [OF r k1] c]]
  have "list_all (\<lambda>(h, r). objs_ok w2 r) reqs" using rest objs_keep [OF _ k2] by (auto simp: list_all_iff)
  from Cons.IH [OF keepsD(1) [OF k2] this, of ?err "deleteRequest rs h"] Cons.prems(3) q c
  have "keeps I ok w2 w'" by (simp add: Let_def)
  then show ?case using keeps_trans [OF k2] by blast
qed

theorem Serve_keeps:
  assumes "I w" and "list_all (\<lambda>p. strict \<longrightarrow> \<not> posix_rename p) (fst (serveLoop rd alloc 1))"
    and "Serve exts hs ck mem rd alloc w = Some (rps, err, w')"
  shows "I w'"
proof -
  obtain pkts e where l: "serveLoop rd alloc 1 = (pkts, e)" by force
  from assms(3) obtain rs1 w1 rs2 where
    s: "serve_packets exts hs ck mem 1 pkts (NewRequestServer alloc) w = Some (rps, rs1, w1)"
    and c: "Serve_cleanup hs (Some e) rs1 w1 = (err, rs2, w')"
    by (auto simp: Serve_def l Let_def split: option.splits prod.splits)
  have "table_ok w (NewRequestServer alloc)" by (simp add: table_ok_def NewRequestServer_def)
  from serve_packets_keeps [OF assms(1) this _ s] assms(2) l have k: "keeps I ok w w1" "table_ok w1 rs1" by auto
  have "list_all (\<lambda>(h, r). objs_ok w1 r) (rsv_openRequests rs1)" using k(2) by (auto simp: table_ok_def list_all_iff)
  from cleanup_keeps [OF keepsD(1) [OF k(1)] this] c show ?thesis unfolding Serve_cleanup_def keeps_def by blast
qed

end

end
