(* ===== verification/Serv_Session.thy ===== *)
theory Serv_Session
  imports Serv_Links Sftp_RequestInv
begin

text \<open>
  An sftp session of the server, \<open>handleSftpConnection\<close> of \<^verbatim>\<open>src/serv/server.go\<close>: the handlers of
  \<^verbatim>\<open>src/serv/filehandler.go\<close> under the request server of \<^verbatim>\<open>src/sftp/request-server.go\<close>. The world
  of the request server is the state of the server process, or nothing once it has panicked.
  The contract of the handlers is discharged for the confinement to the home directory, which
  gives that no session, whatever bytes its client sends, changes the tree outside.
\<close>

section \<open>The session\<close>

definition conn_call :: "('p serv \<Rightarrow> ('a \<times> 'p serv) option) \<Rightarrow> 'a \<Rightarrow> 'p serv option \<Rightarrow> 'a \<times> 'p serv option" where
  "conn_call call dead w =
     (case w of
        None \<Rightarrow> (dead, None)
      | Some s \<Rightarrow> (case call s of None \<Rightarrow> (dead, None) | Some (r, s) \<Rightarrow> (r, Some s)))"

definition connection_handlers :: "'p settings \<Rightarrow> Connection \<Rightarrow> (u32 \<Rightarrow> string option) \<Rightarrow> (u32 \<Rightarrow> string option)
    \<Rightarrow> ('p serv option, nat, fileInfo list) Handlers" where
  "connection_handlers se c unames gnames =
     \<lparr>h_Fileread = (\<lambda>r. conn_call (Connection_Fileread se c r) (Inl ErrSSHFxFailure)),
      h_Filewrite = (\<lambda>r. conn_call (\<lambda>s. Some (Connection_Filewrite se c r s)) (Inl ErrSSHFxFailure)),
      h_OpenFile = None,
      h_Filecmd = (\<lambda>r. conn_call (\<lambda>s. Some (Connection_Filecmd se c r s)) (Some ErrSSHFxFailure)),
      h_PosixRename = None,
      h_Filelist = (\<lambda>r. conn_call (\<lambda>s. Some (Connection_Filelist se c r s)) (Inl ErrSSHFxFailure)),
      h_Lstat = None,
      h_ReadAt = (\<lambda>i n off. conn_call (\<lambda>s. Some (Transfer_ReadAt se i n off s)) ([], Some ErrSSHFxFailure)),
      h_WriteAt = (\<lambda>i b off. conn_call (\<lambda>s. let ((n, e), s) = Transfer_WriteAt se i b off s in Some (e, s)) (Some ErrSSHFxFailure)),
      h_Close = (\<lambda>i. Some (conn_call (\<lambda>s. Some (Transfer_Close se i s)) (Some ErrSSHFxFailure))),
      h_TransferError = (\<lambda>_. None),
      h_ListAt = (\<lambda>l n off. conn_call (\<lambda>s. map_option (\<lambda>r. (r, s)) (listerAt_ListAt unames gnames l n off)) ([], Some ErrSSHFxFailure))\<rparr>"

text \<open>A session on the local disk; the connection is registered while the session lasts.\<close>

definition handleSftpConnection :: "'p settings \<Rightarrow> Connection \<Rightarrow> (u32 \<Rightarrow> string option) \<Rightarrow> (u32 \<Rightarrow> string option)
    \<Rightarrow> extensionPair list \<Rightarrow> clock \<Rightarrow> (nat \<Rightarrow> bytes) \<Rightarrow> reader \<Rightarrow> allocator option \<Rightarrow> 'p serv
    \<Rightarrow> (responsePacket list \<times> goerr option \<times> 'p serv) option" where
  "handleSftpConnection se c unames gnames exts ck mem rd alloc s =
     (let s = addConnection (c_ID c) c s
      in case Serve exts (connection_handlers se c unames gnames) ck mem rd alloc (Some s) of
           Some (rpkts, err, Some s) \<Rightarrow> Some (rpkts, err, removeConnection (c_ID c) s)
         | _ \<Rightarrow> None)"

section \<open>Steps inside the home directory\<close>

definition transfer_ok :: "loc \<Rightarrow> fs \<Rightarrow> Transfer \<Rightarrow> bool" where
  "transfer_ok hl f0 t \<longleftrightarrow>
     (writable (fl_flags (t_file t)) \<longrightarrow> (\<forall>k. fl_inode (t_file t) = Some k \<longrightarrow> from_inside (prefix hl) f0 k))
     \<and> (t_transferType t = transferUpload \<longrightarrow> fl_Name (t_file t) = t_path t)"

text \<open>
  The invariant of a session that began in the tree \<open>f0\<close> with \<open>n0\<close> transfers made so far: the tree
  has changed below the home only, there are no links there, and what the transfers of the
  session write comes from there.
\<close>

definition session_inv :: "loc \<Rightarrow> fs \<Rightarrow> nat \<Rightarrow> 'p serv \<Rightarrow> bool" where
  "session_inv hl f0 n0 s \<longleftrightarrow> only_inside (prefix hl) f0 (sv_fs s) \<and> linkless hl (sv_fs s)
     \<and> n0 \<le> sv_next s \<and> (\<forall>i. n0 \<le> i \<and> i < sv_next s \<longrightarrow> transfer_ok hl f0 (sv_heap s i))"

definition own_transfer :: "nat \<Rightarrow> 'p serv \<Rightarrow> nat \<Rightarrow> bool" where
  "own_transfer n0 s i \<longleftrightarrow> n0 \<le> i \<and> i < sv_next s"

definition fs_step :: "loc \<Rightarrow> 'p serv \<Rightarrow> 'p serv \<Rightarrow> bool" where
  "fs_step hl s s' \<longleftrightarrow> only_inside (prefix hl) (sv_fs s) (sv_fs s') \<and> no_new_links (sv_fs s) (sv_fs s')
     \<and> sv_heap s' = sv_heap s \<and> sv_next s' = sv_next s"

lemma fs_step_refl [simp]: "fs_step hl s s"
  by (simp add: fs_step_def)

lemma fs_step_trans: "fs_step hl s s1 \<Longrightarrow> fs_step hl s1 s2 \<Longrightarrow> fs_step hl s s2"
  unfolding fs_step_def using only_inside_trans no_new_links_trans by metis

lemma fs_step_inv: "session_inv hl f0 n0 s \<Longrightarrow> fs_step hl s s' \<Longrightarrow> session_inv hl f0 n0 s'"
  unfolding session_inv_def fs_step_def using only_inside_trans linkless_kept by metis

lemma fs_step_own: "fs_step hl s s' \<Longrightarrow> own_transfer n0 s' = own_transfer n0 s"
  by (simp add: fs_step_def own_transfer_def fun_eq_iff)

lemma session_inv_add:
  assumes "session_inv hl f0 n0 s" and "transfer_ok hl f0 t"
  shows "session_inv hl f0 n0 (snd (addTransfer t s))" "own_transfer n0 (snd (addTransfer t s)) (fst (addTransfer t s))"
    "own_transfer n0 s i \<Longrightarrow> own_transfer n0 (snd (addTransfer t s)) i"
  using assms by (auto simp: session_inv_def own_transfer_def addTransfer_def)

lemma session_inv_set:
  assumes "session_inv hl f0 n0 s" and "own_transfer n0 s i \<Longrightarrow> transfer_ok hl f0 t" and "own_transfer n0 s i"
  shows "session_inv hl f0 n0 (set_transfer i t s)"
  using assms by (auto simp: session_inv_def set_transfer_def own_transfer_def)

lemma frames [simp]:
  "sv_next (snd (executeAction se opn name p t s)) = sv_next s" "sv_next (action se opn u p t s) = sv_next s"
  "sv_next (update_quota se u n b s) = sv_next s" "sv_next (snd (removeTransfer i s)) = sv_next s"
  "sv_heap (snd (removeTransfer i s)) = sv_heap s"
  by (auto simp: action_def executeAction_def action_command_def update_quota_def removeTransfer_def Let_def case_prod_unfold
      split: sum.splits option.splits)

lemma fs_step_frame:
  "fs_step hl s (action se opn u p t s)" "fs_step hl s (update_quota se u n b s)"
  "fs_step hl s (updateConnectionActivity i s)"
  by (simp_all add: fs_step_def)

lemma fs_step_actions: "fs_step hl s (fold (\<lambda>p. action se opn u p t) ps s)"
  by (induction ps arbitrary: s) (auto intro: fs_step_trans fs_step_frame)

lemma fs_step_fs:
  "only_inside (prefix hl) (sv_fs s) f \<Longrightarrow> no_new_links (sv_fs s) f \<Longrightarrow> fs_step hl s (s\<lparr>sv_fs := f\<rparr>)"
  by (simp add: fs_step_def)

lemma set_permissions_step:
  assumes "linkless hl (sv_fs s)" and "p = [] \<or> home_path hl p"
  shows "fs_step hl s (set_permissions se c p s)"
proof -
  have "only_inside (prefix hl) (sv_fs s) (SetPathPermissions (se_env se) p (GetUID (c_User c)) (GetGID (c_User c)) (sv_fs s))"
    using home_resolve_or_empty [OF assms] by (intro SetPathPermissions_inside)
  then show ?thesis unfolding set_permissions_def by (intro fs_step_fs) simp_all
qed

section \<open>The commands\<close>

lemma on_fs_simps: "on_fs r s = (fst r, s\<lparr>sv_fs := snd r\<rparr>)"
  by (simp add: on_fs_def)

lemma setstat_step:
  assumes "linkless hl (sv_fs s)" and "home_path hl p"
  shows "fs_step hl s (snd (handleSFTPSetstat se p rq s))"
proof -
  have "only_inside (prefix hl) (sv_fs s) (sv_fs (snd (handleSFTPSetstat se p rq s)))"
    using home_resolve [OF assms] by (intro Setstat_at)
  then show ?thesis
    by (auto simp: handleSFTPSetstat_def on_fs_def Let_def os_Chmod_def os_Chown_def os_Chtimes_def fs_step_def split: option.splits)
qed

lemma rename_step:
  assumes "linkless hl (sv_fs s)" and "home_path hl p" and "q = [] \<or> home_path hl q"
  shows "fs_step hl s (snd (handleSFTPRename se c p q s))"
proof -
  have "only_inside (prefix hl) (sv_fs s) (sv_fs (snd (handleSFTPRename se c p q s)))"
    using home_resolve [OF assms(1,2)] home_resolve_or_empty [OF assms(1,3)] by (intro Rename_at up_closed_under)
  moreover have "no_new_links (sv_fs s) (snd (os_Rename (se_env se) (sv_fs s) p q))"
    using home_resolve [OF assms(1,2)] by (intro Rename_links [OF assms(1)])
  ultimately show ?thesis by (auto simp: handleSFTPRename_def on_fs_def fs_step_def split: option.splits)
qed

lemma rmdir_step:
  assumes "linkless hl (sv_fs s)" and "home_path hl p"
  shows "fs_step hl s (snd (handleSFTPRmdir se c p s))"
proof -
  have "only_inside (prefix hl) (sv_fs s) (snd (os_RemoveAll (se_env se) (sv_fs s) p))"
    using home_resolve [OF assms] by (intro RemoveAll_inside up_closed_under)
  then have "fs_step hl s (fold (\<lambda>p. action se operationDelete (c_User c) p []) ps
      (update_quota se (c_User c) n b (s\<lparr>sv_fs := snd (os_RemoveAll (se_env se) (sv_fs s) p)\<rparr>)))" for ps n b
    by (intro fs_step_trans [OF fs_step_trans [OF fs_step_fs fs_step_frame(2)] fs_step_actions]) simp_all
  moreover have "fs_step hl s (s\<lparr>sv_fs := snd (os_RemoveAll (se_env se) (sv_fs s) p)\<rparr>)"
    by (intro fs_step_fs \<open>only_inside _ _ _\<close>) simp
  ultimately show ?thesis by (auto simp: handleSFTPRmdir_def on_fs_def split: prod.splits option.splits)
qed

lemma remove_step:
  assumes "linkless hl (sv_fs s)" and "home_path hl p"
  shows "fs_step hl s (snd (handleSFTPRemove se c p s))"
proof -
  have "only_inside (prefix hl) (sv_fs s) (sv_fs (snd (handleSFTPRemove se c p s)))"
    using home_resolve [OF assms] by (intro Remove_at up_closed_under)
  then show ?thesis by (auto simp: handleSFTPRemove_def on_fs_def fs_step_def split: option.splits sum.splits)
qed

lemma mkdir_step:
  assumes "linkless hl (sv_fs s)" and "u_HomeDir (c_User c) = make_path True hl" and "home_path hl p"
  shows "fs_step hl s (snd (handleSFTPMkdir se c p s))"
proof -
  obtain es where es: "list_all name_ok (hl @ es)" "p = make_path True (hl @ es)" using assms(3) by (auto simp: home_path_def)
  have "only_inside (prefix hl) (sv_fs s) (sv_fs (snd (handleSFTPMkdir se c p s)))"
    unfolding es(2) by (rule Mkdir_at [OF up_closed_under es(1) home_checked [OF assms(1) es(1) assms(2) prefix_order.refl]])
  moreover obtain e f' where "createMissingDirs (se_env se) c (path_Join [p, ''testfile'']) (sv_fs s) = (e, f')" by force
  ultimately show ?thesis using createMissingDirs_links [of "se_env se" c "path_Join [p, ''testfile'']" "sv_fs s" e f']
    by (auto simp: handleSFTPMkdir_def on_fs_def fs_step_def split: option.splits)
qed

lemma target_home:
  assumes "list_all name_ok hl" and "u_HomeDir (c_User c) = make_path True hl" and "clean_req rq"
    and "getSFTPCmdTargetPath se c (rq_Target rq) s = Inr q"
  shows "q = [] \<or> home_path hl q"
  using assms(3,4) buildPath_home [OF assms(1,2)]
  by (auto simp: clean_req_def getSFTPCmdTargetPath_def split: if_splits sum.splits)

text \<open>Without the permission to make links a command keeps to the home directory.\<close>

lemma Filecmd_step:
  assumes "linkless hl (sv_fs s)" and "list_all name_ok hl" and "u_HomeDir (c_User c) = make_path True hl"
    and "clean_req rq" and "\<not> HasPerm (c_User c) PermCreateSymlinks"
  shows "fs_step hl s (snd (Connection_Filecmd se c rq s))"
proof -
  let ?s = "updateConnectionActivity (c_ID c) s"
  have ll: "linkless hl (sv_fs ?s)" using assms(1) by simp
  have s0: "fs_step hl s ?s" by (rule fs_step_frame)
  show ?thesis
  proof (cases "buildPath (se_env se) (sv_fs ?s) c (rq_Filepath rq)")
    case (Inl e)
    then show ?thesis using s0 by (simp add: Connection_Filecmd_def Let_def)
  next
    case (Inr p)
    have p: "home_path hl p" using buildPath_home [OF assms(2,3)] Inr assms(4) by (auto simp: clean_req_def)
    show ?thesis
    proof (cases "getSFTPCmdTargetPath se c (rq_Target rq) ?s")
      case (Inl e)
      then show ?thesis using s0 \<open>buildPath _ _ _ _ = Inr p\<close> by (simp add: Connection_Filecmd_def Let_def)
    next
      case (Inr q)
      have q: "q = [] \<or> home_path hl q" using target_home [OF assms(2-4) Inr] .
      then have pq: "(if q \<noteq> [] then q else p) = [] \<or> home_path hl (if q \<noteq> [] then q else p)" using p by auto
      have fin: "fs_step hl ?s (snd (case r of (Some e, w) \<Rightarrow> (Some e, w)
          | (None, w) \<Rightarrow> (Some ErrSSHFxOk, set_permissions se c (if q \<noteq> [] then q else p) w)))"
        if "fs_step hl ?s (snd r)" for r :: "goerr option \<times> 'a serv"
      proof -
        obtain e w where r: "r = (e, w)" by force
        have "linkless hl (sv_fs w)" using linkless_kept [OF ll] that by (simp add: fs_step_def r)
        from fs_step_trans [OF that [unfolded r snd_conv] set_permissions_step [OF this pq]] that
        show ?thesis by (cases e) (simp_all add: r)
      qed
      have sym: "snd (handleSFTPSymlink se c p q ?s) = ?s" using assms(5) by (simp add: handleSFTPSymlink_def)
      note cmds = setstat_step [OF ll p] rmdir_step [OF ll p] remove_step [OF ll p] fin [OF rename_step [OF ll p q]]
        fin [OF mkdir_step [OF ll assms(3) p]] fin [of "handleSFTPSymlink se c p q ?s"]
      have eq: "Connection_Filecmd se c rq s =
         (let finish = (\<lambda>r. case r of (Some e, w) \<Rightarrow> (Some e, w)
            | (None, w) \<Rightarrow> (Some ErrSSHFxOk, set_permissions se c (if q \<noteq> [] then q else p) w))
          in if rq_Method rq = ''Setstat'' then handleSFTPSetstat se p rq ?s
             else if rq_Method rq = ''Rename'' then finish (handleSFTPRename se c p q ?s)
             else if rq_Method rq = ''Rmdir'' then handleSFTPRmdir se c p ?s
             else if rq_Method rq = ''Mkdir'' then finish (handleSFTPMkdir se c p ?s)
             else if rq_Method rq = ''Symlink'' then finish (handleSFTPSymlink se c p q ?s)
             else if rq_Method rq = ''Remove'' then handleSFTPRemove se c p ?s
             else (Some ErrSSHFxOpUnsupported, ?s))"
        using \<open>buildPath _ _ _ _ = Inr p\<close> Inr by (simp add: Connection_Filecmd_def Let_def)
      have "fs_step hl ?s (snd (Connection_Filecmd se c rq s))"
        unfolding eq Let_def using cmds sym by (simp split: if_split)
      then show ?thesis using fs_step_trans [OF s0] by blast
    qed
  qed
qed

section \<open>Opening files\<close>

text \<open>What is opened for writing comes from below the home directory.\<close>

definition opened_by :: "('p serv \<Rightarrow> bool) \<Rightarrow> nat \<Rightarrow> 'p serv \<Rightarrow> (goerr + nat) \<times> 'p serv \<Rightarrow> bool" where
  "opened_by J n0 s r \<longleftrightarrow> J (snd r) \<and> (\<forall>i. own_transfer n0 s i \<longrightarrow> own_transfer n0 (snd r) i)
     \<and> (\<forall>x. fst r = Inr x \<longrightarrow> own_transfer n0 (snd r) x)"

lemma opened_step:
  assumes "session_inv hl f0 n0 s" and "fs_step hl s s'"
  shows "opened_by (session_inv hl f0 n0) n0 s (Inl e, s')"
  using assms fs_step_inv fs_step_own by (fastforce simp: opened_by_def)

lemma opened_after:
  assumes "fs_step hl s s1" and "opened_by (session_inv hl f0 n0) n0 s1 r"
  shows "opened_by (session_inv hl f0 n0) n0 s r"
  using assms(2) fs_step_own [OF assms(1)] by (simp add: opened_by_def)

lemma opened_add:
  assumes "session_inv hl f0 n0 s" and "transfer_ok hl f0 t"
  shows "opened_by (session_inv hl f0 n0) n0 s (let (i, w) = addTransfer t s in (Inr i, w))"
  using session_inv_add [OF assms] by (simp add: opened_by_def case_prod_unfold Let_def)

lemma OpenFile_result:
  assumes "os_OpenFile env f p flags perm = (Inr fl, f')" and "\<And>fol l. resolve env f fol p = Inr l \<Longrightarrow> P l"
  shows "fl_Name fl = p \<and> fl_flags fl = flags \<and> (\<forall>k. fl_inode fl = Some k \<longrightarrow> from_inside P f k)"
proof -
  define create where "create = (flags AND O_CREATE \<noteq> 0)"
  define excl where "excl = (create \<and> flags AND O_EXCL \<noteq> 0)"
  show ?thesis
  proof (cases "resolve_op env f (\<not> excl) ''open'' p")
    case (Inl e)
    then show ?thesis using assms(1) unfolding os_OpenFile_def Let_def create_def [symmetric] excl_def [symmetric] by simp
  next
    case (Inr l)
    have "P l" using assms(2) resolve_opD [OF Inr] by blast
    then show ?thesis using assms(1) unfolding os_OpenFile_def Let_def create_def [symmetric] excl_def [symmetric] Inr
      by (auto simp: from_inside_def split: option.splits node.splits if_splits)
  qed
qed

lemma OpenFile_step:
  assumes "linkless hl (sv_fs s)" and "home_path hl p"
  shows "fs_step hl s (s\<lparr>sv_fs := snd (os_OpenFile env (sv_fs s) p flags perm)\<rparr>)"
  using home_resolve [OF assms] by (intro fs_step_fs OpenFile_inside) auto

lemma opened_transfer_ok:
  assumes "session_inv hl f0 n0 s" and "home_path hl p" and "os_OpenFile env (sv_fs s) p flags perm = (Inr fl, f')"
  shows "transfer_ok hl f0 (new_transfer c fl p ty isNew now)"
proof -
  have ll: "linkless hl (sv_fs s)" and o: "only_inside (prefix hl) f0 (sv_fs s)" using assms(1) by (simp_all add: session_inv_def)
  from OpenFile_result [OF assms(3), of "prefix hl"] home_resolve [OF ll assms(2)]
  have fl: "fl_Name fl = p" "\<forall>k. fl_inode fl = Some k \<longrightarrow> from_inside (prefix hl) (sv_fs s) k" by auto
  then show ?thesis using from_inside_back [OF o] by (auto simp: transfer_ok_def new_transfer_def)
qed

lemma createMissingDirs_step:
  assumes "linkless hl f" and "u_HomeDir (c_User c) = make_path True hl" and "home_path hl p"
    and "createMissingDirs env c p f = (err, f')"
  shows "only_inside (prefix hl) f f'"
proof -
  obtain es where es: "list_all name_ok (hl @ es)" "p = make_path True (hl @ es)" using assms(3) by (auto simp: home_path_def)
  show ?thesis
  proof (cases "hl @ es" rule: rev_cases)
    case Nil
    have "fst (nonexistent_loop env f (make_path True [])) = []"
      by (simp add: nonexistent_loop.simps [of env f "make_path True []"] path_Dir_make_path [of "[]", simplified]
          split: sum.splits)
    then have "f' = f" using assms(4) Nil es(2) path_Dir_make_path [of "[]"] Clean_make_path [of "[]"]
      by (auto simp: createMissingDirs_def findNonexistentDirs_def split: prod.splits option.splits sum.splits)
    then show ?thesis by simp
  next
    case (snoc zs x)
    have "dirs_checked (prefix hl) env c f zs" using home_checked [OF assms(1) es(1) assms(2)] snoc by simp
    then show ?thesis using createMissingDirs_inside [of zs x "prefix hl" f env c err f'] es snoc assms(4)
      unfolding dirs_checked_def by auto
  qed
qed

lemma upload_new_step:
  assumes "session_inv hl f0 n0 s" and "u_HomeDir (c_User c) = make_path True hl" and "home_path hl p"
  shows "opened_by (session_inv hl f0 n0) n0 s (handleSFTPUploadToNewFile se c p p s)"
proof -
  have ll: "linkless hl (sv_fs s)" using assms(1) by (simp add: session_inv_def)
  have same: "opened_by (session_inv hl f0 n0) n0 s (Inl e, s)" for e using opened_step [OF assms(1) fs_step_refl] .
  obtain err f1 where c: "createMissingDirs (se_env se) c p (sv_fs s) = (err, f1)" by force
  let ?s1 = "s\<lparr>sv_fs := f1\<rparr>"
  have s1: "fs_step hl s ?s1"
    using createMissingDirs_step [OF ll assms(2,3) c] createMissingDirs_links [OF c] by (intro fs_step_fs)
  have inv1: "session_inv hl f0 n0 ?s1" by (rule fs_step_inv [OF assms(1) s1])
  then have ll1: "linkless hl f1" by (simp add: session_inv_def)
  obtain r f2 where o: "os_OpenFile (se_env se) f1 p (O_RDWR OR O_CREATE OR O_TRUNC) 0x1B6 = (r, f2)" by force
  let ?s2 = "s\<lparr>sv_fs := f2\<rparr>"
  have s2: "fs_step hl s ?s2"
    using fs_step_trans [OF s1 OpenFile_step [of hl ?s1 p "se_env se" "O_RDWR OR O_CREATE OR O_TRUNC" "0x1B6"]] ll1 assms(3) o by simp
  have ll2: "linkless hl f2" using fs_step_inv [OF assms(1) s2] by (simp add: session_inv_def)
  have s3: "fs_step hl s (set_permissions se c p ?s2)"
    using fs_step_trans [OF s2 set_permissions_step [of hl ?s2 p se c]] ll2 assms(3) by simp
  have new: "opened_by (session_inv hl f0 n0) n0 s (let (i, w) = addTransfer (new_transfer c fl p transferUpload True now) (set_permissions se c p ?s2)
      in (Inr i, w))" if "r = Inr fl" for fl now
    using opened_after [OF s3 opened_add [OF fs_step_inv [OF assms(1) s3] opened_transfer_ok [OF inv1 assms(3)]]] o that by simp
  show ?thesis
  proof (cases "err = None \<and> hasSpace se c True s")
    case True
    then show ?thesis using c o new same opened_step [OF assms(1) s2]
      by (cases r) (auto simp: handleSFTPUploadToNewFile_def on_fs_def os_Create_def Let_def)
  next
    case False
    then show ?thesis using c same opened_step [OF assms(1) s1]
      by (auto simp: handleSFTPUploadToNewFile_def on_fs_def)
  qed
qed

lemma upload_existing_step:
  assumes "session_inv hl f0 n0 s" and "se_uploadMode se = uploadModeStandard" and "home_path hl p"
  shows "opened_by (session_inv hl f0 n0) n0 s (handleSFTPUploadToExistingFile se c fl p p n s)"
proof -
  have ll: "linkless hl (sv_fs s)" using assms(1) by (simp add: session_inv_def)
  obtain r f2 where o: "os_OpenFile (se_env se) (sv_fs s) p (getOSOpenFlags fl) 0x1B6 = (r, f2)" by force
  let ?s2 = "s\<lparr>sv_fs := f2\<rparr>"
  let ?s3 = "update_quota se (c_User c) 0 (- n) ?s2"
  have s2: "fs_step hl s ?s2" using OpenFile_step [OF ll assms(3), of "se_env se" "getOSOpenFlags fl" "0x1B6"] o by simp
  have ll2: "linkless hl f2" using fs_step_inv [OF assms(1) s2] by (simp add: session_inv_def)
  have s3: "fs_step hl s (set_permissions se c p ?s3)"
    using fs_step_trans [OF fs_step_trans [OF s2 fs_step_frame(2)] set_permissions_step [of hl ?s3 p se c]] ll2 assms(3) by simp
  have new: "opened_by (session_inv hl f0 n0) n0 s (let (i, w) = addTransfer (new_transfer c g p transferUpload False now) (set_permissions se c p ?s3)
      in (Inr i, w))" if "r = Inr g" for g now
    using opened_after [OF s3 opened_add [OF fs_step_inv [OF assms(1) s3] opened_transfer_ok [OF assms(1,3)]]] o that by simp
  show ?thesis using o new opened_step [OF assms(1) s2] opened_step [OF assms(1) fs_step_refl] assms(2)
    by (cases r) (auto simp: handleSFTPUploadToExistingFile_def on_fs_def Let_def)
qed

lemma Filewrite_step:
  assumes "session_inv hl f0 n0 s" and "list_all name_ok hl" and "u_HomeDir (c_User c) = make_path True hl"
    and "se_uploadMode se = uploadModeStandard" and "clean_req rq"
  shows "opened_by (session_inv hl f0 n0) n0 s (Connection_Filewrite se c rq s)"
proof -
  let ?s = "updateConnectionActivity (c_ID c) s"
  have s0: "fs_step hl s ?s" by (rule fs_step_frame)
  note inv = fs_step_inv [OF assms(1) s0]
  note same = opened_step [OF assms(1) s0]
  have p: "home_path hl p" if "buildPath (se_env se) (sv_fs ?s) c (rq_Filepath rq) = Inr p" for p
    using buildPath_home [OF assms(2,3)] that assms(5) by (auto simp: clean_req_def)
  note ops = opened_after [OF s0 upload_new_step [OF inv assms(3) p]] opened_after [OF s0 upload_existing_step [OF inv assms(4) p]]
  show ?thesis
  proof (cases "buildPath (se_env se) (sv_fs ?s) c (rq_Filepath rq)")
    case (Inl e)
    then show ?thesis using same by (simp add: Connection_Filewrite_def Let_def)
  next
    case (Inr p)
    then show ?thesis using same ops [OF Inr] assms(4)
      by (cases "os_Stat (se_env se) (sv_fs ?s) p") (simp_all add: Connection_Filewrite_def Let_def)
  qed
qed

text \<open>A file opened for reading is not written.\<close>

lemma Open_tree: "snd (os_Open env f p) = f"
  by (auto simp: os_Open_def os_OpenFile_def resolve_op_def open_flag_defs Let_def split: sum.splits option.splits node.splits)

lemma Open_flags: "os_Open env f p = (Inr fl, f') \<Longrightarrow> fl_flags fl = O_RDONLY"
  using OpenFile_result [of env f p O_RDONLY 0 fl f' "\<lambda>_. True"] by (simp add: os_Open_def)

lemma Fileread_cases:
  assumes "Connection_Fileread se c rq s = Some r"
  obtains e where "r = (Inl e, updateConnectionActivity (c_ID c) s)"
  | fl p now where "fl_flags fl = O_RDONLY"
      "r = (let (i, w) = addTransfer (new_transfer c fl p transferDownload False now) (updateConnectionActivity (c_ID c) s) in (Inr i, w))"
proof -
  let ?s = "updateConnectionActivity (c_ID c) s"
  have upd: "?s\<lparr>sv_fs := sv_fs s\<rparr> = ?s" using activity_frame(1) [of "c_ID c" s] by (metis serv.surjective serv.update_convs(1))
  show thesis
  proof (cases "HasPerm (c_User c) PermDownload")
    case True
    show thesis
    proof (cases "buildPath (se_env se) (sv_fs s) c (rq_Filepath rq)")
      case (Inl e)
      then show thesis using assms True that(1) by (auto simp: Connection_Fileread_def Let_def)
    next
      case (Inr p)
      obtain x where o: "os_Open (se_env se) (sv_fs s) p = (x, sv_fs s)"
        using Open_tree [of "se_env se" "sv_fs s" p] by (metis prod.collapse)
      show thesis using assms True Inr o that Open_flags [of "se_env se" "sv_fs s" p]
        by (cases x) (auto simp: Connection_Fileread_def Let_def upd case_prod_unfold split: if_splits sum.splits)
    qed
  qed (use assms that(1) in \<open>auto simp: Connection_Fileread_def Let_def\<close>)
qed

lemma Fileread_step:
  assumes "session_inv hl f0 n0 s" and "Connection_Fileread se c rq s = Some r"
  shows "opened_by (session_inv hl f0 n0) n0 s r"
proof -
  have s0: "fs_step hl s (updateConnectionActivity (c_ID c) s)" by (rule fs_step_frame)
  from assms(2) show ?thesis
  proof (cases rule: Fileread_cases)
    case (2 fl p now)
    then have "transfer_ok hl f0 (new_transfer c fl p transferDownload False now)"
      by (simp add: transfer_ok_def new_transfer_def writable_def O_RDONLY_def)
    then show ?thesis using opened_after [OF s0 opened_add [OF fs_step_inv [OF assms(1) s0]]] 2(2) by simp
  qed (use opened_step [OF assms(1) s0] in simp)
qed

section \<open>Transfers\<close>

text \<open>A call on a transfer of the session keeps the invariant and the transfers.\<close>

definition transfer_step :: "('p serv \<Rightarrow> bool) \<Rightarrow> nat \<Rightarrow> 'p serv \<Rightarrow> 'p serv \<Rightarrow> bool" where
  "transfer_step J n0 s s' \<longleftrightarrow> J s' \<and> own_transfer n0 s' = own_transfer n0 s"

lemma throttle_step: "transfer_step (session_inv hl f0 n0) n0 s s1 \<Longrightarrow> transfer_step (session_inv hl f0 n0) n0 s (handleThrottle i s1)"
  by (auto simp: transfer_step_def session_inv_def own_transfer_def fun_eq_iff handleThrottle_def)

lemma set_step:
  assumes "session_inv hl f0 n0 s" and "own_transfer n0 s i" and "transfer_ok hl f0 t"
  shows "transfer_step (session_inv hl f0 n0) n0 s (set_transfer i t s)"
  using assms by (auto simp: transfer_step_def session_inv_def own_transfer_def set_transfer_def)

lemma own_ok: "session_inv hl f0 n0 s \<Longrightarrow> own_transfer n0 s i \<Longrightarrow> transfer_ok hl f0 (sv_heap s i)"
  by (simp add: session_inv_def own_transfer_def)

lemma transfer_ok_fields [simp]:
  "transfer_ok hl f0 (t\<lparr>t_lastActivity := x\<rparr>) = transfer_ok hl f0 t" "transfer_ok hl f0 (t\<lparr>t_bytesSent := n\<rparr>) = transfer_ok hl f0 t"
  "transfer_ok hl f0 (t\<lparr>t_bytesReceived := n\<rparr>) = transfer_ok hl f0 t"
  by (simp_all add: transfer_ok_def)

lemma ReadAt_step:
  assumes "session_inv hl f0 n0 s" and "own_transfer n0 s i"
  shows "transfer_step (session_inv hl f0 n0) n0 s (snd (Transfer_ReadAt se i n off s))"
  using assms own_ok [OF assms]
  by (auto simp: Transfer_ReadAt_def Let_def case_prod_unfold intro!: throttle_step set_step)

lemma file_WriteAt_inside:
  assumes "only_inside P f0 f" and "writable (fl_flags h) \<Longrightarrow> (\<forall>k. fl_inode h = Some k \<longrightarrow> from_inside P f0 k)"
  shows "only_inside P f0 (snd (file_WriteAt env f h b off)) \<and> at (snd (file_WriteAt env f h b off)) = at f"
  using assms by (auto simp: file_WriteAt_def only_inside_def split: option.splits)

lemma WriteAt_step:
  assumes "session_inv hl f0 n0 s" and "own_transfer n0 s i"
  shows "transfer_step (session_inv hl f0 n0) n0 s (snd (Transfer_WriteAt se i b off s))"
proof -
  let ?t = "sv_heap s i"
  let ?f = "snd (file_WriteAt (se_env se) (sv_fs s) (t_file ?t) b off)"
  have "only_inside (prefix hl) f0 ?f \<and> at ?f = at (sv_fs s)"
    using assms own_ok [OF assms] by (intro file_WriteAt_inside) (auto simp: session_inv_def transfer_ok_def)
  then have inv: "session_inv hl f0 n0 (s\<lparr>sv_fs := ?f\<rparr>)"
    using assms(1) by (simp add: session_inv_def linkless_def)
  have "own_transfer n0 (s\<lparr>sv_fs := ?f\<rparr>) i" using assms(2) by (simp add: own_transfer_def)
  from set_step [OF inv this] have "transfer_step (session_inv hl f0 n0) n0 s (set_transfer i t (s\<lparr>sv_fs := ?f\<rparr>))" if "transfer_ok hl f0 t" for t
    using that by (simp add: transfer_step_def own_transfer_def fun_eq_iff)
  then show ?thesis using own_ok [OF assms]
    by (auto simp: Transfer_WriteAt_def Let_def case_prod_unfold intro!: throttle_step)
qed

lemma Close_step:
  assumes "session_inv hl f0 n0 s" and "own_transfer n0 s i"
  shows "transfer_step (session_inv hl f0 n0) n0 s (snd (Transfer_Close se i s))"
proof -
  let ?t = "sv_heap s i"
  obtain err fl where c: "file_Close (se_env se) (t_file ?t) = (err, fl)" by force
  then have fl: "fl_Name fl = fl_Name (t_file ?t)" "fl_inode fl = fl_inode (t_file ?t)" "fl_flags fl = fl_flags (t_file ?t)"
    by (auto simp: file_Close_def split: if_splits)
  have ok: "transfer_ok hl f0 (?t\<lparr>t_file := fl\<rparr>)" using own_ok [OF assms] fl by (simp add: transfer_ok_def)
  let ?s1 = "set_transfer i (?t\<lparr>t_file := fl\<rparr>) s"
  have s1: "transfer_step (session_inv hl f0 n0) n0 s ?s1" by (rule set_step [OF assms ok])
  have same: "(t_transferType ?t = transferUpload \<and> fl_Name fl \<noteq> t_path ?t) = False"
    using own_ok [OF assms] fl(1) by (auto simp: transfer_ok_def)
  have keep: "transfer_step (session_inv hl f0 n0) n0 s s'" if "sv_fs s' = sv_fs ?s1" "sv_heap s' = sv_heap ?s1" "sv_next s' = sv_next ?s1" for s' :: "'a serv"
    using s1 unfolding transfer_step_def session_inv_def own_transfer_def that .
  show ?thesis unfolding Transfer_Close_def Let_def c prod.case same if_False snd_conv
    by (rule keep) auto
qed

section \<open>Invariants of the world\<close>

text \<open>
  An invariant \<open>J\<close> of the server as one of the world of the request server, with what the
  session assumes of its user, \<open>U\<close>. After a panic there is nothing left to keep.
\<close>

definition world_inv :: "bool \<Rightarrow> ('p serv \<Rightarrow> bool) \<Rightarrow> 'p serv option \<Rightarrow> bool" where
  "world_inv U J w \<longleftrightarrow> U \<and> (\<forall>s. w = Some s \<longrightarrow> J s)"

definition world_own :: "nat \<Rightarrow> 'p serv option \<Rightarrow> nat \<Rightarrow> bool" where
  "world_own n0 w i \<longleftrightarrow> (\<forall>s. w = Some s \<longrightarrow> own_transfer n0 s i)"

lemma conn_call_keeps:
  assumes "world_inv U J w" and "conn_call call dead w = (r, w')"
    and "\<And>s x s'. w = Some s \<Longrightarrow> J s \<Longrightarrow> call s = Some (x, s')
      \<Longrightarrow> J s' \<and> (\<forall>i. own_transfer n0 s i \<longrightarrow> own_transfer n0 s' i)"
  shows "keeps (world_inv U J) (world_own n0) w w'"
proof (cases w)
  case (Some s)
  show ?thesis
  proof (cases "call s")
    case None
    then show ?thesis using assms(1,2) Some by (simp add: conn_call_def keeps_def world_inv_def world_own_def)
  next
    case Some': (Some q)
    obtain x s' where q: "q = (x, s')" by force
    have "J s' \<and> (\<forall>i. own_transfer n0 s i \<longrightarrow> own_transfer n0 s' i)"
      using assms(3) [OF Some] assms(1) Some Some' q by (simp add: world_inv_def)
    then show ?thesis using assms(1,2) Some Some' q by (auto simp: conn_call_def keeps_def world_inv_def world_own_def)
  qed
qed (use assms(1,2) in \<open>simp add: conn_call_def keeps_def world_inv_def world_own_def\<close>)

lemma conn_call_opened:
  assumes "world_inv U J w" and "conn_call call (Inl e) w = (r, w')"
    and "\<And>s q. J s \<Longrightarrow> call s = Some q \<Longrightarrow> opened_by J n0 s q"
  shows "keeps (world_inv U J) (world_own n0) w w' \<and> (\<forall>x. r = Inr x \<longrightarrow> world_own n0 w' x)"
proof -
  have "keeps (world_inv U J) (world_own n0) w w'"
    using conn_call_keeps [OF assms(1,2)] assms(3) by (force simp: opened_by_def)
  moreover have "world_own n0 w' x" if "r = Inr x" for x
    using assms that by (cases w) (auto simp: conn_call_def world_own_def world_inv_def opened_by_def split: option.splits prod.splits)
  ultimately show ?thesis by blast
qed

lemma conn_call_transfer:
  assumes "world_inv U J w" and "world_own n0 w i" and "conn_call call dead w = (r, w')"
    and "\<And>s x s'. J s \<Longrightarrow> own_transfer n0 s i \<Longrightarrow> call s = Some (x, s') \<Longrightarrow> transfer_step J n0 s s'"
  shows "keeps (world_inv U J) (world_own n0) w w'"
proof (rule conn_call_keeps [OF assms(1,3)])
  fix s x s' assume s: "w = Some s" "J s" "call s = Some (x, s')"
  have "own_transfer n0 s i" using assms(2) s(1) by (simp add: world_own_def)
  from assms(4) [OF s(2) this s(3)] show "J s' \<and> (\<forall>i. own_transfer n0 s i \<longrightarrow> own_transfer n0 s' i)"
    by (simp add: transfer_step_def)
qed

section \<open>Confinement of a session\<close>

text \<open>
  The contract for the connection of a user without the permission to make links, whose home
  directory is the canonical path of \<open>hl\<close>.
\<close>

definition confined_user :: "'p settings \<Rightarrow> Connection \<Rightarrow> loc \<Rightarrow> bool" where
  "confined_user se c hl \<longleftrightarrow> list_all name_ok hl \<and> u_HomeDir (c_User c) = make_path True hl
     \<and> se_uploadMode se = uploadModeStandard \<and> \<not> HasPerm (c_User c) PermCreateSymlinks"

lemma conn_call_stepped:
  assumes "world_inv U (session_inv hl f0 n0) w" and "conn_call (\<lambda>s. Some (call s)) dead w = (r, w')"
    and "\<And>s. session_inv hl f0 n0 s \<Longrightarrow> fs_step hl s (snd (call s))"
  shows "keeps (world_inv U (session_inv hl f0 n0)) (world_own n0) w w'"
proof (rule conn_call_keeps [OF assms(1,2)])
  fix s x s' assume s: "session_inv hl f0 n0 s" "Some (call s) = Some (x, s')"
  then have "fs_step hl s s'" using assms(3) [OF s(1)] by simp
  then show "session_inv hl f0 n0 s' \<and> (\<forall>i. own_transfer n0 s i \<longrightarrow> own_transfer n0 s' i)"
    using fs_step_inv [OF s(1)] fs_step_own [of hl s s' n0] by auto
qed

lemma Filelist_step: "fs_step hl s (snd (Connection_Filelist se c rq s))"
proof -
  have "snd (Connection_Filelist se c rq s) = updateConnectionActivity (c_ID c) s"
    by (auto simp: Connection_Filelist_def Let_def split: sum.splits)
  then show ?thesis using fs_step_frame(3) by simp
qed

lemmas hdefs = connection_handlers_def Handlers.select_convs

interpretation session: kept_by_handlers True "connection_handlers se c unames gnames" "world_inv (confined_user se c hl) (session_inv hl f0 n0)" "world_own n0"
  for se :: "'p settings" and c unames gnames hl f0 n0
proof
  fix w w' :: "'p serv option" and r :: srequest and res err x n off b rd cl l lister fi
  let ?hs = "connection_handlers se c unames gnames" and ?keeps = "keeps (world_inv (confined_user se c hl) (session_inv hl f0 n0)) (world_own n0) w w'"
  assume I: "world_inv (confined_user se c hl) (session_inv hl f0 n0) w"
  then have u: "confined_user se c hl" by (simp add: world_inv_def)
  show "?keeps \<and> (\<forall>x. res = Inr x \<longrightarrow> world_own n0 w' x)" if "h_Fileread ?hs r w = (res, w')"
    by (rule conn_call_opened [OF I that [unfolded hdefs] Fileread_step])
  show "?keeps \<and> (\<forall>x. res = Inr x \<longrightarrow> world_own n0 w' x)" if "req_ok True r" "h_Filewrite ?hs r w = (res, w')"
    by (rule conn_call_opened [OF I that(2) [unfolded hdefs]])
      (use u that(1) in \<open>metis Filewrite_step confined_user_def req_ok_def option.inject\<close>)
  show ?keeps if "req_ok True r" "h_Filecmd ?hs r w = (err, w')"
    by (rule conn_call_stepped [OF I that(2) [unfolded hdefs]])
      (use u that(1) Filecmd_step in \<open>auto simp: confined_user_def session_inv_def req_ok_def\<close>)
  show ?keeps if "h_Filelist ?hs r w = (l, w')"
    by (rule conn_call_stepped [OF I that [unfolded hdefs] Filelist_step])
  show ?keeps if "world_own n0 w x" "h_ReadAt ?hs x n off w = (rd, w')"
    by (rule conn_call_transfer [OF I that(1) that(2) [unfolded hdefs]]) (metis ReadAt_step option.inject snd_conv)
  show ?keeps if "world_own n0 w x" "h_WriteAt ?hs x b off w = (err, w')"
    by (rule conn_call_transfer [OF I that(1) that(2) [unfolded hdefs]])
      (use WriteAt_step in \<open>force simp: Let_def case_prod_unfold\<close>)
  show ?keeps if "h_Close ?hs x = Some cl" "world_own n0 w x" "cl w = (err, w')"
  proof (rule conn_call_transfer [OF I that(2), of "\<lambda>s. Some (Transfer_Close se x s)" "Some ErrSSHFxFailure"])
    show "conn_call (\<lambda>s. Some (Transfer_Close se x s)) (Some ErrSSHFxFailure) w = (err, w')"
      using that(1,3) by (auto simp: hdefs)
  qed (metis Close_step option.inject snd_conv)
  show ?keeps if "h_ListAt ?hs lister n off w = (fi, w')"
    by (rule conn_call_keeps [OF I that [unfolded hdefs]]) auto
qed (simp_all add: connection_handlers_def)

lemma session_keeps:
  assumes "confined_user se c hl" and "linkless hl (sv_fs s)"
    and "list_all (\<lambda>p. \<not> posix_rename p) (fst (serveLoop rd alloc 1))"
    and "handleSftpConnection se c unames gnames exts ck mem rd alloc s = Some (rpkts, err, s')"
  shows "session_inv hl (sv_fs s) (sv_next s) s'"
proof -
  let ?s0 = "addConnection (c_ID c) c s"
  from assms(4) obtain s1 where r: "Serve exts (connection_handlers se c unames gnames) ck mem rd alloc (Some ?s0) = Some (rpkts, err, Some s1)"
    and s': "s' = removeConnection (c_ID c) s1"
    by (auto simp: handleSftpConnection_def Let_def split: option.splits)
  have "world_inv (confined_user se c hl) (session_inv hl (sv_fs s) (sv_next s)) (Some ?s0)"
    using assms(1,2) by (auto simp: world_inv_def session_inv_def addConnection_def)
  from session.Serve_keeps [OF this _ r] assms(3) have "session_inv hl (sv_fs s) (sv_next s) s1" by (simp add: world_inv_def)
  then show ?thesis by (simp add: s' removeConnection_def session_inv_def)
qed

end
