(* ===== verification/Serv_HandlerClaims.thy ===== *)
theory Serv_HandlerClaims
  imports Serv_HandlerProps
begin

text \<open>
  The properties of the file handlers of \<open>serv/\<close>: what a session can reach of the file system,
  which permission each request needs, the quota, the accounting of uploads, and the listings.
  A small server with one account is the concrete input of their witnesses.
\<close>

section \<open>A sample server\<close>

text \<open>
  The home directories of alice and of two neighbours, a directory outside, and three links
  in alice's home: one to a missing file outside, one to a directory outside, and in that
  directory one that leads back into that home.
\<close>

definition plain_meta :: meta where
  "plain_meta = \<lparr>m_perm = 0x1ED, m_uid = 0, m_gid = 0, m_atime = 0, m_mtime = 0\<rparr>"

definition no_faults :: os_env where
  "no_faults = \<lparr>env_cwd = [], env_umask = 0x12, env_uid = 0, env_gid = 0,
     env_lookup_fault = (\<lambda>_. None), env_op_fault = (\<lambda>_ _. None)\<rparr>"

definition sample_fs :: fs where
  "sample_fs = \<lparr>fs_root = plain_meta,
     fs_tree = [([''etc''], Dir plain_meta), ([''home''], Dir plain_meta),
       ([''home'', ''alice''], Dir plain_meta), ([''home'', ''alice2''], Dir plain_meta),
       ([''home'', ''alice'', ''a''], File 0), ([''home'', ''alice2'', ''b''], File 1),
       ([''home'', ''alice'', ''new''], Link ''/etc/new''), ([''home'', ''alice'', ''out''], Link ''/etc''),
       ([''etc'', ''back''], Link ''/home/alice/a'')],
     fs_data = (\<lambda>i. if i = 0 then [1, 2, 3] else [4]), fs_meta = (\<lambda>_. plain_meta), fs_next = 2\<rparr>"

definition sample_settings :: "memdb settings" where
  "sample_settings = \<lparr>se_env = no_faults,
     se_config = \<lparr>cf_Driver = ''bolt'', cf_SSLMode = 0, cf_ManageUsers = 1, cf_TrackQuota = 1, cf_DefaultUserExpire = 0\<rparr>,
     se_provider = BoltProvider plain_crypto mem_bolt,
     se_actions = \<lparr>ac_ExecuteOn = [''upload'', ''delete''], ac_Command = [], ac_HTTPNotificationURL = ''http://hook''\<rparr>,
     se_uploadMode = uploadModeStandard, se_idleTimeout = 0, se_url_error = (\<lambda>_. None), se_xid = itoa\<rparr>"

definition sample_user :: "string list \<Rightarrow> User" where
  "sample_user perms = alice\<lparr>u_Permissions := perms\<rparr>"

definition sample_conn :: "string list \<Rightarrow> Connection" where
  "sample_conn perms = \<lparr>c_ID = ''c1'', c_User = sample_user perms, c_ClientVersion = [], c_RemoteAddr = [],
     c_StartTime = 0, c_lastActivity = 0, c_protocol = protocolSFTP\<rparr>"

definition no_transfer :: Transfer where
  "no_transfer = new_transfer (sample_conn []) \<lparr>fl_Name = [], fl_inode = None, fl_flags = 0, fl_closed = True\<rparr> [] transferDownload False 0"

definition sample_db :: memdb where
  "sample_db = snd (bolt_addUser plain_crypto mem_bolt alice mem_empty)"

lemma sample_db_stored [code]:
  "sample_db = \<lparr>md_data = [((usersBucket, ''alice''), Doc (user_json (alice\<lparr>u_Password := ''$argon2id$secret'', u_ID := 1\<rparr>))),
     ((usersIDIdxBucket, itob 1), Text ''alice'')], md_seq = (\<lambda>_. 0)(usersBucket := 1)\<rparr>"
  by (simp add: sample_db_def add_alice)

definition sample_serv :: "memdb serv" where
  "sample_serv = \<lparr>sv_fs = sample_fs, sv_db = sample_db,
     sv_openConnections = [], sv_heap = (\<lambda>_. no_transfer), sv_next = 0, sv_activeTransfers = [],
     sv_activeQuotaScans = [], sv_closed = [], sv_events = [], sv_xids = 0, sv_now = 0\<rparr>"

lemma sample_home: "path_IsAbs (u_HomeDir (c_User (sample_conn perms)))"
  by (simp add: sample_conn_def sample_user_def alice_def path_IsAbs_def)

lemma sample_eval: "EvalSymlinks no_faults sample_fs (u_HomeDir (c_User (sample_conn [''*'']))) = Inr ''/home/alice''"
  by code_simp

lemma sample_build:
  "buildPath no_faults sample_fs (sample_conn [''*'']) ''/a'' = Inr ''/home/alice/a''"
  "buildPath no_faults sample_fs (sample_conn [''*'']) ''/x/y'' = Inr ''/home/alice/x/y''"
  "\<not> names_link no_faults sample_fs ''/home/alice/a''" "\<not> names_link no_faults sample_fs ''/home/alice/x/y''"
  by code_simp+

lemma sample_parts [simp]: "se_env sample_settings = no_faults" "sv_fs sample_serv = sample_fs"
  by (simp_all add: sample_settings_def sample_serv_def)

lemma sample_tree_ok: "tree_ok sample_fs"
proof -
  have "is_dir (at sample_fs l)" if "at sample_fs (l @ [x]) \<noteq> None" for l x
  proof -
    have "(l @ [x]) \<in> set (map fst (fs_tree sample_fs))"
      using that by (auto simp: at_def split: if_splits) (metis map_of_eq_None_iff not_None_eq)
    then have "l \<in> butlast ` set (map fst (fs_tree sample_fs))" by (metis butlast_snoc image_eqI)
    then show ?thesis by (auto simp: sample_fs_def at_def is_dir_def)
  qed
  then show ?thesis by (simp add: tree_ok_def)
qed
section \<open>Properties\<close>






text \<open>
  A link that leads back in can be removed although it lies outside: the check resolves
  the link, the removal does not.
\<close>

lemma outside_link_removed:
  "at (sv_fs (snd (Connection_Filecmd sample_settings (sample_conn [''delete'']) (NewRequest ''Remove'' ''/out/back'') sample_serv)))
     [''etc'', ''back''] = None
   \<and> at sample_fs [''etc'', ''back''] \<noteq> None \<and> \<not> inside ''/home/alice'' [''etc'', ''back'']"
  by code_simp

text \<open>
  The home directory is compared as a string: the home of alice2 counts as inside that of
  alice.
\<close>

theorem sibling_home_accepted:
  "isSubDir no_faults sample_fs (sample_conn []) ''/home/alice2/b'' = None"
  by code_simp

text \<open>
  Changing attributes needs no permission: a user who may only list files changes the mode
  of a file.
\<close>

lemma setstat_needs_no_permission:
  "let rq = (NewRequest ''Setstat'' ''/a'')\<lparr>rq_Flags := 4, rq_Attrs := [0, 0, 1, 0xFF]\<rparr>;
       r = Connection_Filecmd sample_settings (sample_conn [''list'']) rq sample_serv
   in fst r = None \<and> m_perm (fs_meta (sv_fs (snd r)) 0) = 0x1FF \<and> m_perm (fs_meta sample_fs 0) = 0x1ED"
  by code_simp

text \<open>The permission that a command asks for.\<close>

definition required_perm :: "string \<Rightarrow> string option" where
  "required_perm m =
     (if m = ''Rename'' then Some PermRename else if m = ''Rmdir'' \<or> m = ''Remove'' then Some PermDelete
      else if m = ''Mkdir'' then Some PermCreateDirs else if m = ''Symlink'' then Some PermCreateSymlinks else None)"

lemma Filecmd_denied:
  assumes "required_perm (rq_Method rq) = Some perm" and "\<not> HasPerm (c_User c) perm"
  shows "snd (Connection_Filecmd se c rq w) = updateConnectionActivity (c_ID c) w
    \<and> fst (Connection_Filecmd se c rq w) \<in> {Some ErrSSHFxNoSuchFile, Some ErrSSHFxOpUnsupported, Some ErrSSHFxPermissionDenied}"
proof -
  consider "rq_Method rq = ''Rename''" "perm = PermRename" | "rq_Method rq = ''Rmdir''" "perm = PermDelete"
    | "rq_Method rq = ''Remove''" "perm = PermDelete" | "rq_Method rq = ''Mkdir''" "perm = PermCreateDirs"
    | "rq_Method rq = ''Symlink''" "perm = PermCreateSymlinks"
    using assms(1) unfolding required_perm_def by (auto split: if_splits)
  then show ?thesis
    using assms(2) by cases (simp_all add: Connection_Filecmd_def Let_def handleSFTPRename_def handleSFTPRmdir_def
        handleSFTPMkdir_def handleSFTPSymlink_def handleSFTPRemove_def split: sum.split)
qed

lemma Filelist_denied:
  assumes "\<not> HasPerm (c_User c) PermListItems"
  shows "snd (Connection_Filelist se c rq w) = updateConnectionActivity (c_ID c) w
    \<and> fst (Connection_Filelist se c rq w) \<in> {Inl ErrSSHFxNoSuchFile, Inl ErrSSHFxOpUnsupported, Inl ErrSSHFxPermissionDenied}"
  using assms by (auto simp: Connection_Filelist_def Let_def split: sum.splits)

text \<open>
  C13. Permissions are enforced. Without the permission that it needs, a read, a write, a command
  or a listing is answered with an error and changes nothing but the time of the last activity
  of the connection.
\<close>

theorem permissions_enforced:
  "(\<not> HasPerm (c_User c) PermDownload \<longrightarrow>
      Connection_Fileread se c rq w = Some (Inl ErrSSHFxPermissionDenied, updateConnectionActivity (c_ID c) w))
   \<and> (\<not> HasPerm (c_User c) PermUpload \<longrightarrow>
      Connection_Filewrite se c rq w = (Inl ErrSSHFxPermissionDenied, updateConnectionActivity (c_ID c) w))
   \<and> (required_perm (rq_Method rq) = Some perm \<and> \<not> HasPerm (c_User c) perm \<longrightarrow>
      snd (Connection_Filecmd se c rq w) = updateConnectionActivity (c_ID c) w
      \<and> fst (Connection_Filecmd se c rq w) \<in> {Some ErrSSHFxNoSuchFile, Some ErrSSHFxOpUnsupported, Some ErrSSHFxPermissionDenied})
   \<and> (\<not> HasPerm (c_User c) PermListItems \<longrightarrow>
      snd (Connection_Filelist se c rq w) = updateConnectionActivity (c_ID c) w
      \<and> fst (Connection_Filelist se c rq w) \<in> {Inl ErrSSHFxNoSuchFile, Inl ErrSSHFxOpUnsupported, Inl ErrSSHFxPermissionDenied})"
proof (intro conjI impI)
  assume "required_perm (rq_Method rq) = Some perm \<and> \<not> HasPerm (c_User c) perm"
  then show "snd (Connection_Filecmd se c rq w) = updateConnectionActivity (c_ID c) w"
    "fst (Connection_Filecmd se c rq w) \<in> {Some ErrSSHFxNoSuchFile, Some ErrSSHFxOpUnsupported, Some ErrSSHFxPermissionDenied}"
    using Filecmd_denied by blast+
qed (use Filelist_denied in \<open>auto simp: Connection_Fileread_def Connection_Filewrite_def Let_def\<close>)

theorem permissions_enforced_witness:
  "sv_fs (snd (Connection_Filecmd sample_settings (sample_conn [''list'']) (NewRequest ''Remove'' ''/a'') sample_serv)) = sample_fs"
proof -
  have "required_perm (rq_Method (NewRequest ''Remove'' ''/a'' :: srequest)) = Some PermDelete"
    "\<not> HasPerm (c_User (sample_conn [''list''])) PermDelete"
    by (simp_all add: required_perm_def NewRequest_def HasPerm_def sample_conn_def sample_user_def perm_defs)
  with permissions_enforced [of "sample_conn [''list'']" sample_settings "NewRequest ''Remove'' ''/a''" sample_serv PermDelete]
  show ?thesis by simp
qed



section \<open>Transfers\<close>

fun write_all :: "'p settings \<Rightarrow> nat \<Rightarrow> (bytes \<times> int) list \<Rightarrow> 'p serv \<Rightarrow> int \<times> 'p serv" where
  "write_all se i [] w = (0, w)"
| "write_all se i ((b, off) # ps) w =
     (let ((n, _), w) = Transfer_WriteAt se i b off w; (m, w) = write_all se i ps w in (int n + m, w))"

lemma WriteAt_heap:
  "sv_db (snd (Transfer_WriteAt se i b off w)) = sv_db w"
  "sv_heap (snd (Transfer_WriteAt se i b off w)) i =
     (sv_heap w i)\<lparr>t_lastActivity := sv_now w,
        t_bytesReceived := wrap64 (t_bytesReceived (sv_heap w i) + int (fst (fst (Transfer_WriteAt se i b off w))))\<rparr>"
  by (simp_all add: Transfer_WriteAt_def handleThrottle_def set_transfer_def Let_def case_prod_unfold)

lemma write_all_heap:
  "sv_db (snd (write_all se i ps w)) = sv_db w
   \<and> (\<exists>la. sv_heap (snd (write_all se i ps w)) i =
        (sv_heap w i)\<lparr>t_lastActivity := la,
           t_bytesReceived := (if ps = [] then t_bytesReceived (sv_heap w i)
             else wrap64 (t_bytesReceived (sv_heap w i) + fst (write_all se i ps w)))\<rparr>)"
proof (induction ps arbitrary: w)
  case Nil
  show ?case by (simp add: exI [of _ "t_lastActivity (sv_heap w i)"])
next
  case (Cons p ps)
  obtain b off where p: "p = (b, off)" by (cases p)
  let ?w = "snd (Transfer_WriteAt se i b off w)"
  from Cons [of ?w] obtain la where la: "sv_db (snd (write_all se i ps ?w)) = sv_db ?w"
    "sv_heap (snd (write_all se i ps ?w)) i = (sv_heap ?w i)\<lparr>t_lastActivity := la,
       t_bytesReceived := (if ps = [] then t_bytesReceived (sv_heap ?w i)
         else wrap64 (t_bytesReceived (sv_heap ?w i) + fst (write_all se i ps ?w)))\<rparr>" by blast
  have nil: "fst (write_all se i ps ?w) = 0" if "ps = []" using that by simp
  show ?case using la nil WriteAt_heap [of se i b off w]
    by (auto simp: p case_prod_unfold Let_def add.assoc intro!: exI [of _ la])
qed



lemma write_bytes_read:
  "take (length b) (drop off (write_bytes old off b)) = b"
  by (simp add: write_bytes_def)

lemma write_bytes_other:
  assumes "k < length old" and "k < off \<or> off + length b \<le> k"
  shows "write_bytes old off b ! k = old ! k"
proof (cases "k < off")
  case True
  then show ?thesis using assms(1) by (simp add: write_bytes_def nth_append)
next
  case False
  then have "off + length b \<le> k" using assms(2) by simp
  moreover from this assms(1) have "length (take off (old @ replicate (off - length old) 0)) = off" by simp
  moreover have "\<not> k - off < length b" using calculation(1) False by arith
  ultimately show ?thesis using assms(1) by (simp add: write_bytes_def nth_append)
qed

text \<open>
  C27. A file reads back what was written: bytes written through a transfer are the bytes that a
  transfer on the same file reads at the same place, and no other byte of the file before the
  old end changes.
\<close>

theorem transfer_reads_back:
  assumes "env_op_fault (se_env se) = (\<lambda>_ _. None)" and "b \<noteq> []" and "0 \<le> off"
    and "t_file (sv_heap w i) = \<lparr>fl_Name = n, fl_inode = Some k, fl_flags = fl, fl_closed = False\<rparr>"
    and "writable fl" and "fl AND O_APPEND = 0"
    and "t_file (sv_heap w j) = \<lparr>fl_Name = m, fl_inode = Some k, fl_flags = O_RDONLY, fl_closed = False\<rparr>" and "i \<noteq> j"
  shows "let (r, w1) = Transfer_WriteAt se i b off w
    in r = (length b, None) \<and> fst (Transfer_ReadAt se j (length b) off w1) = (b, None)
       \<and> (\<forall>x < length (fs_data (sv_fs w) k). x < nat off \<or> nat off + length b \<le> x
            \<longrightarrow> fs_data (sv_fs w1) k ! x = fs_data (sv_fs w) k ! x)"
  using assms
  by (auto simp: Let_def case_prod_unfold Transfer_WriteAt_def Transfer_ReadAt_def file_WriteAt_def file_ReadAt_def
      handleThrottle_def set_transfer_def write_bytes_read write_bytes_other open_flag_defs)

theorem transfer_reads_back_witness:
  "let c = sample_conn [''*'']; w = sample_serv\<lparr>sv_heap := (\<lambda>i. if i = 0
         then new_transfer c \<lparr>fl_Name = ''/a'', fl_inode = Some 0, fl_flags = 2, fl_closed = False\<rparr> ''/a'' transferUpload False 0
         else new_transfer c \<lparr>fl_Name = ''/a'', fl_inode = Some 0, fl_flags = O_RDONLY, fl_closed = False\<rparr> ''/a'' transferDownload False 0)\<rparr>
   in fst (Transfer_ReadAt sample_settings 1 2 1 (snd (Transfer_WriteAt sample_settings 0 [8, 9] 1 w))) = ([8, 9], None)"
proof -
  let ?c = "sample_conn [''*'']"
  let ?w = "sample_serv\<lparr>sv_heap := (\<lambda>i. if i = 0
         then new_transfer ?c \<lparr>fl_Name = ''/a'', fl_inode = Some 0, fl_flags = 2, fl_closed = False\<rparr> ''/a'' transferUpload False 0
         else new_transfer ?c \<lparr>fl_Name = ''/a'', fl_inode = Some 0, fl_flags = O_RDONLY, fl_closed = False\<rparr> ''/a'' transferDownload False 0)\<rparr>"
  have "t_file (sv_heap ?w 0) = \<lparr>fl_Name = ''/a'', fl_inode = Some 0, fl_flags = 2, fl_closed = False\<rparr>"
    "t_file (sv_heap ?w 1) = \<lparr>fl_Name = ''/a'', fl_inode = Some 0, fl_flags = O_RDONLY, fl_closed = False\<rparr>"
    "writable 2" "2 AND O_APPEND = 0" "env_op_fault (se_env sample_settings) = (\<lambda>_ _. None)"
    by (simp_all add: new_transfer_def writable_def open_flag_defs no_faults_def)
  from transfer_reads_back [OF this(5) list.distinct(2) zero_le_one this(1,3,4) this(2) zero_neq_one, of 8 "[9]"]
  have "fst (Transfer_ReadAt sample_settings 1 (length [8, 9 :: u8]) 1 (snd (Transfer_WriteAt sample_settings 0 [8, 9] 1 ?w)))
      = ([8, 9], None)"
    unfolding Let_def case_prod_unfold by (elim conjE)
  moreover have "length [8, 9 :: u8] = 2" by simp
  ultimately show ?thesis unfolding Let_def by (simp only:)
qed

text \<open>
  C30. A listing is complete: reading a directory in portions returns every entry once and in
  order, and the end is reported with the portion that is not full.
\<close>

theorem listing_complete:
  assumes "0 < n"
  shows "concat (map (\<lambda>k. case listerAt_ListAt un gn l n (int (k * n)) of Some (r, _) \<Rightarrow> r | None \<Rightarrow> []) [0..<m])
      = map (sftpFileInfo un gn) (take (m * n) l)
    \<and> (\<exists>r e. listerAt_ListAt un gn l n (int (m * n)) = Some (r, e) \<and> (e = Some IoEOF \<longleftrightarrow> length l < m * n + n) \<and> (e = None \<or> e = Some IoEOF))"
proof -
  have page: "listerAt_ListAt un gn l n (int j) = Some (map (sftpFileInfo un gn) (take n (drop j l)),
      if length l < j + n then Some IoEOF else None)" for j
  proof (cases "length l \<le> j")
    case True
    then show ?thesis using assms by (simp add: listerAt_ListAt_def)
  next
    case False
    have "take (min (j + n) (length l) - j) (drop j l) = take n (drop j l)" by (simp add: min_def)
    then show ?thesis using False by (auto simp: listerAt_ListAt_def Let_def)
  qed
  have "concat (map (\<lambda>k. case listerAt_ListAt un gn l n (int (k * n)) of Some (r, _) \<Rightarrow> r | None \<Rightarrow> []) [0..<m])
      = map (sftpFileInfo un gn) (take (m * n) l)"
  proof (induction m)
    case (Suc m)
    have "take (Suc m * n) l = take (m * n) l @ take n (drop (m * n) l)"
      by (simp add: take_add [symmetric] add.commute)
    with Suc show ?case by (simp add: page del: mult_Suc of_nat_mult)
  qed simp
  then show ?thesis using page [of "m * n"] by (auto simp del: of_nat_mult)
qed

theorem listing_complete_witness:
  "listerAt_ListAt (\<lambda>_. None) (\<lambda>_. None) [] 5 0 = Some ([], Some IoEOF)"
  using listing_complete [of 5 "\<lambda>_. None" "\<lambda>_. None" "[]" 0] by (auto simp: listerAt_ListAt_def)

end
