(* ===== verification/Serv_SessionClaims.thy ===== *)
theory Serv_SessionClaims
  imports Serv_Session Serv_HandlerClaims
begin

text \<open>
  Properties of whole sessions: what the client of a session can do to the files of the server,
  whatever bytes it sends. The contract of the handlers is discharged a second time, for users
  without any permission to write.
\<close>

section \<open>Users without permission to write\<close>

text \<open>The same entries with the same contents; attributes may differ.\<close>

definition same_files :: "fs \<Rightarrow> fs \<Rightarrow> bool" where
  "same_files f f' \<longleftrightarrow> (\<forall>l. at f' l = at f l \<or> is_dir (at f l) \<and> is_dir (at f' l)) \<and> fs_data f' = fs_data f"

definition read_only_user :: "User \<Rightarrow> bool" where
  "read_only_user u \<longleftrightarrow> \<not> HasPerm u PermUpload \<and> \<not> HasPerm u PermDelete \<and> \<not> HasPerm u PermRename
     \<and> \<not> HasPerm u PermCreateDirs \<and> \<not> HasPerm u PermCreateSymlinks"

definition read_inv :: "fs \<Rightarrow> nat \<Rightarrow> 'p serv \<Rightarrow> bool" where
  "read_inv f0 n0 s \<longleftrightarrow> same_files f0 (sv_fs s) \<and> n0 \<le> sv_next s
     \<and> (\<forall>i. own_transfer n0 s i \<longrightarrow> \<not> writable (fl_flags (t_file (sv_heap s i))) \<and> t_transferType (sv_heap s i) = transferDownload)"

lemma same_files_trans: "same_files f f1 \<Longrightarrow> same_files f1 f2 \<Longrightarrow> same_files f f2"
  unfolding same_files_def by metis

lemma change_meta_same: "same_files f (snd (change_meta opn g env f p))"
proof -
  have "same_files f (update_meta g l f)" for l
    by (auto simp: same_files_def update_meta_def at_put is_dir_iff split: option.splits node.splits)
  then show ?thesis by (auto simp: change_meta_def same_files_def split: sum.splits)
qed

lemma read_inv_frame:
  assumes "read_inv f0 n0 s" and "same_files (sv_fs s) (sv_fs s')" and "sv_heap s' = sv_heap s" and "sv_next s' = sv_next s"
  shows "read_inv f0 n0 s' \<and> own_transfer n0 s' = own_transfer n0 s"
  using assms same_files_trans unfolding read_inv_def own_transfer_def by metis

lemma same_files_refl [simp]: "same_files f f"
  by (simp add: same_files_def)

lemma read_only_Filecmd:
  assumes "read_only_user (c_User c)"
  shows "same_files (sv_fs s) (sv_fs (snd (Connection_Filecmd se c rq s)))
    \<and> sv_heap (snd (Connection_Filecmd se c rq s)) = sv_heap s \<and> sv_next (snd (Connection_Filecmd se c rq s)) = sv_next s"
proof -
  let ?s = "updateConnectionActivity (c_ID c) s"
  note u = assms [unfolded read_only_user_def]
  have set: "same_files (sv_fs s) (sv_fs (snd (handleSFTPSetstat se p rq ?s)))
    \<and> sv_heap (snd (handleSFTPSetstat se p rq ?s)) = sv_heap s \<and> sv_next (snd (handleSFTPSetstat se p rq ?s)) = sv_next s" for p
    using change_meta_same [of "sv_fs s"]
    by (auto simp: handleSFTPSetstat_def Let_def on_fs_def os_Chmod_def os_Chown_def os_Chtimes_def split: option.splits)
  show ?thesis
  proof (cases "rq_Method rq = ''Setstat''")
    case True
    then show ?thesis using set by (simp add: Connection_Filecmd_def Let_def split: sum.split)
  next
    case False
    then have "snd (Connection_Filecmd se c rq s) = ?s"
      using u by (auto simp: Connection_Filecmd_def Let_def handleSFTPRename_def handleSFTPRmdir_def handleSFTPMkdir_def
          handleSFTPSymlink_def handleSFTPRemove_def split: sum.splits)
    then show ?thesis by simp
  qed
qed

lemma read_only_Fileread:
  assumes "read_inv f0 n0 s" and "Connection_Fileread se c rq s = Some r"
  shows "opened_by (read_inv f0 n0) n0 s r"
  using assms(2)
proof (cases rule: Fileread_cases)
  case (1 e)
  then show ?thesis using assms(1) by (simp add: opened_by_def read_inv_def own_transfer_def)
next
  case (2 fl p now)
  then show ?thesis using assms(1)
    by (auto simp: opened_by_def read_inv_def own_transfer_def addTransfer_def new_transfer_def writable_def O_RDONLY_def)
qed

lemma read_only_Filewrite:
  assumes "read_only_user (c_User c)"
  shows "Connection_Filewrite se c rq s = (Inl ErrSSHFxPermissionDenied, updateConnectionActivity (c_ID c) s)"
  using assms by (simp add: read_only_user_def Connection_Filewrite_def Let_def)

lemma read_only_transfer:
  assumes "read_inv f0 n0 s" and "own_transfer n0 s i"
  shows "transfer_step (read_inv f0 n0) n0 s (snd (Transfer_ReadAt se i n off s))"
    "transfer_step (read_inv f0 n0) n0 s (snd (Transfer_WriteAt se i b off s))"
    "transfer_step (read_inv f0 n0) n0 s (snd (Transfer_Close se i s))"
proof -
  let ?t = "sv_heap s i"
  have t: "\<not> writable (fl_flags (t_file ?t))" "t_transferType ?t = transferDownload"
    using assms by (auto simp: read_inv_def)
  have set: "transfer_step (read_inv f0 n0) n0 s s'"
    if "\<And>k. k \<noteq> i \<Longrightarrow> sv_heap s' k = sv_heap s k" "sv_fs s' = sv_fs s" "sv_next s' = sv_next s"
      "fl_flags (t_file (sv_heap s' i)) = fl_flags (t_file ?t)" "t_transferType (sv_heap s' i) = t_transferType ?t" for s' :: "'a serv"
  proof -
    have "\<not> writable (fl_flags (t_file (sv_heap s' k))) \<and> t_transferType (sv_heap s' k) = transferDownload"
      if "own_transfer n0 s k" for k
      using assms(1) that t \<open>\<And>k. k \<noteq> i \<Longrightarrow> sv_heap s' k = sv_heap s k\<close> \<open>fl_flags _ = _\<close> \<open>t_transferType (sv_heap s' i) = _\<close>
      by (cases "k = i") (auto simp: read_inv_def)
    then show ?thesis using assms(1) that(2,3) by (simp add: transfer_step_def read_inv_def own_transfer_def fun_eq_iff)
  qed
  show "transfer_step (read_inv f0 n0) n0 s (snd (Transfer_ReadAt se i n off s))"
    by (rule set) (auto simp: Transfer_ReadAt_def Let_def case_prod_unfold handleThrottle_def set_transfer_def)
  have "snd (file_WriteAt (se_env se) (sv_fs s) (t_file ?t) b off) = sv_fs s"
    using t(1) by (auto simp: file_WriteAt_def split: option.splits)
  then show "transfer_step (read_inv f0 n0) n0 s (snd (Transfer_WriteAt se i b off s))"
    by (intro set) (auto simp: Transfer_WriteAt_def Let_def case_prod_unfold handleThrottle_def set_transfer_def)
  have "fl_flags (snd (file_Close (se_env se) (t_file ?t))) = fl_flags (t_file ?t)" by (simp add: file_Close_def)
  then show "transfer_step (read_inv f0 n0) n0 s (snd (Transfer_Close se i s))"
    using t(2) by (intro set)
      (simp_all add: Transfer_Close_def Let_def case_prod_unfold set_transfer_def)
qed

interpretation reading: kept_by_handlers False "connection_handlers se c unames gnames"
  "world_inv (read_only_user (c_User c)) (read_inv f0 n0)" "world_own n0"
  for se :: "'p settings" and c unames gnames f0 n0
proof
  fix w w' :: "'p serv option" and r :: srequest and res err x n off b rd cl l lister fi
  let ?hs = "connection_handlers se c unames gnames"
  let ?keeps = "keeps (world_inv (read_only_user (c_User c)) (read_inv f0 n0)) (world_own n0) w w'"
  assume I: "world_inv (read_only_user (c_User c)) (read_inv f0 n0) w"
  then have u: "read_only_user (c_User c)" by (simp add: world_inv_def)
  have act: "read_inv f0 n0 (updateConnectionActivity (c_ID c) s) \<and> own_transfer n0 (updateConnectionActivity (c_ID c) s) = own_transfer n0 s"
    if "read_inv f0 n0 s" for s :: "'p serv"
    by (rule read_inv_frame [OF that]) simp_all
  have lst: "snd (Connection_Filelist se c r s) = updateConnectionActivity (c_ID c) s" for s :: "'p serv"
    by (auto simp: Connection_Filelist_def Let_def split: sum.splits)
  show "?keeps \<and> (\<forall>x. res = Inr x \<longrightarrow> world_own n0 w' x)" if "h_Fileread ?hs r w = (res, w')"
    by (rule conn_call_opened [OF I that [unfolded hdefs] read_only_Fileread])
  show "?keeps \<and> (\<forall>x. res = Inr x \<longrightarrow> world_own n0 w' x)" if "h_Filewrite ?hs r w = (res, w')"
    by (rule conn_call_opened [OF I that [unfolded hdefs]]) (auto simp: opened_by_def read_only_Filewrite [OF u] act)
  show ?keeps if "h_Filecmd ?hs r w = (err, w')"
  proof (rule conn_call_keeps [OF I that [unfolded hdefs]])
    fix s x s' assume s: "read_inv f0 n0 s" "Some (Connection_Filecmd se c r s) = Some (x, s')"
    then show "read_inv f0 n0 s' \<and> (\<forall>i. own_transfer n0 s i \<longrightarrow> own_transfer n0 s' i)"
      using read_inv_frame [OF s(1), of s'] read_only_Filecmd [OF u, of s se r] by auto
  qed
  show ?keeps if "h_Filelist ?hs r w = (l, w')"
    by (rule conn_call_keeps [OF I that [unfolded hdefs]]) (metis act lst option.inject snd_conv)
  show ?keeps if "world_own n0 w x" "h_ReadAt ?hs x n off w = (rd, w')"
    by (rule conn_call_transfer [OF I that(1) that(2) [unfolded hdefs]]) (metis read_only_transfer(1) option.inject snd_conv)
  show ?keeps if "world_own n0 w x" "h_WriteAt ?hs x b off w = (err, w')"
    by (rule conn_call_transfer [OF I that(1) that(2) [unfolded hdefs]])
      (use read_only_transfer(2) in \<open>force simp: Let_def case_prod_unfold\<close>)
  show ?keeps if "h_Close ?hs x = Some cl" "world_own n0 w x" "cl w = (err, w')"
  proof (rule conn_call_transfer [OF I that(2), of "\<lambda>s. Some (Transfer_Close se x s)" "Some ErrSSHFxFailure"])
    show "conn_call (\<lambda>s. Some (Transfer_Close se x s)) (Some ErrSSHFxFailure) w = (err, w')"
      using that(1,3) by (auto simp: hdefs)
  qed (metis read_only_transfer(3) option.inject snd_conv)
  show ?keeps if "h_ListAt ?hs lister n off w = (fi, w')"
    by (rule conn_call_keeps [OF I that [unfolded hdefs]]) auto
qed (simp_all add: connection_handlers_def)

lemma reading_keeps:
  assumes "read_only_user (c_User c)"
    and "handleSftpConnection se c unames gnames exts ck mem rd alloc s = Some (rpkts, err, s')"
  shows "read_inv (sv_fs s) (sv_next s) s'"
proof -
  let ?s0 = "addConnection (c_ID c) c s"
  from assms(2) obtain s1 where r: "Serve exts (connection_handlers se c unames gnames) ck mem rd alloc (Some ?s0) = Some (rpkts, err, Some s1)"
    and s': "s' = removeConnection (c_ID c) s1"
    by (auto simp: handleSftpConnection_def Let_def split: option.splits)
  have "world_inv (read_only_user (c_User c)) (read_inv (sv_fs s) (sv_next s)) (Some ?s0)"
    using assms(1) by (auto simp: world_inv_def read_inv_def addConnection_def own_transfer_def)
  from reading.Serve_keeps [OF this _ r] have "read_inv (sv_fs s) (sv_next s) s1" by (simp add: world_inv_def list_all_iff)
  then show ?thesis by (simp add: s' removeConnection_def read_inv_def own_transfer_def)
qed

section \<open>A sample session\<close>

text \<open>
  The sample server without the links, and the bytes with which a client asks for the removal
  of a file, with a path that tries to leave the home directory.
\<close>

definition tidy_serv :: "memdb serv" where
  "tidy_serv = sample_serv\<lparr>sv_fs := sample_fs\<lparr>fs_tree := filter (\<lambda>(l, nd). \<not> is_link (Some nd)) (fs_tree sample_fs)\<rparr>\<rparr>"

definition sample_packet :: requestPacket where
  "sample_packet = sshFxpRemovePacket 7 ''../x/../a''"

definition sample_reader :: reader where
  "sample_reader = \<lparr>rd_data = frame (the (request_MarshalBinary sample_packet)), rd_err = IoEOF\<rparr>"

definition sample_session :: "string list \<Rightarrow> (responsePacket list \<times> goerr option \<times> memdb serv) option" where
  "sample_session perms = handleSftpConnection sample_settings (sample_conn perms) (\<lambda>_. None) (\<lambda>_. None) [] utc (\<lambda>_. [])
     sample_reader None tidy_serv"

lemma sample_stream: "serveLoop sample_reader None 1 = ([sample_packet], IoEOF)"
proof -
  have "sendable sample_packet (the (request_MarshalBinary sample_packet))"
  proof -
    have "length (the (request_MarshalBinary sample_packet)) = 18" by code_simp
    then show ?thesis by (simp add: sendable_def sample_packet_def fits32_def maxMsgLength_def)
  qed
  then show ?thesis using serveLoop_frames [of "[sample_packet]" "[the (request_MarshalBinary sample_packet)]" sample_reader None 1]
    by (simp add: sample_reader_def)
qed

lemma linkless_tree: "list_all (\<lambda>(l, nd). \<not> is_link (Some nd)) (fs_tree f) \<Longrightarrow> linkless hl f"
  by (auto simp: linkless_def at_def list_all_iff is_link_iff dest!: map_of_SomeD)


lemma tidy_parts [simp]: "sv_fs tidy_serv = sample_fs\<lparr>fs_tree := filter (\<lambda>(l, nd). \<not> is_link (Some nd)) (fs_tree sample_fs)\<rparr>"
  "sv_next tidy_serv = 0"
  by (simp_all add: tidy_serv_def sample_serv_def)

lemma tidy_linkless: "linkless hl (sv_fs tidy_serv)"
  by (rule linkless_tree) (auto simp: list_all_iff)

lemma tidy_no_sharing: "no_sharing (sv_fs tidy_serv)"
proof -
  have m: "map_of (fs_tree (sv_fs tidy_serv)) l = Some nd \<Longrightarrow> (l, nd) \<in> set (fs_tree (sv_fs tidy_serv))" for l nd
    by (rule map_of_SomeD)
  have t: "fs_tree (sv_fs tidy_serv) = [([''etc''], Dir plain_meta), ([''home''], Dir plain_meta),
       ([''home'', ''alice''], Dir plain_meta), ([''home'', ''alice2''], Dir plain_meta),
       ([''home'', ''alice'', ''a''], File 0), ([''home'', ''alice2'', ''b''], File 1)]"
    by code_simp
  have "fs_next (sv_fs tidy_serv) = 2" by code_simp
  then show ?thesis using m unfolding no_sharing_def at_def t by (auto split: if_splits)
qed

lemma sample_session_run:
  "sample_session perms = (case serve_packets [] (connection_handlers sample_settings (sample_conn perms) (\<lambda>_. None) (\<lambda>_. None)) utc (\<lambda>_. []) 1
       [sample_packet] (NewRequestServer None) (Some (addConnection ''c1'' (sample_conn perms) tidy_serv)) of
     None \<Rightarrow> None
   | Some (rpkts, rs, w) \<Rightarrow> (let (err, rs, w) = Serve_cleanup (connection_handlers sample_settings (sample_conn perms) (\<lambda>_. None) (\<lambda>_. None)) (Some IoEOF) rs w
       in case w of Some s \<Rightarrow> Some (rpkts, err, removeConnection ''c1'' s) | None \<Rightarrow> None))"
  by (auto simp: sample_session_def handleSftpConnection_def Serve_def sample_stream Let_def sample_conn_def split: option.split prod.split)

lemma sample_session_removes:
  "map_option (\<lambda>(rpkts, _, s). (map response_id rpkts, at (sv_fs s) [''home'', ''alice'', ''a''])) (sample_session [''delete'']) = Some ([7], None)"
  unfolding sample_session_run by code_simp

lemma sample_session_denied:
  "map_option (\<lambda>(rpkts, _, s). (map response_id rpkts, at (sv_fs s) [''home'', ''alice'', ''a''])) (sample_session [''list'']) = Some ([7], Some (File 0))"
  unfolding sample_session_run by code_simp

lemma sample_confined: "confined_user sample_settings (sample_conn [''delete'']) [''home'', ''alice'']"
  by code_simp

lemma sample_reads_only: "read_only_user (c_User (sample_conn [''list'']))"
  by code_simp

lemma sample_no_posix_rename: "list_all (\<lambda>p. \<not> posix_rename p) (fst (serveLoop sample_reader None 1))"
  by (simp add: sample_stream sample_packet_def)

section \<open>Claims\<close>





end
