(* ===== verification/Serv_Login.thy ===== *)
theory Serv_Login
  imports Serv_HandlerClaims
begin

text \<open>
  Logins and the requests of a channel, \<^verbatim>\<open>serv/server.go\<close> and \<^verbatim>\<open>serv/shell_linux.go\<close>: the
  callbacks that check a password or a public key, the base key of the configuration, the
  checks of \<open>loginUser\<close>, the account that travels as JSON through the permissions of the ssh
  connection, and the loop over the requests of a channel that starts the sftp subsystem, scp,
  a command or a shell. The handshake itself is \<^verbatim>\<open>golang.org/x/crypto/ssh\<close>, which calls the
  callbacks; splitting a command line (\<open>shlex\<close>), decoding the payload of an \<open>exec\<close> request and opening a terminal are parameters.
\<close>

section \<open>Configuration\<close>

text \<open>
  The text of a user in the configuration is \<open>Text []\<close> when it is empty and \<open>Doc\<close> of its JSON
  value otherwise; the fields with an underscore are the ones \<open>_initBaseKey\<close> computes.
\<close>

record ExtConf =
  ec_HDFS :: string
  ec_HDFSHosts :: string
  ec_BasePubkey :: string
  ec_BaseUser :: dbval
  ec_basePubKey :: string
  ec_baseUser :: string

record Configuration =
  cfg_Banner :: string
  cfg_BindPort :: int
  cfg_BindAddress :: string
  cfg_IdleTimeout :: int
  cfg_MaxAuthTries :: int
  cfg_Umask :: string
  cfg_Keys :: "string list"
  cfg_IsSCPEnabled :: bool
  cfg_FullFunc :: bool
  cfg_Ext :: ExtConf

definition defaultPrivateKeyName :: string where "defaultPrivateKeyName = ''id_rsa''"

definition default_base_user :: dbval where
  "default_base_user = Doc (JObj
     [(''id'', JInt 1), (''username'', JStr ''_base_''), (''permissions'', JArr [JStr ''*'']), (''password'', JStr ''''),
      (''home_dir'', JStr ''/''), (''uid'', JInt 0), (''gid'', JInt 0), (''max_sessions'', JInt 0), (''quota_size'', JInt 0),
      (''quota_files'', JInt 0), (''used_quota_size'', JInt 0), (''used_quota_files'', JInt 0), (''last_quota_update'', JInt 0),
      (''upload_bandwidth'', JInt 0), (''download_bandwidth'', JInt 0)])"

text \<open>The user name that \<open>json.Unmarshal\<close> leaves in the struct, also when it reports an error for another field.\<close>

definition decoded_username :: "dbval \<Rightarrow> string" where
  "decoded_username v =
     (case v of Doc (JObj ms) \<Rightarrow> (case get_str ms ''username'' of Some s \<Rightarrow> s | None \<Rightarrow> []) | _ \<Rightarrow> [])"

definition initBaseKey :: "crypto \<Rightarrow> ExtConf \<Rightarrow> ExtConf" where
  "initBaseKey cr ext =
     (if sublist ''ssh-'' (ec_BasePubkey ext)
      then (let ext = (if ec_BaseUser ext = Text [] then ext\<lparr>ec_BaseUser := default_base_user\<rparr> else ext);
                ext = ext\<lparr>ec_baseUser := decoded_username (ec_BaseUser ext)\<rparr>
            in case cr_ParseAuthorizedKey cr (ec_BasePubkey ext) of
                 Inr k \<Rightarrow> ext\<lparr>ec_basePubKey := k\<rparr> | Inl _ \<Rightarrow> ext)
      else ext)"

definition checkBaseKey :: "ExtConf \<Rightarrow> string \<Rightarrow> string \<Rightarrow> dbval option" where
  "checkBaseKey ext user pubkey =
     (if user = ec_baseUser ext \<and> pubkey = ec_basePubKey ext then Some (ec_BaseUser ext) else None)"

section \<open>Making the home directory\<close>

text \<open>\<open>os.MkdirAll\<close>: the parents first, by cutting off the last element of the path.\<close>

definition parent_text :: "string \<Rightarrow> string" where
  "parent_text p = (let p' = rev (dropWhile (\<lambda>c. c \<noteq> slash) (dropWhile (\<lambda>c. c = slash) (rev p))) in butlast p')"

lemma parent_text_shorter:
  assumes "parent_text p \<noteq> []"
  shows "length (parent_text p) < length p"
proof -
  define q where "q = dropWhile (\<lambda>c. c \<noteq> slash) (dropWhile (\<lambda>c. c = slash) (rev p))"
  have "length q \<le> length p" unfolding q_def using length_dropWhile_le le_trans length_rev by metis
  moreover have "parent_text p = butlast (rev q)" by (simp add: parent_text_def q_def Let_def)
  ultimately show ?thesis using assms by (cases q) auto
qed

function os_MkdirAll :: "os_env \<Rightarrow> string \<Rightarrow> u32 \<Rightarrow> fs \<Rightarrow> goerr option \<times> fs" where
  "os_MkdirAll env path perm f =
     (case os_Stat env f path of
        Inr dir \<Rightarrow> ((if fi_IsDir dir then None else Some (PathError ''mkdir'' path (SysErrno ENOTDIR))), f)
      | Inl _ \<Rightarrow>
          (case (if parent_text path \<noteq> [] then os_MkdirAll env (parent_text path) perm f else (None, f)) of
             (Some e, f) \<Rightarrow> (Some e, f)
           | (None, f) \<Rightarrow>
               (case os_Mkdir env f path perm of
                  (Some e, f) \<Rightarrow> ((case os_Lstat env f path of Inr dir \<Rightarrow> if fi_IsDir dir then None else Some e | Inl _ \<Rightarrow> Some e), f)
                | (None, f) \<Rightarrow> (None, f))))"
  by pat_completeness auto
termination by (relation "measure (\<lambda>(_, p, _, _). length p)") (auto dest: parent_text_shorter)

declare os_MkdirAll.simps [simp del]

section \<open>Credentials\<close>

definition make_home :: "'p settings \<Rightarrow> User \<Rightarrow> 'p serv \<Rightarrow> 'p serv" where
  "make_home se user w =
     (case os_Stat (se_env se) (sv_fs w) (u_HomeDir user) of
        Inr _ \<Rightarrow> w
      | Inl e \<Rightarrow>
          (if os_IsNotExist e
           then (case os_MkdirAll (se_env se) (u_HomeDir user) 0x1FF (sv_fs w) of
                   (None, f) \<Rightarrow> w\<lparr>sv_fs := SetPathPermissions (se_env se) (u_HomeDir user) (GetUID user) (GetGID user) f\<rparr>
                 | (Some _, f) \<Rightarrow> w\<lparr>sv_fs := f\<rparr>)
           else w))"

definition loginUser :: "'p settings \<Rightarrow> User \<Rightarrow> 'p serv \<Rightarrow> (goerr + dbval) \<times> 'p serv" where
  "loginUser se user w =
     (if \<not> path_IsAbs (u_HomeDir user)
      then (Inl (ErrorString (''Cannot login user with invalid home dir: '' @ u_HomeDir user)), w)
      else (let w = make_home se user w; activeSessions = getActiveSessions (u_Username user) w
            in if u_MaxSessions user > 0 \<and> int activeSessions \<ge> u_MaxSessions user
               then (Inl (ErrorString (''Too many open sessions: '' @ itoa activeSessions)), w)
               else (Inr (Doc (user_json user)), w)))"

definition validatePublicKeyCredentials :: "'p settings \<Rightarrow> Configuration \<Rightarrow> string \<Rightarrow> string \<Rightarrow> 'p serv
    \<Rightarrow> (goerr + dbval) \<times> 'p serv" where
  "validatePublicKeyCredentials se c user pubKey w =
     (case checkBaseKey (cfg_Ext c) user pubKey of
        Some p \<Rightarrow> (Inr p, w)
      | None \<Rightarrow>
          (case CheckUserAndPubKey (se_provider se) user pubKey (sv_db w) of
             (u, None) \<Rightarrow> loginUser se u w
           | (_, Some e) \<Rightarrow> (Inl e, w)))"

definition validatePasswordCredentials :: "'p settings \<Rightarrow> string \<Rightarrow> string \<Rightarrow> 'p serv \<Rightarrow> (goerr + dbval) \<times> 'p serv" where
  "validatePasswordCredentials se user pass w =
     (case CheckUserAndPass (se_provider se) user pass (sv_db w) of
        (u, None) \<Rightarrow> loginUser se u w
      | (_, Some e) \<Rightarrow> (Inl e, w))"

text \<open>
  The part of \<open>AcceptInboundConnection\<close> after the handshake: the account is read back from
  the permissions and becomes the user of the connection.
\<close>

definition accepted_connection :: "string \<Rightarrow> string \<Rightarrow> string \<Rightarrow> dbval \<Rightarrow> int \<Rightarrow> Connection option" where
  "accepted_connection connectionID clientVersion remoteAddr ext now =
     (case json_Unmarshal ext of
        Inl _ \<Rightarrow> None
      | Inr user \<Rightarrow> Some \<lparr>c_ID = connectionID, c_User = user, c_ClientVersion = clientVersion, c_RemoteAddr = remoteAddr,
                         c_StartTime = now, c_lastActivity = now, c_protocol = []\<rparr>)"

section \<open>Host keys\<close>

text \<open>
  The text of a fresh private key, or the error of making one, is the argument \<open>key\<close>.
\<close>

definition generatePrivateKey :: "os_env \<Rightarrow> string \<Rightarrow> goerr + bytes \<Rightarrow> fs \<Rightarrow> goerr option \<times> fs" where
  "generatePrivateKey env file key f =
     (case key of Inl e \<Rightarrow> (Some e, f)
      | Inr pem \<Rightarrow>
          (case os_OpenFile env f file (O_RDWR OR O_CREATE OR O_TRUNC) 0x180 of
             (Inl e, f) \<Rightarrow> (Some e, f)
           | (Inr fl, f) \<Rightarrow> (case file_WriteAt env f fl pem 0 of ((_, err), f) \<Rightarrow> (err, f))))"

definition checkHostKeys :: "os_env \<Rightarrow> string \<Rightarrow> goerr + bytes \<Rightarrow> Configuration \<Rightarrow> fs \<Rightarrow> goerr option \<times> Configuration \<times> fs" where
  "checkHostKeys env configDir key c f =
     (if cfg_Keys c = []
      then (let autoFile = path_Join [configDir, defaultPrivateKeyName];
                (err, f) = (case os_Stat env f autoFile of
                   Inr _ \<Rightarrow> (None, f)
                 | Inl e \<Rightarrow> if os_IsNotExist e then generatePrivateKey env autoFile key f else (Some e, f))
            in (err, c\<lparr>cfg_Keys := cfg_Keys c @ [defaultPrivateKeyName]\<rparr>, f))
      else (None, c, f))"

definition parseCommandPayload :: "string \<Rightarrow> string \<times> string list" where
  "parseCommandPayload command =
     (let parts = split_on (CHR '' '') command
      in if length parts < 2 then (hd parts, []) else (hd parts, tl parts))"

section \<open>Channels\<close>

datatype channel_action = StartForward | RejectChannel string | StartSession | NoAction

definition iterChans :: "Configuration \<Rightarrow> Connection \<Rightarrow> string \<Rightarrow> goerr option \<Rightarrow> channel_action \<times> bool" where
  "iterChans c connection channelType acceptErr =
     (if channelType = ''direct-tcpip''
      then (if cfg_FullFunc c \<and> HasPerm (c_User connection) PermTCPForward then (StartForward, True) else (NoAction, False))
      else if channelType \<noteq> ''session'' then (RejectChannel ''unknown channel type'', False)
      else case acceptErr of Some _ \<Rightarrow> (NoAction, False) | None \<Rightarrow> (StartSession, True))"

text \<open>Whether a global request is passed on to the listener of forwarded ports.\<close>

definition global_forward :: "Configuration \<Rightarrow> Connection \<Rightarrow> string \<Rightarrow> bool" where
  "global_forward c connection reqType \<longleftrightarrow>
     reqType = ''tcpip-forward'' \<and> cfg_FullFunc c \<and> HasPerm (c_User connection) PermTCPForward"

section \<open>The requests of a session channel\<close>

text \<open>
  What a request starts: the sftp subsystem, an scp command, another command with its arguments
  and its directory, the terminal, the shell on it, a change of the size of the window, and the reply.
  \<open>None\<close> is a panic: the payload of a \<open>subsystem\<close> request is sliced from its fifth byte, the
  first word of a command line is taken without looking whether there is one, and the length of the
  name of the terminal is added to four in eight bits.
\<close>

record ssh_request =
  sr_Type :: string
  sr_Payload :: bytes

datatype session_action =
    StartSftp Connection
  | StartScp Connection "string list"
  | RunProcess string "string list" string
  | OpenPty u32 u32
  | StartShell string
  | Resize u32 u32
  | Reply bool

record shell_env =
  sh_execMsg :: "bytes \<Rightarrow> string option"
  sh_Split :: "string \<Rightarrow> string list \<times> goerr option"
  sh_ptyOpen :: bool
  sh_handleExec :: "string \<Rightarrow> string list \<Rightarrow> goerr option"

definition parseDims :: "bytes \<Rightarrow> (u32 \<times> u32) option" where
  "parseDims b =
     (case unmarshalUint32Safe b of Inl _ \<Rightarrow> None
      | Inr (w, b) \<Rightarrow> (case unmarshalUint32Safe b of Inl _ \<Rightarrow> None | Inr (h, _) \<Rightarrow> Some (w, h)))"

definition handlePtrReq :: "shell_env \<Rightarrow> bytes \<Rightarrow> (session_action list \<times> bool) option" where
  "handlePtrReq sh payload =
     (if \<not> sh_ptyOpen sh then Some ([], False)
      else if length payload < 4 then None
      else (let termLen = payload ! 3
            in if unat (termLen + 4) < 4 \<or> length payload < unat (termLen + 4) then None
               else case parseDims (drop (unat (termLen + 4)) payload) of
                      None \<Rightarrow> None | Some (w, h) \<Rightarrow> Some ([OpenPty w h], True)))"

text \<open>
  The case \<open>exec\<close>: the actions with the reply, and whether the loop returns.
\<close>

definition handle_exec :: "shell_env \<Rightarrow> Configuration \<Rightarrow> Connection \<Rightarrow> bytes \<Rightarrow> (session_action list \<times> bool) option" where
  "handle_exec sh c connection payload =
     (case sh_execMsg sh payload of
        None \<Rightarrow> Some ([Reply False], False)
      | Some command \<Rightarrow>
          (case sh_Split sh command of
             ([], _) \<Rightarrow> None
           | (name # execArgs, err) \<Rightarrow>
               if cfg_IsSCPEnabled c \<and> err = None \<and> name = ''scp'' \<and> length execArgs \<ge> 2
               then Some ([StartScp (connection\<lparr>c_protocol := protocolSCP\<rparr>) execArgs, Reply True], False)
               else if err = None \<and> HasPerm (c_User connection) PermShell
               then (case sh_handleExec sh name execArgs of
                       Some _ \<Rightarrow> Some ([Reply False], True)
                     | None \<Rightarrow> Some ([RunProcess name execArgs (u_HomeDir (c_User connection)), Reply True], True))
               else Some ([Reply False], False)))"

fun handleSSHRequest :: "shell_env \<Rightarrow> Configuration \<Rightarrow> Connection \<Rightarrow> bool \<Rightarrow> ssh_request list \<Rightarrow> session_action list option" where
  "handleSSHRequest sh c connection pty [] = Some []"
| "handleSSHRequest sh c connection pty (req # reqs) =
     (let continue = (\<lambda>connection pty acts. map_option (\<lambda>rest. acts @ rest) (handleSSHRequest sh c connection pty reqs))
      in if sr_Type req = ''subsystem'' then
           (if length (sr_Payload req) < 4 then None
            else if string_of (drop 4 (sr_Payload req)) = ''sftp''
            then (let connection = connection\<lparr>c_protocol := protocolSFTP\<rparr>
                  in continue connection pty [StartSftp connection, Reply True])
            else continue connection pty [Reply False])
         else if sr_Type req = ''exec'' then
           (case handle_exec sh c connection (sr_Payload req) of
              None \<Rightarrow> None
            | Some (acts, returns) \<Rightarrow> if returns then Some acts else continue connection pty acts)
         else if sr_Type req = ''shell'' then
           (if pty then continue connection pty [StartShell (u_HomeDir (c_User connection)), Reply True]
            else continue connection pty [Reply False])
         else if sr_Type req = ''pty-req'' then
           (if cfg_FullFunc c \<and> HasPerm (c_User connection) PermShell
            then (case handlePtrReq sh (sr_Payload req) of
                    None \<Rightarrow> None | Some (acts, ok) \<Rightarrow> continue connection ok (acts @ [Reply ok]))
            else continue connection pty [Reply False])
         else if sr_Type req = ''window-change'' then
           (if pty then (case parseDims (sr_Payload req) of None \<Rightarrow> None | Some (w, h) \<Rightarrow> continue connection pty [Resize w h])
            else continue connection pty [])
         else continue connection pty [Reply False])"

section \<open>What a login gives\<close>

definition password_verified :: "crypto \<Rightarrow> string \<Rightarrow> User \<Rightarrow> bool" where
  "password_verified cr password u \<longleftrightarrow>
     (if prefix argonPwdPrefix (u_Password u) then cr_ComparePasswordAndHash cr password (u_Password u) = Inr True
      else if prefix bcryptPwdPrefix (u_Password u) then cr_CompareHashAndPassword cr (u_Password u) password = None
      else IsStringPrefixInSlice (u_Password u) pbkdfPwdPrefixes
           \<and> comparePbkdf2PasswordAndHash cr password (u_Password u) = Inr True)"

lemma make_home_frame [simp]:
  "sv_db (make_home se user w) = sv_db w" "sv_openConnections (make_home se user w) = sv_openConnections w"
  by (auto simp: make_home_def split: sum.split option.split prod.split)

lemma loginUser_done:
  assumes "loginUser se u w = (Inr ext, w')"
  shows "ext = Doc (user_json u) \<and> path_IsAbs (u_HomeDir u) \<and> (u_MaxSessions u > 0 \<longrightarrow> int (getActiveSessions (u_Username u) w) < u_MaxSessions u)
    \<and> w' = make_home se u w"
  using assms by (auto simp: loginUser_def Let_def getActiveSessions_def split: if_splits)

lemma stored_account:
  assumes "bolt_ok b d" and "accounts b d name = Some u"
  shows "user_ok u \<and> u_Username u = name \<and> json_Unmarshal (Doc (user_json u)) = Inr u"
  using assms by (simp add: accounts_record record_ok_def json_Unmarshal_def json_user_json)

text \<open>A login is not counted until its session opens the sftp subsystem: the same login succeeds again.\<close>

lemma login_not_counted:
  assumes "loginUser se u w = (Inr ext, w')"
  shows "fst (loginUser se u w') = Inr ext"
proof -
  have "sv_openConnections (make_home se u w') = sv_openConnections w" using loginUser_done [OF assms] by simp
  then have "getActiveSessions (u_Username u) (make_home se u w') = getActiveSessions (u_Username u) w"
    unfolding getActiveSessions_def by (rule arg_cong)
  then show ?thesis using loginUser_done [OF assms] unfolding loginUser_def Let_def by auto
qed

definition shell_free :: "Configuration \<Rightarrow> User \<Rightarrow> session_action \<Rightarrow> bool" where
  "shell_free c u a = (case a of StartSftp k \<Rightarrow> c_User k = u | StartScp k args \<Rightarrow> c_User k = u \<and> cfg_IsSCPEnabled c
     | Reply ok \<Rightarrow> True | _ \<Rightarrow> False)"

lemma shell_free_simps [simp]:
  "shell_free c u (StartSftp k) \<longleftrightarrow> c_User k = u" "shell_free c u (StartScp k args) \<longleftrightarrow> c_User k = u \<and> cfg_IsSCPEnabled c"
  "shell_free c u (Reply ok)"
  by (simp_all add: shell_free_def)

lemma exec_without_shell:
  assumes "\<not> HasPerm (c_User connection) PermShell" and "handle_exec sh c connection p = Some (acts, returns)"
  shows "list_all (shell_free c (c_User connection)) acts \<and> \<not> returns"
  using assms by (auto simp: handle_exec_def split: option.splits list.splits prod.splits if_splits)

lemma requests_without_shell:
  assumes "c_User connection = u" and "\<not> HasPerm u PermShell" and "handleSSHRequest sh c connection False reqs = Some acts"
  shows "list_all (shell_free c u) acts"
  using assms
proof (induction reqs arbitrary: connection acts)
  case (Cons req reqs)
  show ?case
  proof (cases "sr_Type req = ''exec''")
    case True
    then obtain a r where e: "handle_exec sh c connection (sr_Payload req) = Some (a, r)" using Cons.prems(3) by (auto split: option.splits)
    with exec_without_shell [OF _ e] Cons.prems True obtain rest where
      "handleSSHRequest sh c connection False reqs = Some rest" "acts = a @ rest" by auto
    with Cons.IH [OF Cons.prems(1,2) this(1)] exec_without_shell [OF _ e] Cons.prems(1,2) show ?thesis by auto
  next
    case False
    then show ?thesis using Cons Cons.IH [of "connection\<lparr>c_protocol := protocolSFTP\<rparr>"] by (auto simp: Let_def split: if_splits)
  qed
qed simp

text \<open>A configuration with scp and shells enabled, and a client that tries to get a command run.\<close>

definition sample_shell :: shell_env where
  "sample_shell = \<lparr>sh_execMsg = (\<lambda>p. Some (string_of p)), sh_Split = (\<lambda>s. (split_on (CHR '' '') s, None)), sh_ptyOpen = True,
     sh_handleExec = (\<lambda>_ _. None)\<rparr>"

definition sample_configuration :: Configuration where
  "sample_configuration = \<lparr>cfg_Banner = [], cfg_BindPort = 22, cfg_BindAddress = [], cfg_IdleTimeout = 0, cfg_MaxAuthTries = 0, cfg_Umask = [],
     cfg_Keys = [], cfg_IsSCPEnabled = True, cfg_FullFunc = True,
     cfg_Ext = \<lparr>ec_HDFS = [], ec_HDFSHosts = [], ec_BasePubkey = [], ec_BaseUser = Text [], ec_basePubKey = [], ec_baseUser = []\<rparr>\<rparr>"

definition sample_requests :: "ssh_request list" where
  "sample_requests = [\<lparr>sr_Type = ''pty-req'', sr_Payload = []\<rparr>, \<lparr>sr_Type = ''exec'', sr_Payload = bytes_of ''scp -t /x''\<rparr>,
     \<lparr>sr_Type = ''exec'', sr_Payload = bytes_of ''rm -r /''\<rparr>, \<lparr>sr_Type = ''shell'', sr_Payload = []\<rparr>]"

section \<open>Claims\<close>



text \<open>
  C16. Only the permission for a shell gives one. For a user without it no sequence of requests on a
  session channel starts a command, a terminal or a shell; the sftp subsystem and scp are
  started for the user of the connection only, and scp only when the configuration enables it.
\<close>

theorem no_shell_without_permission:
  assumes "\<not> HasPerm (c_User connection) PermShell" and "handleSSHRequest sh c connection False reqs = Some acts"
  shows "list_all (\<lambda>a. case a of StartSftp k \<Rightarrow> c_User k = c_User connection
    | StartScp k args \<Rightarrow> c_User k = c_User connection \<and> cfg_IsSCPEnabled c
    | Reply ok \<Rightarrow> True | _ \<Rightarrow> False) acts"
  using requests_without_shell [OF refl assms] by (simp add: shell_free_def list_all_iff)

theorem no_shell_without_permission_witness:
  "\<exists>acts. handleSSHRequest sample_shell sample_configuration (sample_conn [''list'']) False sample_requests = Some acts \<and> length acts = 5
     \<and> list_all (\<lambda>a. case a of StartSftp k \<Rightarrow> c_User k = c_User (sample_conn [''list''])
         | StartScp k args \<Rightarrow> c_User k = c_User (sample_conn [''list'']) \<and> cfg_IsSCPEnabled sample_configuration
         | Reply ok \<Rightarrow> True | _ \<Rightarrow> False) acts"
proof -
  have n: "\<not> HasPerm (c_User (sample_conn [''list''])) PermShell" by code_simp
  have "map_option length (handleSSHRequest sample_shell sample_configuration (sample_conn [''list'']) False sample_requests) = Some 5"
    by code_simp
  then obtain acts where a: "handleSSHRequest sample_shell sample_configuration (sample_conn [''list'']) False sample_requests = Some acts"
    "length acts = 5" unfolding map_option_eq_Some by blast
  show ?thesis by (intro exI conjI, rule a(1), rule a(2), rule no_shell_without_permission [OF n a(1)])
qed


end
