(* ===== verification/Serv_Api.thy ===== *)
theory Serv_Api
  imports Serv_Login
begin

text \<open>
  The REST interface, \<^verbatim>\<open>api/api.go\<close>, \<^verbatim>\<open>api/router.go\<close>, \<^verbatim>\<open>api/user.go\<close> and \<^verbatim>\<open>api/quota.go\<close>: the
  routes, the handlers of users, quota scans and connections with their status codes, and
  the functions of \<^verbatim>\<open>api/api_utils.go\<close> that call it and compare what they get. A request is
  its method, the elements of its path, its query and its body; a body that is not JSON is
  \<open>Inl\<close>. The router is \<^verbatim>\<open>go-chi\<close>: a pattern matches element by element. The transport between client and
  server is a parameter of the client functions.
\<close>

section \<open>Requests and responses\<close>

record http_request =
  hr_Method :: string
  hr_Path :: "string list"
  hr_Query :: "(string \<times> string) list"
  hr_Body :: "goerr + json"

record http_response =
  hp_Status :: nat
  hp_Body :: json

record apiResponse =
  ar_Error :: string
  ar_Message :: string
  ar_HTTPStatus :: nat

definition StatusOK :: nat where "StatusOK = 200"
definition StatusCreated :: nat where "StatusCreated = 201"
definition StatusBadRequest :: nat where "StatusBadRequest = 400"
definition StatusForbidden :: nat where "StatusForbidden = 403"
definition StatusNotFound :: nat where "StatusNotFound = 404"
definition StatusMethodNotAllowed :: nat where "StatusMethodNotAllowed = 405"
definition StatusConflict :: nat where "StatusConflict = 409"
definition StatusInternalServerError :: nat where "StatusInternalServerError = 500"

lemmas status_defs = StatusOK_def StatusCreated_def StatusBadRequest_def StatusForbidden_def StatusNotFound_def
  StatusMethodNotAllowed_def StatusConflict_def StatusInternalServerError_def

definition apiResponse_json :: "apiResponse \<Rightarrow> json" where
  "apiResponse_json r = JObj [(''error'', JStr (ar_Error r)), (''message'', JStr (ar_Message r)), (''status'', JInt (int (ar_HTTPStatus r)))]"

text \<open>The text of an error; the types of the package \<open>dataprovider\<close> add a prefix.\<close>

definition err_Error :: "goerr \<Rightarrow> string" where
  "err_Error e = (case e of ValidationError s \<Rightarrow> ''Validation error: '' @ s | MethodDisabledError s \<Rightarrow> ''Method disabled error: '' @ s
     | RecordNotFoundError s \<Rightarrow> ''Not found: '' @ s | _ \<Rightarrow> error_text e)"

definition sendAPIResponse :: "goerr option \<Rightarrow> string \<Rightarrow> nat \<Rightarrow> http_response" where
  "sendAPIResponse err message code =
     \<lparr>hp_Status = code,
      hp_Body = apiResponse_json \<lparr>ar_Error = (case err of None \<Rightarrow> [] | Some e \<Rightarrow> err_Error e), ar_Message = message, ar_HTTPStatus = code\<rparr>\<rparr>"

definition getRespStatus :: "goerr \<Rightarrow> nat" where
  "getRespStatus err = (case err of ValidationError _ \<Rightarrow> StatusBadRequest | MethodDisabledError _ \<Rightarrow> StatusForbidden
     | _ \<Rightarrow> StatusInternalServerError)"

definition render_JSON :: "json \<Rightarrow> http_response" where
  "render_JSON j = \<lparr>hp_Status = StatusOK, hp_Body = j\<rparr>"

section \<open>Decoding a user\<close>

text \<open>
  \<open>render.DecodeJSON\<close> decodes into a user that may already have values: a member that is
  absent keeps the value, \<open>null\<close> keeps a number or a string and empties a list.
\<close>

definition int_field :: "int \<Rightarrow> (string \<times> json) list \<Rightarrow> string \<Rightarrow> int option" where
  "int_field old ms k = (case map_of ms k of None \<Rightarrow> Some old | Some JNull \<Rightarrow> Some old | _ \<Rightarrow> get_int ms k)"

definition str_field :: "string \<Rightarrow> (string \<times> json) list \<Rightarrow> string \<Rightarrow> string option" where
  "str_field old ms k = (case map_of ms k of None \<Rightarrow> Some old | Some JNull \<Rightarrow> Some old | _ \<Rightarrow> get_str ms k)"

definition strs_field :: "string list \<Rightarrow> (string \<times> json) list \<Rightarrow> string \<Rightarrow> string list option" where
  "strs_field old ms k = (case map_of ms k of None \<Rightarrow> Some old | _ \<Rightarrow> get_strs ms k)"

definition json_into :: "User \<Rightarrow> json \<Rightarrow> User option" where
  "json_into u j = do {
     ms \<leftarrow> members j;
     i \<leftarrow> int_field (u_ID u) ms ''id''; username \<leftarrow> str_field (u_Username u) ms ''username'';
     password \<leftarrow> str_field (u_Password u) ms ''password''; keys \<leftarrow> strs_field (u_PublicKeys u) ms ''public_keys'';
     home \<leftarrow> str_field (u_HomeDir u) ms ''home_dir''; uid \<leftarrow> int_field (u_UID u) ms ''uid''; gid \<leftarrow> int_field (u_GID u) ms ''gid'';
     sessions \<leftarrow> int_field (u_MaxSessions u) ms ''max_sessions''; qsize \<leftarrow> int_field (u_QuotaSize u) ms ''quota_size'';
     qfiles \<leftarrow> int_field (u_QuotaFiles u) ms ''quota_files''; perms \<leftarrow> strs_field (u_Permissions u) ms ''permissions'';
     usize \<leftarrow> int_field (u_UsedQuotaSize u) ms ''used_quota_size''; ufiles \<leftarrow> int_field (u_UsedQuotaFiles u) ms ''used_quota_files'';
     upd \<leftarrow> int_field (u_LastQuotaUpdate u) ms ''last_quota_update''; up \<leftarrow> int_field (u_UploadBandwidth u) ms ''upload_bandwidth'';
     down \<leftarrow> int_field (u_DownloadBandwidth u) ms ''download_bandwidth'';
     Some \<lparr>u_ID = i, u_Username = username, u_Password = password, u_PublicKeys = keys, u_HomeDir = home,
       u_UID = uid, u_GID = gid, u_MaxSessions = sessions, u_QuotaSize = qsize, u_QuotaFiles = qfiles,
       u_Permissions = perms, u_UsedQuotaSize = usize, u_UsedQuotaFiles = ufiles, u_LastQuotaUpdate = upd,
       u_UploadBandwidth = up, u_DownloadBandwidth = down\<rparr>}"

definition DecodeJSON :: "User \<Rightarrow> goerr + json \<Rightarrow> goerr + User" where
  "DecodeJSON u body = (case body of Inl e \<Rightarrow> Inl e
     | Inr j \<Rightarrow> (case json_into u j of None \<Rightarrow> Inl (ErrorString ''json: cannot unmarshal'') | Some u \<Rightarrow> Inr u))"

definition ParseInt :: "string \<Rightarrow> int option" where
  "ParseInt s = (let (neg, r) = take_sign s in if list_all is_digit r then signed_value neg r else None)"

section \<open>Users\<close>

definition query_int :: "http_request \<Rightarrow> string \<Rightarrow> int \<Rightarrow> int option" where
  "query_int r k d = (case map_of (hr_Query r) k of None \<Rightarrow> Some d | Some s \<Rightarrow> (case Atoi s of Inl _ \<Rightarrow> None | Inr i \<Rightarrow> Some i))"

definition getUsers :: "'p settings \<Rightarrow> http_request \<Rightarrow> 'p serv \<Rightarrow> http_response" where
  "getUsers se r w =
     (case query_int r ''limit'' 100 of
        None \<Rightarrow> sendAPIResponse (Some (ErrorString ''Invalid limit'')) [] StatusBadRequest
      | Some limit \<Rightarrow>
          (let limit = (if limit > 500 then 500 else limit)
           in case query_int r ''offset'' 0 of
                None \<Rightarrow> sendAPIResponse (Some (ErrorString ''Invalid offset'')) [] StatusBadRequest
              | Some offset \<Rightarrow>
                  (let order = (case map_of (hr_Query r) ''order'' of None \<Rightarrow> ''ASC'' | Some s \<Rightarrow> s)
                   in if order \<noteq> ''ASC'' \<and> order \<noteq> ''DESC''
                      then sendAPIResponse (Some (ErrorString ''Invalid order'')) [] StatusBadRequest
                      else (let username = (case map_of (hr_Query r) ''username'' of None \<Rightarrow> [] | Some s \<Rightarrow> s)
                            in case GetUsers (se_provider se) limit offset order username (sv_db w) of
                                 (users, None) \<Rightarrow> render_JSON (JArr (map user_json users))
                               | (_, Some e) \<Rightarrow> sendAPIResponse (Some e) [] StatusInternalServerError))))"

definition getUserByID :: "'p settings \<Rightarrow> string \<Rightarrow> 'p serv \<Rightarrow> http_response" where
  "getUserByID se userID w =
     (case ParseInt userID of
        None \<Rightarrow> sendAPIResponse (Some (ErrorString ''Invalid userID'')) [] StatusBadRequest
      | Some i \<Rightarrow>
          (case GetUserByID (se_provider se) i (sv_db w) of
             (user, None) \<Rightarrow> render_JSON (user_json (user\<lparr>u_Password := [], u_PublicKeys := []\<rparr>))
           | (_, Some (RecordNotFoundError s)) \<Rightarrow> sendAPIResponse (Some (RecordNotFoundError s)) [] StatusNotFound
           | (_, Some e) \<Rightarrow> sendAPIResponse (Some e) [] StatusInternalServerError))"

definition addUser :: "'p settings \<Rightarrow> http_request \<Rightarrow> 'p serv \<Rightarrow> http_response \<times> 'p serv" where
  "addUser se r w =
     (case DecodeJSON zeroUser (hr_Body r) of
        Inl e \<Rightarrow> (sendAPIResponse (Some e) [] StatusBadRequest, w)
      | Inr user \<Rightarrow>
          (case AddUser (se_config se) (se_provider se) user (sv_now w) (sv_db w) of
             (Some e, db) \<Rightarrow> (sendAPIResponse (Some e) [] (getRespStatus e), w\<lparr>sv_db := db\<rparr>)
           | (None, db) \<Rightarrow>
               (case UserExists (se_provider se) (u_Username user) db of
                  (user, None) \<Rightarrow> (render_JSON (user_json (user\<lparr>u_Password := [], u_PublicKeys := []\<rparr>)), w\<lparr>sv_db := db\<rparr>)
                | (_, Some e) \<Rightarrow> (sendAPIResponse (Some e) [] StatusInternalServerError, w\<lparr>sv_db := db\<rparr>))))"

text \<open>The start of \<open>updateUser\<close> and \<open>deleteUser\<close>: the account of the identifier in the path, or the answer.\<close>

definition with_user :: "'p settings \<Rightarrow> string \<Rightarrow> (int \<Rightarrow> User \<Rightarrow> http_response \<times> 'p serv) \<Rightarrow> 'p serv \<Rightarrow> http_response \<times> 'p serv" where
  "with_user se userID k w =
     (case ParseInt userID of
        None \<Rightarrow> (sendAPIResponse (Some (ErrorString ''Invalid userID'')) [] StatusBadRequest, w)
      | Some i \<Rightarrow>
          (case GetUserByID (se_provider se) i (sv_db w) of
             (user, None) \<Rightarrow> k i user
           | (_, Some (RecordNotFoundError s)) \<Rightarrow> (sendAPIResponse (Some (RecordNotFoundError s)) [] StatusNotFound, w)
           | (_, Some e) \<Rightarrow> (sendAPIResponse (Some e) [] StatusInternalServerError, w)))"

definition updateUser :: "'p settings \<Rightarrow> string \<Rightarrow> http_request \<Rightarrow> 'p serv \<Rightarrow> http_response \<times> 'p serv" where
  "updateUser se userID r w = with_user se userID (\<lambda>i user.
     case DecodeJSON user (hr_Body r) of
       Inl e \<Rightarrow> (sendAPIResponse (Some e) [] StatusBadRequest, w)
     | Inr user \<Rightarrow>
         if u_ID user \<noteq> i
         then (sendAPIResponse None ''user ID in request body does not match user ID in path parameter'' StatusBadRequest, w)
         else case UpdateUser (se_config se) (se_provider se) user (sv_db w) of
                (Some e, db) \<Rightarrow> (sendAPIResponse (Some e) [] (getRespStatus e), w\<lparr>sv_db := db\<rparr>)
              | (None, db) \<Rightarrow> (sendAPIResponse None ''User updated'' StatusOK, w\<lparr>sv_db := db\<rparr>)) w"

definition deleteUser :: "'p settings \<Rightarrow> string \<Rightarrow> 'p serv \<Rightarrow> http_response \<times> 'p serv" where
  "deleteUser se userID w = with_user se userID (\<lambda>i user.
     case DeleteUser (se_config se) (se_provider se) user (sv_db w) of
       (Some e, db) \<Rightarrow> (sendAPIResponse (Some e) [] StatusInternalServerError, w\<lparr>sv_db := db\<rparr>)
     | (None, db) \<Rightarrow> (sendAPIResponse None ''User deleted'' StatusOK, w\<lparr>sv_db := db\<rparr>)) w"

section \<open>Quota scans and connections\<close>

definition scan_json :: "ActiveQuotaScan \<Rightarrow> json" where
  "scan_json s = JObj [(''username'', JStr (qs_Username s)), (''start_time'', JInt (qs_StartTime s))]"

definition transfer_json :: "connectionTransfer \<Rightarrow> json" where
  "transfer_json t = JObj [(''operation_type'', JStr (ct_OperationType t)), (''start_time'', JInt (ct_StartTime t)), (''size'', JInt (ct_Size t)),
     (''last_activity'', JInt (ct_LastActivity t)), (''path'', JStr (ct_Path t))]"

definition connection_json :: "ConnectionStatus \<Rightarrow> json" where
  "connection_json c = JObj [(''username'', JStr (cs_Username c)), (''connection_id'', JStr (cs_ConnectionID c)),
     (''client_version'', JStr (cs_ClientVersion c)), (''remote_address'', JStr (cs_RemoteAddress c)),
     (''connection_time'', JInt (cs_ConnectionTime c)), (''last_activity'', JInt (cs_LastActivity c)), (''protocol'', JStr (cs_Protocol c)),
     (''active_transfers'', JArr (map transfer_json (cs_Transfers c)))]"

definition getQuotaScans :: "'p serv \<Rightarrow> http_response" where
  "getQuotaScans w = render_JSON (JArr (map scan_json (GetQuotaScans w)))"

text \<open>
  \<open>startQuotaScan\<close> answers and starts a goroutine; \<open>run_quota_scan\<close> is its body.
\<close>

definition startQuotaScan :: "'p settings \<Rightarrow> http_request \<Rightarrow> 'p serv \<Rightarrow> http_response \<times> User option \<times> 'p serv" where
  "startQuotaScan se r w =
     (case DecodeJSON zeroUser (hr_Body r) of
        Inl e \<Rightarrow> (sendAPIResponse (Some e) [] StatusBadRequest, None, w)
      | Inr u \<Rightarrow>
          (case UserExists (se_provider se) (u_Username u) (sv_db w) of
             (_, Some e) \<Rightarrow> (sendAPIResponse (Some e) [] StatusNotFound, None, w)
           | (user, None) \<Rightarrow>
               (case AddQuotaScan (u_Username user) w of
                  (True, w) \<Rightarrow> (sendAPIResponse None ''Scan started'' StatusCreated, Some user, w)
                | (False, w) \<Rightarrow> (sendAPIResponse None ''Another scan is already in progress'' StatusConflict, None, w))))"

definition run_quota_scan :: "'p settings \<Rightarrow> User \<Rightarrow> 'p serv \<Rightarrow> 'p serv" where
  "run_quota_scan se user w =
     (let w = (case ScanDirContents (se_env se) (sv_fs w) (u_HomeDir user) of
                 (_, _, _, Some _) \<Rightarrow> w
               | (numFiles, bytes, _, None) \<Rightarrow>
                   w\<lparr>sv_db := snd (UpdateUserQuota (se_config se) (se_provider se) user numFiles bytes True (sv_now w) (sv_db w))\<rparr>)
      in snd (RemoveQuotaScan (u_Username user) w))"

definition handleCloseConnection :: "string \<Rightarrow> 'p serv \<Rightarrow> http_response \<times> 'p serv" where
  "handleCloseConnection connectionID w =
     (if connectionID = [] then (sendAPIResponse None ''connectionID is mandatory'' StatusBadRequest, w)
      else case CloseActiveConnection connectionID w of
             (True, w) \<Rightarrow> (sendAPIResponse None ''Connection closed'' StatusOK, w)
           | (False, w) \<Rightarrow> (sendAPIResponse None ''Not Found'' StatusNotFound, w))"

section \<open>Routes\<close>

record VersionInfo =
  vi_Version :: string
  vi_BuildDate :: string
  vi_CommitHash :: string

definition version_json :: "VersionInfo \<Rightarrow> json" where
  "version_json v = JObj [(''version'', JStr (vi_Version v)), (''build_date'', JStr (vi_BuildDate v)), (''commit_hash'', JStr (vi_CommitHash v))]"

definition GetVersionAsString :: "VersionInfo \<Rightarrow> string" where
  "GetVersionAsString v = vi_Version v @ (if vi_CommitHash v \<noteq> [] then ''-'' @ vi_CommitHash v else [])
     @ (if vi_BuildDate v \<noteq> [] then ''-'' @ vi_BuildDate v else [])"

abbreviation userPath :: "string list" where "userPath \<equiv> [''api'', ''v1'', ''user'']"
abbreviation quotaScanPath :: "string list" where "quotaScanPath \<equiv> [''api'', ''v1'', ''quota_scan'']"
abbreviation activeConnectionsPath :: "string list" where "activeConnectionsPath \<equiv> [''api'', ''v1'', ''connection'']"
abbreviation versionPath :: "string list" where "versionPath \<equiv> [''api'', ''v1'', ''version'']"

definition NotFound :: http_response where "NotFound = sendAPIResponse None ''Not Found'' StatusNotFound"
definition MethodNotAllowed :: http_response where "MethodNotAllowed = sendAPIResponse None ''Method not allowed'' StatusMethodNotAllowed"

definition route :: "'p settings \<Rightarrow> VersionInfo \<Rightarrow> http_request \<Rightarrow> 'p serv \<Rightarrow> http_response \<times> 'p serv" where
  "route se v r w =
     (let m = hr_Method r; p = hr_Path r
      in if p = versionPath then (if m = ''GET'' then render_JSON (version_json v) else MethodNotAllowed, w)
         else if p = activeConnectionsPath
         then (if m = ''GET'' then render_JSON (JArr (map connection_json (GetConnectionsStats w))) else MethodNotAllowed, w)
         else if p = quotaScanPath
         then (if m = ''GET'' then (getQuotaScans w, w)
               else if m = ''POST'' then (case startQuotaScan se r w of (resp, _, w) \<Rightarrow> (resp, w)) else (MethodNotAllowed, w))
         else if p = userPath
         then (if m = ''GET'' then (getUsers se r w, w) else if m = ''POST'' then addUser se r w else (MethodNotAllowed, w))
         else if length p = 4 \<and> butlast p = activeConnectionsPath \<and> last p \<noteq> []
         then (if m = ''DELETE'' then handleCloseConnection (last p) w else (MethodNotAllowed, w))
         else if length p = 4 \<and> butlast p = userPath \<and> last p \<noteq> []
         then (if m = ''GET'' then (getUserByID se (last p) w, w) else if m = ''PUT'' then updateUser se (last p) r w
               else if m = ''DELETE'' then deleteUser se (last p) w else (MethodNotAllowed, w))
         else (NotFound, w))"

section \<open>The client functions\<close>

text \<open>
  The functions of \<^verbatim>\<open>api/api_utils.go\<close> return the user, the body if they read it, and an error.
  \<open>http\<close> sends a request and brings the response, or fails.
\<close>

definition checkResponse :: "nat \<Rightarrow> nat \<Rightarrow> goerr option" where
  "checkResponse actual expected =
     (if expected \<noteq> actual then Some (ErrorString (''wrong status code: got '' @ itoa actual @ '' want '' @ itoa expected)) else None)"

definition compareEqualsUserFields :: "User \<Rightarrow> User \<Rightarrow> goerr option" where
  "compareEqualsUserFields expected actual =
     (if u_Username expected \<noteq> u_Username actual then Some (ErrorString ''Username mismatch'')
      else if u_HomeDir expected \<noteq> u_HomeDir actual then Some (ErrorString ''HomeDir mismatch'')
      else if u_UID expected \<noteq> u_UID actual then Some (ErrorString ''UID mismatch'')
      else if u_GID expected \<noteq> u_GID actual then Some (ErrorString ''GID mismatch'')
      else if u_MaxSessions expected \<noteq> u_MaxSessions actual then Some (ErrorString ''MaxSessions mismatch'')
      else if u_QuotaSize expected \<noteq> u_QuotaSize actual then Some (ErrorString ''QuotaSize mismatch'')
      else if u_QuotaFiles expected \<noteq> u_QuotaFiles actual then Some (ErrorString ''QuotaFiles mismatch'')
      else if length (u_Permissions expected) \<noteq> length (u_Permissions actual) then Some (ErrorString ''Permissions mismatch'')
      else if u_UploadBandwidth expected \<noteq> u_UploadBandwidth actual then Some (ErrorString ''UploadBandwidth mismatch'')
      else if u_DownloadBandwidth expected \<noteq> u_DownloadBandwidth actual then Some (ErrorString ''DownloadBandwidth mismatch'')
      else None)"

definition checkUser :: "User \<Rightarrow> User \<Rightarrow> goerr option" where
  "checkUser expected actual =
     (if length (u_Password actual) > 0 then Some (ErrorString ''User password must not be visible'')
      else if length (u_PublicKeys actual) > 0 then Some (ErrorString ''User public keys must not be visible'')
      else if u_ID expected \<le> 0 \<and> u_ID actual \<le> 0 then Some (ErrorString ''actual user ID must be > 0'')
      else if u_ID expected > 0 \<and> u_ID actual \<noteq> u_ID expected then Some (ErrorString ''user ID mismatch'')
      else if list_ex (\<lambda>v. \<not> IsStringInSlice v (u_Permissions actual)) (u_Permissions expected)
      then Some (ErrorString ''Permissions contents mismatch'')
      else compareEqualsUserFields expected actual)"

type_synonym 's transport = "http_request \<Rightarrow> 's \<Rightarrow> (goerr + http_response) \<times> 's"

definition decoded_user :: "json \<Rightarrow> User \<times> goerr option" where
  "decoded_user j = (case DecodeJSON zeroUser (Inr j) of Inr u \<Rightarrow> (u, None) | Inl e \<Rightarrow> (zeroUser, Some e))"

definition api_AddUser :: "'s transport \<Rightarrow> User \<Rightarrow> nat \<Rightarrow> 's \<Rightarrow> (User \<times> json option \<times> goerr option) \<times> 's" where
  "api_AddUser http user expectedStatusCode s =
     (case http \<lparr>hr_Method = ''POST'', hr_Path = userPath, hr_Query = [], hr_Body = Inr (user_json user)\<rparr> s of
        (Inl e, s) \<Rightarrow> ((zeroUser, None, Some e), s)
      | (Inr resp, s) \<Rightarrow>
          (let err = checkResponse (hp_Status resp) expectedStatusCode
           in if expectedStatusCode \<noteq> StatusOK then ((zeroUser, Some (hp_Body resp), err), s)
              else case err of
                     Some e \<Rightarrow> ((zeroUser, Some (hp_Body resp), Some e), s)
                   | None \<Rightarrow> (case decoded_user (hp_Body resp) of
                               (u, Some e) \<Rightarrow> ((u, None, Some e), s)
                             | (u, None) \<Rightarrow> ((u, None, checkUser user u), s))))"

definition api_GetUserByID :: "'s transport \<Rightarrow> int \<Rightarrow> nat \<Rightarrow> 's \<Rightarrow> (User \<times> json option \<times> goerr option) \<times> 's" where
  "api_GetUserByID http userID expectedStatusCode s =
     (case http \<lparr>hr_Method = ''GET'', hr_Path = userPath @ [itoa_int userID], hr_Query = [], hr_Body = Inl IoEOF\<rparr> s of
        (Inl e, s) \<Rightarrow> ((zeroUser, None, Some e), s)
      | (Inr resp, s) \<Rightarrow>
          (let err = checkResponse (hp_Status resp) expectedStatusCode
           in if err = None \<and> expectedStatusCode = StatusOK
              then (case decoded_user (hp_Body resp) of (u, e) \<Rightarrow> ((u, None, e), s))
              else ((zeroUser, Some (hp_Body resp), err), s)))"

definition api_UpdateUser :: "'s transport \<Rightarrow> User \<Rightarrow> nat \<Rightarrow> 's \<Rightarrow> (User \<times> json option \<times> goerr option) \<times> 's" where
  "api_UpdateUser http user expectedStatusCode s =
     (case http \<lparr>hr_Method = ''PUT'', hr_Path = userPath @ [itoa_int (u_ID user)], hr_Query = [], hr_Body = Inr (user_json user)\<rparr> s of
        (Inl e, s) \<Rightarrow> ((user, None, Some e), s)
      | (Inr resp, s) \<Rightarrow>
          (let err = checkResponse (hp_Status resp) expectedStatusCode
           in if expectedStatusCode \<noteq> StatusOK then ((zeroUser, Some (hp_Body resp), err), s)
              else case err of
                     Some e \<Rightarrow> ((zeroUser, Some (hp_Body resp), Some e), s)
                   | None \<Rightarrow> (case api_GetUserByID http (u_ID user) expectedStatusCode s of
                               ((u, body, Some e), s) \<Rightarrow> ((u, body, Some e), s)
                             | ((u, body, None), s) \<Rightarrow> ((u, body, checkUser user u), s))))"

definition api_RemoveUser :: "'s transport \<Rightarrow> User \<Rightarrow> nat \<Rightarrow> 's \<Rightarrow> (json option \<times> goerr option) \<times> 's" where
  "api_RemoveUser http user expectedStatusCode s =
     (case http \<lparr>hr_Method = ''DELETE'', hr_Path = userPath @ [itoa_int (u_ID user)], hr_Query = [], hr_Body = Inl IoEOF\<rparr> s of
        (Inl e, s) \<Rightarrow> ((None, Some e), s)
      | (Inr resp, s) \<Rightarrow> ((Some (hp_Body resp), checkResponse (hp_Status resp) expectedStatusCode), s))"

definition users_of :: "json \<Rightarrow> goerr + User list" where
  "users_of j = (case j of JArr l \<Rightarrow> (if list_all (\<lambda>j. json_user j \<noteq> None) l then Inr (map (the \<circ> json_user) l) else Inl (ErrorString ''json: cannot unmarshal''))
     | JNull \<Rightarrow> Inr [] | _ \<Rightarrow> Inl (ErrorString ''json: cannot unmarshal''))"

definition api_GetUsers :: "'s transport \<Rightarrow> int \<Rightarrow> int \<Rightarrow> string \<Rightarrow> nat \<Rightarrow> 's \<Rightarrow> (User list \<times> json option \<times> goerr option) \<times> 's" where
  "api_GetUsers http limit offset username expectedStatusCode s =
     (let q = (if limit > 0 then [(''limit'', itoa_int limit)] else []) @ (if offset > 0 then [(''offset'', itoa_int offset)] else [])
              @ (if username \<noteq> [] then [(''username'', username)] else [])
      in case http \<lparr>hr_Method = ''GET'', hr_Path = userPath, hr_Query = q, hr_Body = Inl IoEOF\<rparr> s of
           (Inl e, s) \<Rightarrow> (([], None, Some e), s)
         | (Inr resp, s) \<Rightarrow>
             (let err = checkResponse (hp_Status resp) expectedStatusCode
              in if err = None \<and> expectedStatusCode = StatusOK
                 then (case users_of (hp_Body resp) of Inl e \<Rightarrow> (([], None, Some e), s) | Inr us \<Rightarrow> ((us, None, None), s))
                 else (([], Some (hp_Body resp), err), s)))"

definition api_StartQuotaScan :: "'s transport \<Rightarrow> User \<Rightarrow> nat \<Rightarrow> 's \<Rightarrow> (json option \<times> goerr option) \<times> 's" where
  "api_StartQuotaScan http user expectedStatusCode s =
     (case http \<lparr>hr_Method = ''POST'', hr_Path = quotaScanPath, hr_Query = [], hr_Body = Inr (user_json user)\<rparr> s of
        (Inl e, s) \<Rightarrow> ((None, Some e), s)
      | (Inr resp, s) \<Rightarrow> ((Some (hp_Body resp), checkResponse (hp_Status resp) expectedStatusCode), s))"

definition api_CloseConnection :: "'s transport \<Rightarrow> string \<Rightarrow> nat \<Rightarrow> 's \<Rightarrow> (json option \<times> goerr option) \<times> 's" where
  "api_CloseConnection http connectionID expectedStatusCode s =
     (case http \<lparr>hr_Method = ''DELETE'', hr_Path = activeConnectionsPath @ [connectionID], hr_Query = [], hr_Body = Inl IoEOF\<rparr> s of
        (Inl e, s) \<Rightarrow> ((None, Some e), s)
      | (Inr resp, s) \<Rightarrow> ((Some (hp_Body resp), checkResponse (hp_Status resp) expectedStatusCode), s))"

section \<open>Decoding\<close>

lemma BoltProvider_fields [simp]:
  "p_addUser (BoltProvider cr b) = bolt_addUser cr b" "p_updateUser (BoltProvider cr b) = bolt_updateUser cr b"
  "p_deleteUser (BoltProvider cr b) = bolt_deleteUser b" "p_getUsers (BoltProvider cr b) = bolt_getUsers b"
  "p_userExists (BoltProvider cr b) = bolt_userExists b" "p_getUserByID (BoltProvider cr b) = bolt_getUserByID b"
  by (simp_all add: BoltProvider_def)

lemma fields_zero:
  "int_field 0 ms k = get_int ms k" "str_field [] ms k = get_str ms k" "strs_field [] ms k = get_strs ms k"
  by (simp_all add: int_field_def str_field_def strs_field_def get_int_def get_str_def get_strs_def split: option.split json.split)

lemma json_into_zero: "json_into zeroUser j = json_user j"
  by (simp add: json_into_def json_user_def fields_zero zeroUser_def)

lemma decode_user: "user_ok u \<Longrightarrow> DecodeJSON zeroUser (Inr (user_json u)) = Inr u"
  by (simp add: DecodeJSON_def json_into_zero json_user_json)

lemma int_field_ok: "in_int64 old \<Longrightarrow> int_field old ms k = Some i \<Longrightarrow> in_int64 i"
  by (auto simp: int_field_def get_int_def split: option.splits json.splits if_splits)

lemma json_into_ok:
  assumes "user_ok u" and "json_into u j = Some v"
  shows "user_ok v"
proof -
  have "in_int64 (u_ID u)" "in_int64 (u_UID u)" "in_int64 (u_GID u)" "in_int64 (u_MaxSessions u)" "in_int64 (u_QuotaSize u)" "in_int64 (u_QuotaFiles u)"
    "in_int64 (u_UsedQuotaSize u)" "in_int64 (u_UsedQuotaFiles u)" "in_int64 (u_LastQuotaUpdate u)" "in_int64 (u_UploadBandwidth u)"
    "in_int64 (u_DownloadBandwidth u)" using assms(1) by (simp_all add: user_ok_def)
  note f = this [THEN int_field_ok]
  show ?thesis using assms(2) unfolding json_into_def by (auto simp: user_ok_def Option.bind_eq_Some_conv dest!: f)
qed

lemma DecodeJSON_ok: "user_ok u \<Longrightarrow> DecodeJSON u body = Inr v \<Longrightarrow> user_ok v"
  by (auto simp: DecodeJSON_def dest: json_into_ok split: sum.splits option.splits)

lemma zeroUser_ok [simp]: "user_ok zeroUser"
  by (simp add: user_ok_def zeroUser_def in_int64_def)

section \<open>Responses\<close>

text \<open>No member of the value, at any depth, is named like a credential.\<close>

fun hides :: "json \<Rightarrow> bool" where
  "hides (JObj ms) \<longleftrightarrow> (\<forall>m \<in> set ms. fst m \<noteq> ''password'' \<and> fst m \<noteq> ''public_keys'' \<and> hides (snd m))"
| "hides (JArr l) \<longleftrightarrow> (\<forall>j \<in> set l. hides j)"
| "hides _ \<longleftrightarrow> True"

lemma hides_simple [simp]:
  "hides (hp_Body (sendAPIResponse e m k))" "hides (scan_json q)" "hides (version_json v)" "hides (connection_json c)"
  by (simp_all add: sendAPIResponse_def apiResponse_json_def scan_json_def version_json_def connection_json_def transfer_json_def)

lemma hides_user [simp]: "hides (user_json (u\<lparr>u_Password := [], u_PublicKeys := []\<rparr>))"
  by (simp add: user_json_def)

lemma render_body [simp]: "hp_Body (render_JSON j) = j" "hp_Status (render_JSON j) = StatusOK"
  by (simp_all add: render_JSON_def)

lemma collect_hides:
  assumes "\<forall>u \<in> set users. hides (user_json u)"
  shows "\<forall>u \<in> set (fst (collect_users limit offset n vs users err)). hides (user_json u)"
  using assms
proof (induction limit offset n vs users err rule: collect_users.induct)
  case (2 limit offset n v vs users err)
  let ?next = "case json_Unmarshal v of Inl e \<Rightarrow> (users, Some e) | Inr u \<Rightarrow> (users @ [getUserNoCredentials u], None)"
  have "\<forall>u \<in> set (fst ?next). hides (user_json u)" using "2.prems" by (auto simp: getUserNoCredentials_def split: sum.split)
  then show ?case using 2 by (auto simp: Let_def split: prod.split sum.split if_splits)
qed simp

lemma getUsers_hides: "\<forall>u \<in> set (fst (bolt_getUsers b limit offset order username d)). hides (user_json u)"
proof -
  have "hides (user_json (getUserNoCredentials u))" for u by (simp add: getUserNoCredentials_def)
  then show ?thesis using collect_hides [of "[]"] by (auto simp: bolt_getUsers_def Let_def split: option.split prod.split)
qed

lemma with_user_cases:
  assumes "P (sendAPIResponse e m c, w)" and "\<And>i u. P (k i u)" and "\<And>e m c. P (sendAPIResponse e m c, w)"
  shows "P (with_user se userID k w)"
  using assms by (auto simp: with_user_def split: option.split prod.split goerr.split)

lemma route_hides:
  assumes "se_provider se = BoltProvider cr b"
  shows "hides (hp_Body (fst (route se v r w)))"
proof -
  have P: "p_getUsers (se_provider se) = bolt_getUsers b" by (simp add: assms)
  have users: "hides (hp_Body (getUsers se r w))"
    using getUsers_hides [of b] by (auto simp: getUsers_def GetUsers_def P Let_def split: option.split prod.split)
      (metis fst_conv)+
  have byid: "hides (hp_Body (getUserByID se i w))" for i
    by (auto simp: getUserByID_def split: option.split prod.split goerr.split)
  have add: "hides (hp_Body (fst (addUser se r w)))" by (auto simp: addUser_def split: sum.split option.split prod.split)
  have upd: "hides (hp_Body (fst (updateUser se i r w)))" for i
    unfolding updateUser_def by (rule with_user_cases) (auto split: sum.split option.split prod.split)
  have del: "hides (hp_Body (fst (deleteUser se i w)))" for i
    unfolding deleteUser_def by (rule with_user_cases) (auto split: option.split prod.split)
  have scan: "hides (hp_Body (fst (startQuotaScan se r w)))"
    by (auto simp: startQuotaScan_def split: sum.split option.split prod.split bool.split)
  have close: "hides (hp_Body (fst (handleCloseConnection i w)))" for i
    by (auto simp: handleCloseConnection_def split: prod.split bool.split)
  show ?thesis using users byid add upd del scan close
    by (auto simp: route_def Let_def NotFound_def MethodNotAllowed_def getQuotaScans_def case_prod_unfold)
qed

section \<open>Failed requests\<close>

lemma status_sent [simp]: "hp_Status (sendAPIResponse e m k) = k"
  by (simp add: sendAPIResponse_def)

lemma closed_false: "closeActive_loop i cs w = (False, w') \<Longrightarrow> w' = w"
  by (induction i cs w rule: closeActive_loop.induct) (auto split: if_splits)

lemma AddUser_bolt:
  "AddUser cf (BoltProvider cr b) user now d =
     (if cf_ManageUsers cf = 0 then (Some (MethodDisabledError manageUsersDisabledError), d)
      else bolt_step cr b (AddAcc (user\<lparr>u_Permissions :=
        (let (perms, custom) = expire_loop (unix_of now) 0 False (u_Permissions user)
         in if \<not> custom \<and> cf_DefaultUserExpire cf > 0
            then perms @ [expire_prefix @ itoa_int (wrap64 (unix_of now + wrap64 (cf_DefaultUserExpire cf * 60)))] else perms)\<rparr>)) d)"
  by (simp add: AddUser_def Let_def case_prod_unfold)

lemma added_exists:
  assumes "bolt_db b" and "bolt_ok b d" and "user_ok user" and "Suc (bo_Sequence b d usersBucket) < 2 ^ 63"
    and "AddUser cf (BoltProvider cr b) user now d = (None, d')"
  shows "\<exists>u. bolt_userExists b (u_Username user) d' = (u, None)"
proof -
  from assms(5) obtain perms where a: "bolt_addUser cr b (user\<lparr>u_Permissions := perms\<rparr>) d = (None, d')"
    by (auto simp: AddUser_bolt split: if_splits)
  have "user_ok (user\<lparr>u_Permissions := perms\<rparr>)" using assms(3) by (simp add: user_ok_def)
  from addUser_refines [OF assms(1,2) this assms(4) a] show ?thesis by (auto simp: userExists_accounts)
qed

lemma failed_step_db:
  assumes "bolt_db b" and "bolt_step cr b opr (sv_db w) = (Some e, db)"
  shows "w\<lparr>sv_db := db\<rparr> = w"
  using bolt_step_failed [OF assms] by simp

lemma AddUser_failed:
  assumes "bolt_db b" and "AddUser cf (BoltProvider cr b) user now (sv_db w) = (Some e, db)"
  shows "w\<lparr>sv_db := db\<rparr> = w"
  using assms(2) failed_step_db [OF assms(1)] by (auto simp: AddUser_bolt simp del: bolt_step.simps split: if_splits)

lemma UpdateUser_failed:
  assumes "bolt_db b" and "UpdateUser cf (BoltProvider cr b) user (sv_db w) = (Some e, db)"
  shows "w\<lparr>sv_db := db\<rparr> = w"
  using assms(2) failed_step_db [OF assms(1), of cr "UpdAcc user"] by (auto simp: UpdateUser_def split: if_splits)

lemma DeleteUser_failed:
  assumes "bolt_db b" and "DeleteUser cf (BoltProvider cr b) user (sv_db w) = (Some e, db)"
  shows "w\<lparr>sv_db := db\<rparr> = w"
  using assms(2) failed_step_db [OF assms(1), of cr "DelAcc user"] by (auto simp: DeleteUser_def split: if_splits)

lemma failed_add:
  assumes "bolt_db b" and "se_provider se = BoltProvider cr b" and "bolt_ok b (sv_db w)" and "Suc (bo_Sequence b (sv_db w) usersBucket) < 2 ^ 63"
    and "addUser se r w = (resp, w')" and "hp_Status resp \<ge> 400"
  shows "w' = w"
proof (cases "DecodeJSON zeroUser (hr_Body r)")
  case (Inl e)
  then show ?thesis using assms(5) by (simp add: addUser_def)
next
  case (Inr user)
  obtain err db where a: "AddUser (se_config se) (BoltProvider cr b) user (sv_now w) (sv_db w) = (err, db)" by fastforce
  show ?thesis
  proof (cases err)
    case None
    from added_exists [OF assms(1,3) DecodeJSON_ok [OF zeroUser_ok Inr] assms(4) a [unfolded None]]
    obtain u where "bolt_userExists b (u_Username user) db = (u, None)" by blast
    then have "hp_Status resp = StatusOK" using assms(2,5) Inr a None by (simp add: addUser_def UserExists_def) auto
    then show ?thesis using assms(6) by (simp add: StatusOK_def)
  next
    case (Some e)
    then show ?thesis using AddUser_failed [OF assms(1) a [unfolded Some]] assms(2,5) Inr a by (simp add: addUser_def)
  qed
qed

lemma with_user_failed:
  assumes "with_user se userID k w = (resp, w')" and "hp_Status resp \<ge> 400"
    and "\<And>i u resp w'. k i u = (resp, w') \<Longrightarrow> hp_Status resp \<ge> 400 \<Longrightarrow> w' = w"
  shows "w' = w"
  using assms by (auto simp: with_user_def split: option.splits prod.splits goerr.splits)

lemma route_failed:
  assumes "bolt_db b" and P: "se_provider se = BoltProvider cr b" and "bolt_ok b (sv_db w)" and "Suc (bo_Sequence b (sv_db w) usersBucket) < 2 ^ 63"
    and "route se v r w = (resp, w')" and "hp_Status resp \<ge> 400"
  shows "w' = w"
proof -
  have upd: "w' = w" if "updateUser se i r w = (resp, w')" for i
    by (rule with_user_failed [OF that [unfolded updateUser_def] assms(6)])
      (auto simp: P StatusOK_def split: sum.splits if_splits option.splits prod.splits dest: UpdateUser_failed [OF assms(1)])
  have del: "w' = w" if "deleteUser se i w = (resp, w')" for i
    by (rule with_user_failed [OF that [unfolded deleteUser_def] assms(6)])
      (auto simp: P StatusOK_def split: option.splits prod.splits dest: DeleteUser_failed [OF assms(1)])
  have scan: "w' = w" if "startQuotaScan se r w = (resp, x, w')" for x
    using that assms(6) by (auto simp: startQuotaScan_def AddQuotaScan_def StatusCreated_def split: sum.splits option.splits prod.splits bool.splits if_splits)
  have close: "w' = w" if "handleCloseConnection i w = (resp, w')" for i
    using that assms(6) by (auto simp: handleCloseConnection_def CloseActiveConnection_def StatusOK_def split: prod.splits bool.splits if_splits dest: closed_false)
  show ?thesis using assms(5) upd del scan close failed_add [OF assms(1-4) _ assms(6)]
    by (auto simp: route_def Let_def split: if_splits prod.splits)
qed

section \<open>The client against the server\<close>

definition served :: "'p settings \<Rightarrow> VersionInfo \<Rightarrow> 'p serv transport" where
  "served se v r w = (case route se v r w of (resp, w) \<Rightarrow> (Inr resp, w))"

lemma no_expire: "list_all (\<lambda>p. length p < 9 \<or> take 8 p \<noteq> expire_prefix) ps \<Longrightarrow> expire_loop unix ex_tm custom ps = (ps, custom)"
  by (induction ps arbitrary: ex_tm custom) auto

lemma validated_fields:
  assumes "validateUser cr user = Inr u"
  shows "u = user\<lparr>u_Password := u_Password u\<rparr>"
  using assms by (auto simp: validateUser_def Let_def split: if_splits sum.splits option.splits)

lemma checkUser_added:
  assumes "u_ID user \<le> 0" and "0 < i"
  shows "checkUser user (user\<lparr>u_ID := i, u_Password := [], u_PublicKeys := []\<rparr>) = None"
  using assms by (auto simp: checkUser_def compareEqualsUserFields_def list_ex_iff IsStringInSlice_iff)

lemma add_over_rest:
  assumes "bolt_db b" and "se_provider se = BoltProvider cr b" and "bolt_ok b (sv_db w)" and "Suc (bo_Sequence b (sv_db w) usersBucket) < 2 ^ 63"
    and "cf_ManageUsers (se_config se) \<noteq> 0" and "cf_DefaultUserExpire (se_config se) \<le> 0"
    and "user_ok user" and "u_ID user \<le> 0" and "list_all (\<lambda>p. length p < 9 \<or> take 8 p \<noteq> expire_prefix) (u_Permissions user)"
    and "bolt_addUser cr b user (sv_db w) = (None, d')"
  shows "api_AddUser (served se v) user StatusOK w =
    ((user\<lparr>u_ID := int (bo_Sequence b (sv_db w) usersBucket) + 1, u_Password := [], u_PublicKeys := []\<rparr>, None, None), w\<lparr>sv_db := d'\<rparr>)"
proof -
  let ?i = "int (bo_Sequence b (sv_db w) usersBucket) + 1"
  let ?new = "user\<lparr>u_ID := ?i, u_Password := [], u_PublicKeys := []\<rparr>"
  from addUser_refines [OF assms(1,3,7,4,10)] obtain u where u: "validateUser cr user = Inr u" "bolt_ok b d'"
    "accounts b d' = (accounts b (sv_db w))(u_Username user \<mapsto> u\<lparr>u_ID := ?i\<rparr>)" by blast
  have shown: "u\<lparr>u_ID := ?i, u_Password := [], u_PublicKeys := []\<rparr> = ?new" by (subst validated_fields [OF u(1)]) simp
  have added: "AddUser (se_config se) (se_provider se) user (sv_now w) (sv_db w) = (None, d')"
    using assms(2,5,6,9,10) by (simp add: AddUser_def no_expire)
  have "addUser se \<lparr>hr_Method = ''POST'', hr_Path = userPath, hr_Query = [], hr_Body = Inr (user_json user)\<rparr> w
      = (render_JSON (user_json ?new), w\<lparr>sv_db := d'\<rparr>)"
    using u(2,3) added shown by (simp add: addUser_def decode_user [OF assms(7)] assms(2) UserExists_def userExists_accounts)
  then have served: "served se v \<lparr>hr_Method = ''POST'', hr_Path = userPath, hr_Query = [], hr_Body = Inr (user_json user)\<rparr> w
      = (Inr (render_JSON (user_json ?new)), w\<lparr>sv_db := d'\<rparr>)" by (simp add: served_def route_def)
  have "user_ok ?new" using assms(4,7) by (simp add: user_ok_def in_int64_def)
  then show ?thesis using checkUser_added [OF assms(8), of ?i]
    by (simp add: api_AddUser_def served checkResponse_def decoded_user_def decode_user)
qed
lemma sample_store: "bolt_ok mem_bolt (sv_db sample_serv)" "bo_Sequence mem_bolt (sv_db sample_serv) usersBucket = 1"
proof -
  show "bolt_ok mem_bolt (sv_db sample_serv)" using alice_added(1) by (simp add: sample_serv_def sample_db_def)
  show "bo_Sequence mem_bolt (sv_db sample_serv) usersBucket = 1" by (simp add: sample_serv_def sample_db_stored) (simp add: mem_bolt_def)
qed

lemma sample_provider: "se_provider sample_settings = BoltProvider plain_crypto mem_bolt"
  "cf_ManageUsers (se_config sample_settings) \<noteq> 0" "cf_DefaultUserExpire (se_config sample_settings) \<le> 0"
  by (simp_all add: sample_settings_def)

abbreviation no_version :: VersionInfo where
  "no_version \<equiv> \<lparr>vi_Version = [], vi_BuildDate = [], vi_CommitHash = []\<rparr>"

section \<open>Claims\<close>



text \<open>
  C15. The REST interface never shows credentials: whatever the request, no object in the answer, at
  any depth, has a member named \<open>password\<close> or \<open>public_keys\<close>.
\<close>

theorem responses_hide_credentials:
  assumes "se_provider se = BoltProvider cr b"
  shows "hides (hp_Body (fst (route se v r w)))"
  by (rule route_hides [OF assms])

theorem responses_hide_credentials_witness:
  "hides (hp_Body (fst (route sample_settings no_version \<lparr>hr_Method = ''GET'', hr_Path = userPath @ [''1''], hr_Query = [], hr_Body = Inl IoEOF\<rparr> sample_serv)))
   \<and> hp_Status (fst (route sample_settings no_version \<lparr>hr_Method = ''GET'', hr_Path = userPath @ [''1''], hr_Query = [], hr_Body = Inl IoEOF\<rparr> sample_serv)) = 200"
proof -
  have "hp_Status (fst (route sample_settings no_version \<lparr>hr_Method = ''GET'', hr_Path = userPath @ [''1''], hr_Query = [], hr_Body = Inl IoEOF\<rparr> sample_serv)) = 200"
    by code_simp
  with responses_hide_credentials [OF sample_provider(1)] show ?thesis by blast
qed

text \<open>
  C17. A request that fails changes nothing. When the status of the answer is 400 or more, the
  server is in the state it was in: no account, quota, scan or connection has changed.
\<close>

theorem failed_request_keeps_state:
  assumes "bolt_db b" and "se_provider se = BoltProvider cr b" and "bolt_ok b (sv_db w)" and "Suc (bo_Sequence b (sv_db w) usersBucket) < 2 ^ 63"
    and "route se v r w = (resp, w')" and "hp_Status resp \<ge> 400"
  shows "w' = w"
  by (rule route_failed [OF assms])

theorem failed_request_keeps_state_witness:
  "snd (route sample_settings no_version \<lparr>hr_Method = ''POST'', hr_Path = userPath, hr_Query = [], hr_Body = Inr (user_json alice)\<rparr> sample_serv) = sample_serv"
proof -
  let ?r = "\<lparr>hr_Method = ''POST'', hr_Path = userPath, hr_Query = [], hr_Body = Inr (user_json alice)\<rparr>"
  have "hp_Status (fst (route sample_settings no_version ?r sample_serv)) = 500" by code_simp
  then show ?thesis using failed_request_keeps_state [OF mem.bolt_db_axioms sample_provider(1) sample_store(1) _ surjective_pairing, of no_version ?r]
      sample_store(2) by simp
qed

end
