(* ===== verification/Serv_Scp.thy ===== *)
theory Serv_Scp
  imports Serv_Login Serv_SessionClaims
begin

text \<open>
  The scp command, \<^verbatim>\<open>serv/scp.go\<close>: uploads and downloads, single files and whole trees, over the
  channel of an ssh session. The channel has the bytes that still arrive, how many of them each
  read delivers, and which writes fail; the state of the command is the channel with the
  state of the server. \<open>None\<close> is a panic. The loops read at least a byte in every turn, so that they end
  with the input; the recursion over directories takes fuel, of which the length of the input is enough.
\<close>

section \<open>The channel\<close>

record scp_chan =
  ch_in :: bytes
  ch_end :: goerr
  ch_size :: "nat \<Rightarrow> nat"
  ch_reads :: nat
  ch_out :: bytes
  ch_fault :: "nat \<Rightarrow> goerr option"
  ch_writes :: nat
  ch_closed :: bool
  ch_exit :: "u32 option"

record 'p scp =
  sc_ch :: scp_chan
  sc_sv :: "'p serv"

definition chan_Read :: "nat \<Rightarrow> 'p scp \<Rightarrow> (goerr + bytes) \<times> 'p scp" where
  "chan_Read n s =
     (let c = sc_ch s; k = min n (max 1 (ch_size c (ch_reads c)))
      in if ch_in c = [] then (Inl (ch_end c), s)
         else (Inr (take k (ch_in c)), s\<lparr>sc_ch := c\<lparr>ch_in := drop k (ch_in c), ch_reads := Suc (ch_reads c)\<rparr>\<rparr>))"

definition chan_Write :: "bytes \<Rightarrow> 'p scp \<Rightarrow> goerr option \<times> 'p scp" where
  "chan_Write b s =
     (let c = sc_ch s
      in if ch_closed c then (Some IoEOF, s)
         else case ch_fault c (ch_writes c) of
                Some e \<Rightarrow> (Some e, s\<lparr>sc_ch := c\<lparr>ch_writes := Suc (ch_writes c)\<rparr>\<rparr>)
              | None \<Rightarrow> (None, s\<lparr>sc_ch := c\<lparr>ch_out := ch_out c @ b, ch_writes := Suc (ch_writes c)\<rparr>\<rparr>))"

definition chan_Close :: "'p scp \<Rightarrow> 'p scp" where
  "chan_Close s = s\<lparr>sc_ch := (sc_ch s)\<lparr>ch_closed := True\<rparr>\<rparr>"

definition on_serv :: "('p serv \<Rightarrow> 'a \<times> 'p serv) \<Rightarrow> 'p scp \<Rightarrow> 'a \<times> 'p scp" where
  "on_serv f s = (case f (sc_sv s) of (x, w) \<Rightarrow> (x, s\<lparr>sc_sv := w\<rparr>))"

lemma Read_shorter: "chan_Read (Suc n) s = (Inr b, s') \<Longrightarrow> length (ch_in (sc_ch s')) < length (ch_in (sc_ch s))"
  by (auto simp: chan_Read_def Let_def split: if_splits)

section \<open>Messages\<close>

definition newLine :: u8 where "newLine = 10"

text \<open>
  \<open>read_line\<close> reads bytes up to a newline or an error, one at a time.
\<close>

function read_line :: "'p scp \<Rightarrow> string \<times> goerr option \<times> 'p scp" where
  "read_line s =
     (case chan_Read 1 s of
        (Inl e, s) \<Rightarrow> ([], Some e, s)
      | (Inr b, s1) \<Rightarrow>
          (if b = [newLine] then ([], None, s1)
           else (case read_line s1 of (msg, err, s2) \<Rightarrow> (string_of b @ msg, err, s2))))"
  by pat_completeness auto
termination by (relation "measure (\<lambda>s. length (ch_in (sc_ch s)))") (auto dest!: Read_shorter [OF sym])

declare read_line.simps [simp del]

definition readConfirmationMessage :: "'p scp \<Rightarrow> goerr option \<times> 'p scp" where
  "readConfirmationMessage s =
     (case chan_Read 1 s of
        (Inl e, s) \<Rightarrow> (Some e, chan_Close s)
      | (Inr b, s) \<Rightarrow>
          (if b = [1] \<or> b = [2]
           then (case read_line s of (msg, _, s) \<Rightarrow> (Some (ErrorString msg), chan_Close s))
           else (None, s)))"

definition readProtocolMessage :: "'p scp \<Rightarrow> string \<times> goerr option \<times> 'p scp" where
  "readProtocolMessage s =
     (case read_line s of (command, err, s) \<Rightarrow> (command, err, if err \<noteq> None then chan_Close s else s))"

definition sendErrorMessage :: "string \<Rightarrow> 'p scp \<Rightarrow> 'p scp" where
  "sendErrorMessage error s = chan_Close (snd (chan_Write [newLine] (snd (chan_Write (bytes_of error) (snd (chan_Write [2] s))))))"

definition sendConfirmationMessage :: "'p scp \<Rightarrow> goerr option \<times> 'p scp" where
  "sendConfirmationMessage s = (case chan_Write [0] s of (err, s) \<Rightarrow> (err, if err \<noteq> None then chan_Close s else s))"

definition sendProtocolMessage :: "string \<Rightarrow> 'p scp \<Rightarrow> goerr option \<times> 'p scp" where
  "sendProtocolMessage message s = (case chan_Write (bytes_of message) s of (err, s) \<Rightarrow> (err, if err \<noteq> None then chan_Close s else s))"

definition sendExitStatus :: "goerr option \<Rightarrow> 'p scp \<Rightarrow> 'p scp" where
  "sendExitStatus err s =
     (let c = sc_ch s; c = (if ch_closed c then c else c\<lparr>ch_exit := Some (if err \<noteq> None then 1 else 0)\<rparr>)
      in chan_Close (s\<lparr>sc_ch := c\<rparr>))"

text \<open>\<open>fail\<close> sends the text of an error and returns it.\<close>

definition fail :: "goerr \<Rightarrow> 'p scp \<Rightarrow> (goerr option \<times> 'p scp) option" where
  "fail e s = Some (Some e, sendErrorMessage (error_text e) s)"

lemma read_line_consumes: "read_line s = (msg, err, s') \<Longrightarrow>
    length (ch_in (sc_ch s')) \<le> length (ch_in (sc_ch s)) \<and> (err = None \<longrightarrow> length (ch_in (sc_ch s')) < length (ch_in (sc_ch s)))"
proof (induction s arbitrary: msg err s' rule: read_line.induct)
  case (1 s)
  show ?case
  proof (cases "chan_Read 1 s")
    case (Pair r s1)
    show ?thesis
    proof (cases r)
      case (Inl e)
      then have "s1 = s" using Pair by (auto simp: chan_Read_def Let_def split: if_splits)
      then show ?thesis using "1.prems" Pair Inl by (auto simp: read_line.simps [of s])
    next
      case (Inr b)
      have less: "length (ch_in (sc_ch s1)) < length (ch_in (sc_ch s))" using Read_shorter [of 0 s b s1] Pair Inr by simp
      show ?thesis
      proof (cases "b = [newLine]")
        case True
        then show ?thesis using "1.prems" Pair Inr less by (auto simp: read_line.simps [of s])
      next
        case False
        obtain m e s2 where r: "read_line s1 = (m, e, s2)" by (rule prod_cases3)
        then have "s' = s2" "err = e" using "1.prems" Pair Inr False by (auto simp: read_line.simps [of s])
        then show ?thesis using "1.IH" [OF Pair [symmetric] Inr False r] less by auto
      qed
    qed
  qed
qed

lemma message_consumes: "readProtocolMessage s = (command, None, s') \<Longrightarrow> length (ch_in (sc_ch s')) < length (ch_in (sc_ch s))"
  by (auto simp: readProtocolMessage_def split: prod.splits dest!: read_line_consumes)

lemma chan_keeps [simp]:
  "ch_in (sc_ch (snd (chan_Write b s))) = ch_in (sc_ch s)" "sc_sv (snd (chan_Write b s)) = sc_sv s"
  "ch_in (sc_ch (chan_Close s)) = ch_in (sc_ch s)" "sc_sv (chan_Close s) = sc_sv s" "sc_sv (snd (chan_Read n s)) = sc_sv s"
  by (auto simp: chan_Write_def chan_Close_def chan_Read_def Let_def split: option.split)

lemma sendConfirmation_keeps [simp]:
  "ch_in (sc_ch (snd (sendConfirmationMessage s))) = ch_in (sc_ch s)" "sc_sv (snd (sendConfirmationMessage s)) = sc_sv s"
  by (simp_all add: sendConfirmationMessage_def case_prod_unfold)

lemma sendProtocol_keeps [simp]:
  "ch_in (sc_ch (snd (sendProtocolMessage m s))) = ch_in (sc_ch s)" "sc_sv (snd (sendProtocolMessage m s)) = sc_sv s"
  by (simp_all add: sendProtocolMessage_def case_prod_unfold)

lemma sendError_keeps [simp]:
  "ch_in (sc_ch (sendErrorMessage m s)) = ch_in (sc_ch s)" "sc_sv (sendErrorMessage m s) = sc_sv s"
  by (simp_all add: sendErrorMessage_def)

section \<open>Arguments\<close>

text \<open>
  The last argument is the path; a quote at its front is dropped with the last character.
\<close>

definition getDestPath :: "string list \<Rightarrow> string option" where
  "getDestPath args =
     (if args = [] \<or> last args = [] then None
      else let d = last args
        in if hd d = CHR 0x27 \<or> hd d = CHR 0x22
           then (if length d < 2 then None
                 else let d = butlast (tl d) in Some (if path_IsAbs d then d else slash # d))
           else Some (if path_IsAbs d then d else slash # d))"

definition getCommandType :: "string list \<Rightarrow> string option" where
  "getCommandType args = (if length args < 2 then None else Some (args ! (length args - 2)))"

definition sendFileTime :: "string list \<Rightarrow> bool" where
  "sendFileTime args = IsStringInSlice ''-p'' args"

definition isRecursive :: "string list \<Rightarrow> bool" where
  "isRecursive args = IsStringInSlice ''-r'' args"

text \<open>The error of \<open>strconv.ParseInt\<close>; the quoted text is taken to need no escapes.\<close>

definition NumError :: "string \<Rightarrow> bool \<Rightarrow> goerr" where
  "NumError num digits =
     ErrorString (''strconv.ParseInt: parsing '' @ [CHR 0x22] @ num @ [CHR 0x22] @ '': ''
                  @ (if digits then ''value out of range'' else ''invalid syntax''))"

definition parseUploadMessage :: "string list \<Rightarrow> Connection \<Rightarrow> string \<Rightarrow> 'p scp \<Rightarrow> (goerr + int \<times> string) \<times> 'p scp" where
  "parseUploadMessage args c command s =
     (let fail = (\<lambda>e. (Inl e, sendErrorMessage (error_text e) s))
      in if \<not> prefix ''C'' command \<and> \<not> prefix ''D'' command
         then fail (ErrorString (''unknown or invalid upload message: '' @ command @ '' args: ['' @ join_with (CHR '' '') args @ ''] user: ''
                                @ u_Username (c_User c)))
         else (let parts = split_on (CHR '' '') command
               in if length parts = 3
                  then (let (neg, ds) = take_sign (parts ! 1)
                        in case (if list_all is_digit ds then signed_value neg ds else None) of
                             None \<Rightarrow> (let e = NumError (parts ! 1) (ds \<noteq> [] \<and> list_all is_digit ds)
                                      in (Inl e, sendErrorMessage (''Error getting size: '' @ error_text e) s))
                           | Some sizeToRead \<Rightarrow>
                               (if parts ! 2 = [] then fail (ErrorString ''error getting name from upload message, cannot be empty'')
                                else (Inr (sizeToRead, parts ! 2), s)))
                  else fail (ErrorString (''Error splitting upload message: '' @ command))))"

definition getFileUploadDestPath :: "'p settings \<Rightarrow> string list \<Rightarrow> Connection \<Rightarrow> string \<Rightarrow> string \<Rightarrow> 'p serv \<Rightarrow> string" where
  "getFileUploadDestPath se args c scpDestPath fileName w =
     (if \<not> isRecursive args \<and> \<not> suffix ''/'' scpDestPath
      then (case buildPath (se_env se) (sv_fs w) c scpDestPath of
              Inl _ \<Rightarrow> scpDestPath
            | Inr p \<Rightarrow> (case os_Stat (se_env se) (sv_fs w) p of
                         Inl _ \<Rightarrow> scpDestPath
                       | Inr stat \<Rightarrow> if fi_IsDir stat then path_Join [scpDestPath, fileName] else scpDestPath))
      else path_Join [scpDestPath, fileName])"

text \<open>\<open>FileMode.String\<close>: a letter for each type bit, a dash if there is none, and the nine permissions.\<close>

definition FileMode_String :: "u32 \<Rightarrow> string" where
  "FileMode_String m =
     (let ty = map snd (filter (\<lambda>(i, c). bit m (31 - i)) (zip [0..<13] ''dalTLDpSugct?''))
      in (if ty = [] then ''-'' else ty)
         @ map (\<lambda>(i, c). if bit m (8 - i) then c else CHR ''-'') (zip [0..<9] ''rwxrwxrwx''))"

definition getFileModeAsString :: "u32 \<Rightarrow> bool \<Rightarrow> string" where
  "getFileModeAsString fileMode isDir =
     (if fileMode = 0 then (if isDir then ''0755'' else ''0644'')
      else (let modeString = FileMode_String fileMode; lastChar = length modeString - 1;
                s = (if fileMode AND ModeSticky \<noteq> 0 then 1 else 0) + (if fileMode AND ModeSetuid \<noteq> 0 then 2 else 0)
                    + (if fileMode AND ModeSetgid \<noteq> 0 then 4 else 0);
                val = (\<lambda>k v. if modeString ! (lastChar - k) \<noteq> CHR ''-'' then v else 0)
            in itoa s @ itoa (val 8 4 + val 7 2 + val 6 1) @ itoa (val 5 4 + val 4 2 + val 3 1) @ itoa (val 2 4 + val 1 2 + val 0 1)))"

section \<open>Uploads\<close>

text \<open>The next message that is not a time.\<close>

function getNextUploadProtocolMessage :: "'p scp \<Rightarrow> string \<times> goerr option \<times> 'p scp" where
  "getNextUploadProtocolMessage s =
     (case readProtocolMessage s of
        (command, Some e, s) \<Rightarrow> (command, Some e, s)
      | (command, None, s1) \<Rightarrow>
          (if prefix ''T'' command
           then (case sendConfirmationMessage s1 of (Some e, s2) \<Rightarrow> (command, Some e, s2) | (None, s2) \<Rightarrow> getNextUploadProtocolMessage s2)
           else (command, None, s1)))"
  by pat_completeness auto
termination
proof (relation "measure (\<lambda>s. length (ch_in (sc_ch s)))", simp, clarsimp)
  fix s s1 s2 :: "'p scp" and command
  assume "(command, None, s1) = readProtocolMessage s" and "(None, s2) = sendConfirmationMessage s1"
  then show "length (ch_in (sc_ch s2)) < length (ch_in (sc_ch s))"
    using message_consumes [of s command s1] sendConfirmation_keeps(1) [of s1] by (metis snd_conv)
qed

declare getNextUploadProtocolMessage.simps [simp del]

abbreviation denied :: goerr where "denied \<equiv> ErrorString ''Permission denied''"

definition active :: "Connection \<Rightarrow> 'p scp \<Rightarrow> 'p scp" where
  "active c s = s\<lparr>sc_sv := updateConnectionActivity (c_ID c) (sc_sv s)\<rparr>"

definition createDir :: "'p settings \<Rightarrow> Connection \<Rightarrow> string \<Rightarrow> 'p scp \<Rightarrow> (goerr option \<times> 'p scp) option" where
  "createDir se c dirPath s =
     (case on_serv (\<lambda>w. on_fs (os_Mkdir (se_env se) (sv_fs w) dirPath 0x1FF) w) s of
        (Some e, s) \<Rightarrow> fail e s
      | (None, s) \<Rightarrow> Some (None, s\<lparr>sc_sv := set_permissions se c dirPath (sc_sv s)\<rparr>))"

definition handleCreateDir :: "'p settings \<Rightarrow> Connection \<Rightarrow> string \<Rightarrow> 'p scp \<Rightarrow> (goerr option \<times> 'p scp) option" where
  "handleCreateDir se c dirPath s =
     (let s = active c s
      in if \<not> HasPerm (c_User c) PermCreateDirs then fail denied s
         else case buildPath (se_env se) (sv_fs (sc_sv s)) c dirPath of
                Inl e \<Rightarrow> fail e s
              | Inr p \<Rightarrow> createDir se c p s)"

text \<open>
  The loop of \<open>getUploadFileData\<close>: the buffer never holds more than what remains, and the
  result of a write is not looked at.
\<close>

function upload_loop :: "'p settings \<Rightarrow> nat \<Rightarrow> int \<Rightarrow> int \<Rightarrow> 'p scp \<Rightarrow> goerr option \<times> 'p scp" where
  "upload_loop se i sizeToRead remaining s =
     (if remaining \<le> 0 then (None, s)
      else case chan_Read (nat (min 32768 remaining)) s of
             (Inl e, s) \<Rightarrow> (Some e, snd (on_serv (Transfer_Close se i) (sendErrorMessage (error_text e) s)))
           | (Inr b, s) \<Rightarrow>
               (case on_serv (Transfer_WriteAt se i b (sizeToRead - remaining)) s of
                  (_, s) \<Rightarrow> upload_loop se i sizeToRead (remaining - int (length b)) s))"
  by pat_completeness auto
termination
proof (relation "measure (\<lambda>(se, i, t, r, s). length (ch_in (sc_ch s)))", simp, clarsimp)
  fix se :: "'p settings" and i n s s1 s2 b x y and t remaining :: int
  assume "(Inr b, s1) = chan_Read (nat (min 32768 remaining)) s" "((x, y), s2) = on_serv (Transfer_WriteAt se i b (t - remaining)) s1"
    and r: "\<not> remaining \<le> 0"
  moreover obtain n where "nat (min 32768 remaining) = Suc n" using r by (metis Suc_pred min_less_iff_conj not_le zero_less_nat_eq zero_less_numeral)
  ultimately show "length (ch_in (sc_ch s2)) < length (ch_in (sc_ch s))"
    using Read_shorter [of n s b s1] by (auto simp: on_serv_def split: prod.splits)
qed

declare upload_loop.simps [simp del]

definition getUploadFileData :: "'p settings \<Rightarrow> int \<Rightarrow> nat \<Rightarrow> 'p scp \<Rightarrow> goerr option \<times> 'p scp" where
  "getUploadFileData se sizeToRead i s =
     (case sendConfirmationMessage s of
        (Some e, s) \<Rightarrow> (Some e, snd (on_serv (Transfer_Close se i) s))
      | (None, s) \<Rightarrow>
          (case upload_loop se i sizeToRead sizeToRead s of
             (Some e, s) \<Rightarrow> (Some e, s)
           | (None, s) \<Rightarrow>
               (case readConfirmationMessage s of
                  (Some e, s) \<Rightarrow> (Some e, snd (on_serv (Transfer_Close se i) s))
                | (None, s) \<Rightarrow>
                    (case on_serv (Transfer_Close se i) s of
                       (Some e, s) \<Rightarrow> (Some e, sendErrorMessage (error_text e) s)
                     | (None, s) \<Rightarrow> sendConfirmationMessage s))))"

definition handleUploadFile :: "'p settings \<Rightarrow> Connection \<Rightarrow> string \<Rightarrow> string \<Rightarrow> int \<Rightarrow> 'p scp \<Rightarrow> (goerr option \<times> 'p scp) option" where
  "handleUploadFile se c requestPath filePath sizeToRead s =
     (if \<not> hasSpace se c True (sc_sv s) then fail (ErrorString ''denying file write due to space limit'') s
      else if (case os_Stat (se_env se) (sv_fs (sc_sv s)) (path_Dir requestPath) of Inl e \<Rightarrow> os_IsNotExist e | Inr _ \<Rightarrow> False)
              \<and> \<not> HasPerm (c_User c) PermCreateDirs
      then fail denied s
      else case on_serv (\<lambda>w. on_fs (os_Create (se_env se) (sv_fs w) filePath) w) s of
             (Inl e, s) \<Rightarrow> fail e s
           | (Inr fl, s) \<Rightarrow>
               (let w = set_permissions se c filePath (sc_sv s);
                    (i, w) = addTransfer (new_transfer c fl requestPath transferUpload True (sv_now w)) w
                in Some (getUploadFileData se sizeToRead i (s\<lparr>sc_sv := w\<rparr>))))"

definition handleUpload :: "'p settings \<Rightarrow> Connection \<Rightarrow> string \<Rightarrow> int \<Rightarrow> 'p scp \<Rightarrow> (goerr option \<times> 'p scp) option" where
  "handleUpload se c uploadFilePath sizeToRead s =
     (let s = active c s
      in if \<not> HasPerm (c_User c) PermUpload then fail denied s
         else case buildPath (se_env se) (sv_fs (sc_sv s)) c uploadFilePath of
                Inl e \<Rightarrow> fail e s
              | Inr p \<Rightarrow>
                  (let (filePath, w) =
                         (if se_uploadMode se = uploadModeAtomic
                          then (getUploadTempFilePath (se_xid se (sv_xids (sc_sv s))) p, (sc_sv s)\<lparr>sv_xids := Suc (sv_xids (sc_sv s))\<rparr>)
                          else (p, sc_sv s));
                       s = s\<lparr>sc_sv := w\<rparr>
                   in case os_Stat (se_env se) (sv_fs w) p of
                        Inl e \<Rightarrow> if os_IsNotExist e then handleUploadFile se c p filePath sizeToRead s else None
                      | Inr stat \<Rightarrow>
                          (if fi_IsDir stat then fail (ErrorString (''Attempted to open a directory for writing: '' @ p)) s
                           else case (if se_uploadMode se = uploadModeAtomic
                                      then on_serv (\<lambda>w. on_fs (os_Rename (se_env se) (sv_fs w) p filePath) w) s else (None, s)) of
                                  (Some e, s) \<Rightarrow> fail e s
                                | (None, s) \<Rightarrow>
                                    handleUploadFile se c p filePath sizeToRead
                                      (s\<lparr>sc_sv := update_quota se (c_User c) 0 (- sint (fi_size stat)) (sc_sv s)\<rparr>))))"

section \<open>What the parts of an upload consume\<close>

abbreviation input_left :: "'p scp \<Rightarrow> nat" where
  "input_left s \<equiv> length (ch_in (sc_ch s))"

lemma on_serv_keeps [simp]: "sc_ch (snd (on_serv f s)) = sc_ch s" "sc_sv (snd (on_serv f s)) = snd (f (sc_sv s))" "fst (on_serv f s) = fst (f (sc_sv s))"
  by (simp_all add: on_serv_def case_prod_unfold)

lemma Read_in: "input_left (snd (chan_Read n s)) \<le> input_left s"
  by (simp add: chan_Read_def Let_def)

lemma confirmation_in: "input_left (snd (readConfirmationMessage s)) \<le> input_left s
    \<and> (fst (readConfirmationMessage s) = None \<longrightarrow> input_left (snd (readConfirmationMessage s)) < input_left s)"
proof (cases "chan_Read 1 s")
  case (Pair r s1)
  then show ?thesis
  proof (cases r)
    case (Inl e)
    then show ?thesis using Pair Read_in [of 1 s] by (simp add: readConfirmationMessage_def)
  next
    case (Inr b)
    obtain m e s2 where "read_line s1 = (m, e, s2)" by (rule prod_cases3)
    then show ?thesis using Pair Inr Read_shorter [of 0 s b s1] read_line_consumes [of s1 m e s2] by (simp add: readConfirmationMessage_def)
  qed
qed

lemma upload_loop_in: "input_left (snd (upload_loop se i t r s)) \<le> input_left s"
proof (induction se i t r s rule: upload_loop.induct)
  case (1 se i t r s)
  show ?case
  proof (cases "r \<le> 0")
    case True
    then show ?thesis by (simp add: upload_loop.simps)
  next
    case False
    obtain x s1 where x: "chan_Read (nat (min 32768 r)) s = (x, s1)" by fastforce
    have le: "input_left s1 \<le> input_left s" using Read_in [of "nat (min 32768 r)" s] x by simp
    show ?thesis
    proof (cases x)
      case (Inl e)
      then show ?thesis using x False le by (simp add: upload_loop.simps [of se i t r s])
    next
      case (Inr b)
      obtain y s2 where y: "on_serv (Transfer_WriteAt se i b (t - r)) s1 = (y, s2)" by fastforce
      have "sc_ch s2 = sc_ch s1" using on_serv_keeps(1) [of "Transfer_WriteAt se i b (t - r)" s1] y by simp
      then show ?thesis using 1 [OF False x [symmetric] Inr y [symmetric]] x y False Inr le by (simp add: upload_loop.simps [of se i t r s])
    qed
  qed
qed

lemma getUploadFileData_in: "input_left (snd (getUploadFileData se n i s)) \<le> input_left s"
proof -
  obtain e1 s1 where 1: "sendConfirmationMessage s = (e1, s1)" by fastforce
  obtain e2 s2 where 2: "upload_loop se i n n s1 = (e2, s2)" by fastforce
  obtain e3 s3 where 3: "readConfirmationMessage s2 = (e3, s3)" by fastforce
  obtain e4 s4 where 4: "on_serv (Transfer_Close se i) s3 = (e4, s4)" by fastforce
  have i1: "ch_in (sc_ch s1) = ch_in (sc_ch s)" using 1 sendConfirmation_keeps(1) [of s] by simp
  have i2: "input_left s2 \<le> input_left s1" using 2 upload_loop_in [of se i n n s1] by simp
  have i3: "input_left s3 \<le> input_left s2" using 3 confirmation_in [of s2] by simp
  have i4: "sc_ch s4 = sc_ch s3" using 4 on_serv_keeps(1) [of "Transfer_Close se i" s3] by simp
  show ?thesis using i1 i2 i3 i4 sendConfirmation_keeps(1) [of s4]
    by (cases e1; cases e2; cases e3; cases e4; simp add: getUploadFileData_def 1 2 3 4)
qed

lemma active_keeps [simp]: "sc_ch (active c s) = sc_ch s" "sc_sv (active c s) = updateConnectionActivity (c_ID c) (sc_sv s)"
  by (simp_all add: active_def)

lemma fail_in: "fail e s = Some (err, s') \<Longrightarrow> ch_in (sc_ch s') = ch_in (sc_ch s)"
  by (auto simp: fail_def)

lemma handleCreateDir_in: "handleCreateDir se c p s = Some (err, s') \<Longrightarrow> ch_in (sc_ch s') = ch_in (sc_ch s)"
  by (auto simp: handleCreateDir_def createDir_def Let_def case_prod_unfold split: if_splits sum.splits option.splits dest!: fail_in)

lemma handleUploadFile_in: "handleUploadFile se c p q n s = Some (err, s') \<Longrightarrow> input_left s' \<le> input_left s"
proof -
  assume r: "handleUploadFile se c p q n s = Some (err, s')"
  obtain r1 s1 where 1: "on_serv (\<lambda>w. on_fs (os_Create (se_env se) (sv_fs w) q) w) s = (r1, s1)" by fastforce
  have i1: "sc_ch s1 = sc_ch s" using 1 on_serv_keeps(1) [of "\<lambda>w. on_fs (os_Create (se_env se) (sv_fs w) q) w" s] by simp
  have "(\<exists>e t. fail e t = Some (err, s') \<and> sc_ch t = sc_ch s) \<or> (\<exists>i t. getUploadFileData se n i t = (err, s') \<and> sc_ch t = sc_ch s)"
    using r i1 unfolding handleUploadFile_def 1 by (fastforce simp: Let_def case_prod_unfold split: if_split_asm sum.split_asm)
  then show ?thesis using getUploadFileData_in by (metis fail_in order_refl snd_conv)
qed

lemma uploadFile_in: "sc_ch t = sc_ch s \<Longrightarrow> handleUploadFile se c p q n t = Some (err, s') \<Longrightarrow> input_left s' \<le> input_left s"
  using handleUploadFile_in [of se c p q n t err s'] by simp

lemma failing_in: "sc_ch t = sc_ch s \<Longrightarrow> fail e t = Some (err, s') \<Longrightarrow> input_left s' \<le> input_left s"
  using fail_in [of e t err s'] by simp

lemma handleUpload_in: "handleUpload se c p n s = Some (err, s') \<Longrightarrow> input_left s' \<le> input_left s"
  unfolding handleUpload_def Let_def case_prod_unfold
  by (simp split: if_split_asm sum.split_asm option.split_asm; erule uploadFile_in [rotated] failing_in [rotated]; simp)

lemma next_consumes: "getNextUploadProtocolMessage s = (command, None, s') \<Longrightarrow> input_left s' < input_left s"
proof (induction s arbitrary: command s' rule: getNextUploadProtocolMessage.induct)
  case (1 s)
  obtain m e s1 where r: "readProtocolMessage s = (m, e, s1)" by (rule prod_cases3)
  have e: "e = None" using "1.prems" r by (auto simp: getNextUploadProtocolMessage.simps [of s] split: option.splits)
  have l: "input_left s1 < input_left s" using r e message_consumes by blast
  show ?case
  proof (cases "prefix ''T'' m")
    case False
    then show ?thesis using "1.prems" r e l by (simp add: getNextUploadProtocolMessage.simps [of s])
  next
    case True
    obtain e2 s2 where c: "sendConfirmationMessage s1 = (e2, s2)" by fastforce
    have k: "ch_in (sc_ch s2) = ch_in (sc_ch s1)" using c sendConfirmation_keeps(1) [of s1] by simp
    have e2: "e2 = None" and n: "getNextUploadProtocolMessage s2 = (command, None, s')"
      using "1.prems" r e True c by (auto simp: getNextUploadProtocolMessage.simps [of s] split: option.splits)
    show ?thesis using "1.IH" r e True c e2 n k l by fastforce
  qed
qed

lemma parse_keeps [simp]:
  "ch_in (sc_ch (snd (parseUploadMessage args c m s))) = ch_in (sc_ch s)" "sc_sv (snd (parseUploadMessage args c m s)) = sc_sv s"
  by (auto simp: parseUploadMessage_def Let_def case_prod_unfold split: option.split)

text \<open>
  What \<open>handleRecursiveUpload\<close> does with one message: the error with which it returns, or the number
  of open directories and the destination with which it goes on.
\<close>

definition upload_message :: "'p settings \<Rightarrow> string list \<Rightarrow> Connection \<Rightarrow> string \<Rightarrow> int \<Rightarrow> string \<Rightarrow> 'p scp
    \<Rightarrow> ((goerr + int \<times> string) \<times> 'p scp) option" where
  "upload_message se args c command numDirs destPath s =
     (if prefix ''E'' command
      then (let numDirs = numDirs - 1
            in if numDirs = 0
               then (case sendConfirmationMessage s of
                       (Some e, s) \<Rightarrow> Some (Inl e, s)
                     | (None, s) \<Rightarrow> Some (Inr (numDirs, destPath), s))
               else Some (Inr (numDirs, path_Join [destPath, ''..'']), s))
      else case parseUploadMessage args c command s of
             (Inl e, s) \<Rightarrow> Some (Inl e, s)
           | (Inr (sizeToRead, name), s) \<Rightarrow>
               (if prefix ''D'' command
                then (let destPath = path_Join [destPath, name]
                      in case handleCreateDir se c destPath s of
                           None \<Rightarrow> None
                         | Some (Some e, s) \<Rightarrow> Some (Inl e, s)
                         | Some (None, s) \<Rightarrow> Some (Inr (numDirs + 1, destPath), s))
                else if prefix ''C'' command
                then (case handleUpload se c (getFileUploadDestPath se args c destPath name (sc_sv s)) sizeToRead s of
                        None \<Rightarrow> None
                      | Some (Some e, s) \<Rightarrow> Some (Inl e, s)
                      | Some (None, s) \<Rightarrow> Some (Inr (numDirs, destPath), s))
                else Some (Inr (numDirs, destPath), s)))"

lemma upload_message_in: "upload_message se args c m k d s = Some (r, s') \<Longrightarrow> input_left s' \<le> input_left s"
proof -
  assume r: "upload_message se args c m k d s = Some (r, s')"
  show ?thesis
  proof (cases "prefix ''E'' m")
    case True
    obtain e u where u: "sendConfirmationMessage s = (e, u)" by fastforce
    have "ch_in (sc_ch u) = ch_in (sc_ch s)" using u sendConfirmation_keeps(1) [of s] by simp
    then show ?thesis using r True by (auto simp: upload_message_def u Let_def split: if_splits option.splits)
  next
    case False
    obtain q t where q: "parseUploadMessage args c m s = (q, t)" by fastforce
    have t: "ch_in (sc_ch t) = ch_in (sc_ch s)" using q parse_keeps(1) [of args c m s] by simp
    show ?thesis
    proof (cases q)
      case (Inl e)
      then show ?thesis using r False q t by (simp add: upload_message_def)
    next
      case (Inr y)
      then show ?thesis using r False q t
        by (cases y) (auto simp: upload_message_def Let_def split: if_splits option.splits dest!: handleUpload_in handleCreateDir_in)
    qed
  qed
qed

function recursive_upload :: "'p settings \<Rightarrow> string list \<Rightarrow> Connection \<Rightarrow> int \<Rightarrow> string \<Rightarrow> 'p scp \<Rightarrow> (goerr option \<times> 'p scp) option" where
  "recursive_upload se args c numDirs destPath s =
     (case sendConfirmationMessage s of
        (Some e, s) \<Rightarrow> Some (Some e, s)
      | (None, s1) \<Rightarrow>
          (case getNextUploadProtocolMessage s1 of
             (_, Some e, s) \<Rightarrow> Some (Some e, s)
           | (command, None, s2) \<Rightarrow>
               (case upload_message se args c command numDirs destPath s2 of
                  None \<Rightarrow> None
                | Some (Inl e, s) \<Rightarrow> Some (Some e, s)
                | Some (Inr (numDirs, destPath), s3) \<Rightarrow>
                    (if numDirs = 0 then Some (None, s3) else recursive_upload se args c numDirs destPath s3))))"
  by pat_completeness auto
termination
proof (relation "measure (\<lambda>(se, args, c, k, d, s). input_left s)", simp, clarsimp)
  fix se :: "'p settings" and args c k k' d d' m s s1 s2 s3
  assume "(None, s1) = sendConfirmationMessage s" and "(m, None, s2) = getNextUploadProtocolMessage s1"
    and "upload_message se args c m k d s2 = Some (Inr (k', d'), s3)"
  then show "input_left s3 < input_left s"
    using next_consumes [of s1 m s2] upload_message_in [of se args c m k d s2] sendConfirmation_keeps(1) [of s]
    by (metis le_less_trans snd_conv)
qed

declare recursive_upload.simps [simp del]

definition handleRecursiveUpload :: "'p settings \<Rightarrow> string list \<Rightarrow> Connection \<Rightarrow> 'p scp \<Rightarrow> (goerr option \<times> 'p scp) option" where
  "handleRecursiveUpload se args c s =
     (case getDestPath args of None \<Rightarrow> None | Some destPath \<Rightarrow> recursive_upload se args c 0 destPath s)"

section \<open>Downloads\<close>

definition mtime_message :: "fileInfo \<Rightarrow> string" where
  "mtime_message stat =
     (let modTime = itoa_int (go_div (wrap64 (sint (fi_mtime stat) * 1000000000)) 1000000000)
      in ''T'' @ modTime @ '' 0 '' @ modTime @ '' 0'' @ [CHR 0x0A])"

text \<open>A message and the answer to it.\<close>

definition ask :: "string \<Rightarrow> 'p scp \<Rightarrow> goerr option \<times> 'p scp" where
  "ask message s =
     (case sendProtocolMessage message s of (Some e, s) \<Rightarrow> (Some e, s) | (None, s) \<Rightarrow> readConfirmationMessage s)"

definition sendDownloadProtocolMessages :: "string list \<Rightarrow> string \<Rightarrow> fileInfo \<Rightarrow> 'p scp \<Rightarrow> goerr option \<times> 'p scp" where
  "sendDownloadProtocolMessages args dirPath stat s =
     (case (if sendFileTime args then ask (mtime_message stat) s else (None, s)) of
        (Some e, s) \<Rightarrow> (Some e, s)
      | (None, s) \<Rightarrow>
          ask (''D'' @ getFileModeAsString (fi_mode stat) (fi_IsDir stat) @ '' 0 '' @ path_Base dirPath @ [CHR 0x0A]) s)"

text \<open>The loop of \<open>sendDownloadFileData\<close>; the error that ends it is a variable of the loop.\<close>

lemma Transfer_ReadAt_result: "fst (Transfer_ReadAt se i n off w) = file_ReadAt (se_env se) (sv_fs w) (t_file (sv_heap w i)) n off"
  by (simp add: Transfer_ReadAt_def Let_def case_prod_unfold)

lemma Transfer_ReadAt_keeps [simp]:
  "sv_fs (snd (Transfer_ReadAt se i n off w)) = sv_fs w"
  "t_file (sv_heap (snd (Transfer_ReadAt se i n off w)) i) = t_file (sv_heap w i)"
  by (simp_all add: Transfer_ReadAt_def handleThrottle_def set_transfer_def Let_def case_prod_unfold)

definition unread :: "nat \<Rightarrow> int \<Rightarrow> 'p serv \<Rightarrow> nat" where
  "unread i off w = (case fl_inode (t_file (sv_heap w i)) of None \<Rightarrow> 0 | Some j \<Rightarrow> length (fs_data (sv_fs w) j) - nat off)"

lemma read_some: "Transfer_ReadAt se i n off w = ((b, e), w') \<Longrightarrow> b \<noteq> [] \<Longrightarrow> unread i (off + int (length b)) w' < unread i off w"
  using Transfer_ReadAt_result [of se i n off w] Transfer_ReadAt_keeps [of se i n off w]
  by (auto simp: unread_def file_ReadAt_def Let_def nat_add_distrib split: if_splits option.splits)

lemma read_none: "Transfer_ReadAt se i (Suc n) off w = (([], e), w') \<Longrightarrow> e \<noteq> None"
  using Transfer_ReadAt_result [of se i "Suc n" off w] by (auto simp: file_ReadAt_def Let_def split: if_splits option.splits)

function download_loop :: "'p settings \<Rightarrow> nat \<Rightarrow> int \<Rightarrow> 'p scp \<Rightarrow> 'p scp" where
  "download_loop se i readed s =
     (case on_serv (Transfer_ReadAt se i 32768 readed) s of
        ((b, err), s1) \<Rightarrow>
          (case (if (err = None \<or> err = Some IoEOF) \<and> b \<noteq> [] then chan_Write b s1 else (err, s1)) of
             (Some _, s2) \<Rightarrow> s2
           | (None, s2) \<Rightarrow> download_loop se i (readed + int (length b)) s2))"
  by pat_completeness auto
termination
proof (relation "measure (\<lambda>(se, i, off, s). unread i off (sc_sv s))", simp, clarsimp)
  fix se :: "'p settings" and i readed s b err s1 s2
  assume r: "((b, err), s1) = on_serv (Transfer_ReadAt se i 32768 readed) s"
    and c: "(None, s2) = (if (err = None \<or> err = Some IoEOF) \<and> b \<noteq> [] then chan_Write b s1 else (err, s1))"
  have t: "Transfer_ReadAt se i 32768 readed (sc_sv s) = ((b, err), sc_sv s1)"
    using r by (simp add: on_serv_def case_prod_unfold prod_eq_iff)
  have "b \<noteq> []"
  proof
    assume "b = []"
    then show False using c t read_none [of se i 32767 readed "sc_sv s" err "sc_sv s1"] by simp
  qed
  moreover have "sc_sv s2 = sc_sv s1" using c chan_keeps(2) [of b s1] by (auto split: if_splits simp: prod_eq_iff)
  ultimately show "unread i (readed + int (length b)) (sc_sv s2) < unread i readed (sc_sv s)" using read_some [OF t] by simp
qed

declare download_loop.simps [simp del]

definition sendDownloadFileData :: "'p settings \<Rightarrow> string list \<Rightarrow> string \<Rightarrow> fileInfo \<Rightarrow> nat \<Rightarrow> 'p scp \<Rightarrow> goerr option \<times> 'p scp" where
  "sendDownloadFileData se args filePath stat i s =
     (case (if sendFileTime args then ask (mtime_message stat) s else (None, s)) of
        (Some e, s) \<Rightarrow> (Some e, s)
      | (None, s) \<Rightarrow>
          (case ask (''C'' @ getFileModeAsString (fi_mode stat) (fi_IsDir stat) @ '' '' @ itoa_int (sint (fi_size stat)) @ '' ''
                     @ path_Base filePath @ [CHR 0x0A]) s of
             (Some e, s) \<Rightarrow> (Some e, s)
           | (None, s) \<Rightarrow>
               (case sendConfirmationMessage (download_loop se i 0 s) of
                  (Some e, s) \<Rightarrow> (Some e, s)
                | (None, s) \<Rightarrow> readConfirmationMessage s)))"

definition getDirContents :: "os_env \<Rightarrow> fs \<Rightarrow> string \<Rightarrow> goerr + fileInfo list" where
  "getDirContents env f path = (case fst (os_Open env f path) of Inl e \<Rightarrow> Inl e | Inr _ \<Rightarrow> ReadDir env f path)"

text \<open>The downloads of a list of paths, up to the first error.\<close>

fun download_each :: "(string \<Rightarrow> 'p scp \<Rightarrow> (goerr option \<times> 'p scp) option) \<Rightarrow> string list \<Rightarrow> 'p scp \<Rightarrow> (goerr option \<times> 'p scp) option" where
  "download_each dl [] s = Some (None, s)"
| "download_each dl (p # ps) s =
     (case dl p s of None \<Rightarrow> None | Some (Some e, s) \<Rightarrow> Some (Some e, s) | Some (None, s) \<Rightarrow> download_each dl ps s)"

text \<open>First the files of a directory, then its directories; \<open>dl\<close> is the download of an entry.\<close>

definition handleRecursiveDownload ::
  "(string \<Rightarrow> 'p scp \<Rightarrow> (goerr option \<times> 'p scp) option) \<Rightarrow> 'p settings \<Rightarrow> string list \<Rightarrow> Connection \<Rightarrow> string \<Rightarrow> fileInfo
    \<Rightarrow> 'p scp \<Rightarrow> (goerr option \<times> 'p scp) option" where
  "handleRecursiveDownload dl se args c dirPath stat s =
     (if isRecursive args
      then (case sendDownloadProtocolMessages args dirPath stat s of
              (Some e, s) \<Rightarrow> Some (Some e, s)
            | (None, s) \<Rightarrow>
                (case getDirContents (se_env se) (sv_fs (sc_sv s)) dirPath of
                   Inl e \<Rightarrow> fail e s
                 | Inr files \<Rightarrow>
                     (let rel = (\<lambda>fi. GetRelativePath (c_User c) (path_Join [dirPath, fi_name fi]));
                          plain = (\<lambda>fi. fi_IsRegular fi \<or> fi_mode fi AND ModeSymlink = ModeSymlink)
                      in case download_each dl (map rel (filter plain files)) s of
                           None \<Rightarrow> None
                         | Some (Some e, s) \<Rightarrow> fail e s
                         | Some (None, s) \<Rightarrow>
                             (case download_each dl (map rel (filter (\<lambda>fi. \<not> plain fi \<and> fi_IsDir fi) files)) s of
                                None \<Rightarrow> None
                              | Some (Some e, s) \<Rightarrow> fail e s
                              | Some (None, s) \<Rightarrow> Some (ask (''E'' @ [CHR 0x0A]) s)))))
      else fail (ErrorString ''Unable to send directory for non recursive copy'') s)"

primrec download_fuel :: "nat \<Rightarrow> 'p settings \<Rightarrow> string list \<Rightarrow> Connection \<Rightarrow> string \<Rightarrow> 'p scp \<Rightarrow> (goerr option \<times> 'p scp) option" where
  "download_fuel 0 se args c filePath s = Some (Some (ErrorString ''out of fuel''), s)"
| "download_fuel (Suc n) se args c filePath s =
     (let s = active c s
      in if \<not> HasPerm (c_User c) PermDownload then fail denied s
         else case buildPath (se_env se) (sv_fs (sc_sv s)) c filePath of
                Inl _ \<Rightarrow> fail (ErrorString ''Invalid file path'') s
              | Inr p \<Rightarrow>
                  (case os_Stat (se_env se) (sv_fs (sc_sv s)) p of
                     Inl e \<Rightarrow> if os_IsNotExist e then fail e s else None
                   | Inr stat \<Rightarrow>
                       (if fi_IsDir stat then handleRecursiveDownload (download_fuel n se args c) se args c p stat s
                        else case on_serv (\<lambda>w. on_fs (os_Open (se_env se) (sv_fs w) p) w) s of
                               (Inl e, s) \<Rightarrow> fail e s
                             | (Inr fl, s) \<Rightarrow>
                                 (let (i, w) = addTransfer (new_transfer c fl p transferDownload False (sv_now (sc_sv s))) (sc_sv s);
                                      (err, s) = sendDownloadFileData se args p stat i (s\<lparr>sc_sv := w\<rparr>);
                                      (closed, s) = on_serv (Transfer_Close se i) s
                                  in Some (if err = None then closed else err, s)))))"

definition handleDownload :: "'p settings \<Rightarrow> string list \<Rightarrow> Connection \<Rightarrow> string \<Rightarrow> 'p scp \<Rightarrow> (goerr option \<times> 'p scp) option" where
  "handleDownload se args c filePath s = download_fuel (Suc (input_left s)) se args c filePath s"

section \<open>The command\<close>

definition handle_scp :: "'p settings \<Rightarrow> string list \<Rightarrow> Connection \<Rightarrow> 'p scp \<Rightarrow> (goerr option \<times> 'p scp) option" where
  "handle_scp se args c s =
     (let s = s\<lparr>sc_sv := addConnection (c_ID c) c (sc_sv s)\<rparr>;
          remove = (\<lambda>s. s\<lparr>sc_sv := removeConnection (c_ID c) (sc_sv s)\<rparr>);
          done = (\<lambda>r. case r of
                        None \<Rightarrow> None
                      | Some (Some e, s) \<Rightarrow> Some (Some e, remove s)
                      | Some (None, s) \<Rightarrow> Some (None, remove (sendExitStatus None s)))
      in case (getDestPath args, getCommandType args) of
           (Some destPath, Some commandType) \<Rightarrow>
             (if commandType = ''-t'' \<or> commandType = ''-pt'' then done (handleRecursiveUpload se args c s)
              else if commandType = ''-f'' \<or> commandType = ''-pf''
              then (case readConfirmationMessage s of
                      (Some e, s) \<Rightarrow> Some (Some e, remove s)
                    | (None, s) \<Rightarrow> done (handleDownload se args c destPath s))
              else (let err = Some (ErrorString (''scp command not supported, args: ['' @ join_with (CHR '' '') args @ '']''))
                    in Some (err, remove (sendExitStatus err s))))
         | _ \<Rightarrow> None)"

section \<open>What the messages keep\<close>

lemma read_line_serv: "read_line s = (m, e, s') \<Longrightarrow> sc_sv s' = sc_sv s"
proof (induction s arbitrary: m e s' rule: read_line.induct)
  case (1 s)
  obtain r s1 where r: "chan_Read 1 s = (r, s1)" by fastforce
  have k: "sc_sv s1 = sc_sv s" using r chan_keeps(5) [of 1 s] by simp
  show ?case
  proof (cases r)
    case (Inl x)
    then show ?thesis using "1.prems" r k by (simp add: read_line.simps [of s])
  next
    case (Inr b)
    obtain m1 e1 s2 where l: "read_line s1 = (m1, e1, s2)" by (rule prod_cases3)
    show ?thesis using "1.prems" "1.IH" [OF r [symmetric] Inr _ l] r k l Inr by (auto simp: read_line.simps [of s] split: if_splits)
  qed
qed

lemma confirmation_serv [simp]: "sc_sv (snd (readConfirmationMessage s)) = sc_sv s"
proof -
  obtain r s1 where r: "chan_Read 1 s = (r, s1)" by fastforce
  obtain m e s2 where l: "read_line s1 = (m, e, s2)" by (rule prod_cases3)
  show ?thesis using r l read_line_serv [OF l] chan_keeps(5) [of 1 s] by (auto simp: readConfirmationMessage_def split: sum.split)
qed

lemma next_serv: "getNextUploadProtocolMessage s = (m, e, s') \<Longrightarrow> sc_sv s' = sc_sv s"
proof (induction s arbitrary: m e s' rule: getNextUploadProtocolMessage.induct)
  case (1 s)
  obtain m1 e1 s1 where l: "read_line s = (m1, e1, s1)" by (rule prod_cases3)
  then obtain s1' where r: "readProtocolMessage s = (m1, e1, s1')" and k: "sc_sv s1' = sc_sv s"
    using read_line_serv [OF l] by (auto simp: readProtocolMessage_def)
  obtain e2 s2 where c: "sendConfirmationMessage s1' = (e2, s2)" by fastforce
  have k2: "sc_sv s2 = sc_sv s1'" using c sendConfirmation_keeps(2) [of s1'] by simp
  show ?case
  proof (cases "e1 = None \<and> prefix ''T'' m1 \<and> e2 = None")
    case True
    then have "getNextUploadProtocolMessage s2 = (m, e, s')" using "1.prems" r c by (simp add: getNextUploadProtocolMessage.simps [of s])
    then show ?thesis using "1.IH" r c True k k2 by fastforce
  next
    case False
    then show ?thesis using "1.prems" r c k k2
      by (auto simp: getNextUploadProtocolMessage.simps [of s] split: option.splits if_splits)
  qed
qed

lemma ask_keeps: "sc_sv (snd (ask m s)) = sc_sv s \<and> input_left (snd (ask m s)) \<le> input_left s
    \<and> (fst (ask m s) = None \<longrightarrow> input_left (snd (ask m s)) < input_left s)"
proof -
  obtain e s1 where p: "sendProtocolMessage m s = (e, s1)" by fastforce
  then have k: "sc_sv s1 = sc_sv s" "ch_in (sc_ch s1) = ch_in (sc_ch s)"
    using sendProtocol_keeps [of m s] by simp_all
  show ?thesis using p k confirmation_in [of s1] confirmation_serv [of s1] by (cases e) (simp_all add: ask_def)
qed

lemma ask_in: "ask m s = (e, s') \<Longrightarrow> sc_sv s' = sc_sv s \<and> input_left s' \<le> input_left s"
  using ask_keeps [of m s] by simp

lemma exit_serv [simp]: "sc_sv (sendExitStatus e s) = sc_sv s"
  by (simp add: sendExitStatus_def Let_def)

lemma fail_serv: "fail e s = Some (err, s') \<Longrightarrow> sc_sv s' = sc_sv s"
  by (auto simp: fail_def)

lemma titles_keep:
  "sendDownloadProtocolMessages args p st s = (e, s') \<Longrightarrow> sc_sv s' = sc_sv s \<and> input_left s' \<le> input_left s \<and> (e = None \<longrightarrow> input_left s' < input_left s)"
proof -
  assume r: "sendDownloadProtocolMessages args p st s = (e, s')"
  obtain e1 s1 where 1: "(if sendFileTime args then ask (mtime_message st) s else (None, s)) = (e1, s1)" by fastforce
  have k: "sc_sv s1 = sc_sv s" "input_left s1 \<le> input_left s" using 1 ask_keeps [of "mtime_message st" s] by (auto split: if_splits)
  define m where "m = ''D'' @ getFileModeAsString (fi_mode st) (fi_IsDir st) @ '' 0 '' @ path_Base p @ [CHR 0x0A]"
  obtain e2 s2 where 2: "ask m s1 = (e2, s2)" by fastforce
  show ?thesis using r k ask_keeps [of m s1] unfolding sendDownloadProtocolMessages_def 1 m_def [symmetric]
    by (cases e1) (auto simp: 2)
qed

lemma write_keeps: "chan_Write b s = (e, s') \<Longrightarrow> ch_in (sc_ch s') = ch_in (sc_ch s) \<and> sc_sv s' = sc_sv s"
  using chan_keeps(1,2) [of b s] by (simp del: chan_keeps)

section \<open>Fuel\<close>

lemma download_loop_in: "ch_in (sc_ch (download_loop se i off s)) = ch_in (sc_ch s)"
proof (induction se i off s rule: download_loop.induct)
  case (1 se i off s)
  obtain b err s1 where r: "on_serv (Transfer_ReadAt se i 32768 off) s = ((b, err), s1)" by (metis surj_pair)
  have k: "sc_ch s1 = sc_ch s" using r on_serv_keeps(1) [of "Transfer_ReadAt se i 32768 off" s] by simp
  obtain e2 s2 where c: "(if (err = None \<or> err = Some IoEOF) \<and> b \<noteq> [] then chan_Write b s1 else (err, s1)) = (e2, s2)" by fastforce
  have k2: "ch_in (sc_ch s2) = ch_in (sc_ch s1)" using c by (auto split: if_splits dest!: write_keeps)
  show ?case using "1.IH" [OF r [symmetric] refl c [symmetric]] k k2 by (cases e2) (simp_all add: download_loop.simps [of se i off s] r c)
qed

lemma sendDownloadFileData_in: "input_left (snd (sendDownloadFileData se args p st i s)) \<le> input_left s"
proof -
  obtain e1 s1 where 1: "(if sendFileTime args then ask (mtime_message st) s else (None, s)) = (e1, s1)" by fastforce
  define m where "m = ''C'' @ getFileModeAsString (fi_mode st) (fi_IsDir st) @ '' '' @ itoa_int (sint (fi_size st)) @ '' '' @ path_Base p @ [CHR 0x0A]"
  obtain e2 s2 where 2: "ask m s1 = (e2, s2)" by fastforce
  obtain e3 s3 where 3: "sendConfirmationMessage (download_loop se i 0 s2) = (e3, s3)" by fastforce
  have "input_left s1 \<le> input_left s" using 1 ask_keeps [of "mtime_message st" s] by (auto split: if_splits)
  moreover have "input_left s2 \<le> input_left s1" using 2 ask_keeps [of m s1] by simp
  moreover have "ch_in (sc_ch s3) = ch_in (sc_ch s2)"
    using 3 sendConfirmation_keeps(1) [of "download_loop se i 0 s2"] download_loop_in [of se i 0 s2] by simp
  moreover have "input_left (snd (readConfirmationMessage s3)) \<le> input_left s3" using confirmation_in by blast
  ultimately show ?thesis unfolding sendDownloadFileData_def 1 m_def [symmetric]
    by (cases e1; cases e2; cases e3) (simp_all add: 2 3)
qed

lemma download_each_in:
  assumes "\<And>p s err s'. dl p s = Some (err, s') \<Longrightarrow> input_left s' \<le> input_left s"
  shows "download_each dl ps s = Some (err, s') \<Longrightarrow> input_left s' \<le> input_left s"
proof (induction ps arbitrary: s)
  case (Cons p ps)
  then show ?case using assms by (fastforce split: option.splits)
qed simp

lemma download_each_cong:
  assumes "\<And>p t. input_left t \<le> k \<Longrightarrow> dl p t = dl' p t" and "\<And>p s err s'. dl' p s = Some (err, s') \<Longrightarrow> input_left s' \<le> input_left s"
  shows "input_left s \<le> k \<Longrightarrow> download_each dl ps s = download_each dl' ps s"
proof (induction ps arbitrary: s)
  case (Cons p ps)
  then show ?case using assms(1) [OF Cons.prems] assms(2) [of p s] by (fastforce split: option.splits)
qed simp

lemma recursive_in:
  assumes "\<And>p s err s'. dl p s = Some (err, s') \<Longrightarrow> input_left s' \<le> input_left s"
    and "handleRecursiveDownload dl se args c p st s = Some (err, s')"
  shows "input_left s' \<le> input_left s"
proof (cases "isRecursive args")
  case True
  obtain e1 s1 where 1: "sendDownloadProtocolMessages args p st s = (e1, s1)" by fastforce
  have k: "input_left s1 \<le> input_left s" using titles_keep [OF 1] by simp
  have each: "download_each dl ps t = Some (e, t') \<Longrightarrow> input_left t' \<le> input_left t" for ps t e t'
    using download_each_in assms(1) by blast
  show ?thesis using assms(2) k True unfolding handleRecursiveDownload_def 1
    by (auto simp: Let_def split: option.splits sum.splits prod.splits dest!: each fail_in ask_in)
next
  case False
  then show ?thesis using assms(2) fail_in by (fastforce simp: handleRecursiveDownload_def)
qed

lemma download_in: "download_fuel n se args c p s = Some (err, s') \<Longrightarrow> input_left s' \<le> input_left s"
proof (induction n arbitrary: p s err s')
  case (Suc n)
  let ?s = "active c s"
  show ?case
  proof (cases "HasPerm (c_User c) PermDownload")
    case True
    show ?thesis
    proof (cases "buildPath (se_env se) (sv_fs (sc_sv ?s)) c p")
      case (Inl e)
      then show ?thesis using Suc.prems True by (auto simp: Let_def dest!: fail_in)
    next
      case (Inr q)
      obtain r s1 where o: "on_serv (\<lambda>w. on_fs (os_Open (se_env se) (sv_fs w) q) w) ?s = (r, s1)" by fastforce
      have "sc_ch s1 = sc_ch s" using o on_serv_keeps(1) [of "\<lambda>w. on_fs (os_Open (se_env se) (sv_fs w) q) w" ?s] by simp
      then have sent: "input_left (snd (sendDownloadFileData se args q st i (s1\<lparr>sc_sv := w\<rparr>))) \<le> input_left s" for st i w
        using sendDownloadFileData_in [of se args q st i "s1\<lparr>sc_sv := w\<rparr>"] by simp
      have rec: "input_left s' \<le> input_left s" if "handleRecursiveDownload (download_fuel n se args c) se args c q st ?s = Some (err, s')" for st
        using recursive_in [OF Suc.IH that] by simp
      have other: "input_left s' \<le> input_left s" if "fail e t = Some (err, s')" "sc_ch t = sc_ch s" for e t
        using fail_in [OF that(1)] that(2) by simp
      show ?thesis using Suc.prems True Inr o \<open>sc_ch s1 = sc_ch s\<close> sent
        by (auto simp: Let_def case_prod_unfold split: sum.splits if_splits intro: rec other)
    qed
  next
    case False
    then show ?thesis using Suc.prems by (auto simp: Let_def dest!: fail_in)
  qed
qed simp

text \<open>Every directory costs a byte of the input, so that more fuel than the input has bytes makes no difference.\<close>

lemma recursive_cong:
  assumes "\<And>p t. input_left t < input_left s \<Longrightarrow> dl p t = dl' p t" and "\<And>p s err s'. dl' p s = Some (err, s') \<Longrightarrow> input_left s' \<le> input_left s"
  shows "handleRecursiveDownload dl se args c p st s = handleRecursiveDownload dl' se args c p st s"
proof -
  obtain e1 s1 where 1: "sendDownloadProtocolMessages args p st s = (e1, s1)" by fastforce
  show ?thesis
  proof (cases e1)
    case None
    then have less: "input_left s1 < input_left s" using titles_keep [OF 1] by simp
    have each: "download_each dl ps t = download_each dl' ps t" if "input_left t \<le> input_left s1" for ps t
      using download_each_cong [of "input_left s1" dl dl', OF _ assms(2) that] assms(1) less by simp
    have after: "download_each dl qs t = download_each dl' qs t" if "download_each dl' ps s1 = Some (e, t)" for ps qs e t
      using each [OF download_each_in [OF assms(2) that]] by simp
    show ?thesis using None each [of s1] after unfolding handleRecursiveDownload_def 1
      by (auto simp: Let_def split: option.splits sum.splits)
  qed (simp add: handleRecursiveDownload_def 1)
qed

lemma download_fuel_enough:
  "input_left s < n \<Longrightarrow> input_left s < m \<Longrightarrow> download_fuel n se args c p s = download_fuel m se args c p s"
proof (induction n arbitrary: m p s)
  case (Suc n)
  then obtain k where m: "m = Suc k" by (cases m) auto
  have "handleRecursiveDownload (download_fuel n se args c) se args c q st (active c s) = handleRecursiveDownload (download_fuel k se args c) se args c q st (active c s)" for q st
  proof (rule recursive_cong)
    fix p and t :: "'a scp" assume "input_left t < input_left (active c s)"
    then have "input_left t < n" "input_left t < k" using Suc.prems m by simp_all
    then show "download_fuel n se args c p t = download_fuel k se args c p t" by (rule Suc.IH)
  qed (rule download_in)
  then show ?case by (simp only: m download_fuel.simps Let_def)
qed simp
section \<open>Contracts of the command\<close>

text \<open>
  An invariant \<open>J\<close> of the server that the calls of the command keep. \<open>own\<close> tells the transfers of
  the command, \<open>dest\<close> the destinations that it may be given; a destination that is made by joining is
  one of them.
\<close>

locale kept_by_scp =
  fixes se :: "'p settings" and c :: Connection and J :: "'p serv \<Rightarrow> bool" and own :: "'p serv \<Rightarrow> nat \<Rightarrow> bool" and dest :: "string \<Rightarrow> bool"
  assumes bookkeeping: "J w \<Longrightarrow> J (updateConnectionActivity z w)" "J w \<Longrightarrow> J (addConnection z k w)" "J w \<Longrightarrow> J (removeConnection z w)"
      "J w \<Longrightarrow> J (update_quota se u files bytes w)"
    and joined: "dest d \<Longrightarrow> dest (path_Join [d, x])"
    and mode: "J w \<Longrightarrow> HasPerm (c_User c) PermUpload \<Longrightarrow> se_uploadMode se \<noteq> uploadModeAtomic"
    and mkdir: "J w \<Longrightarrow> dest d \<Longrightarrow> HasPerm (c_User c) PermCreateDirs \<Longrightarrow> buildPath (se_env se) (sv_fs w) c d = Inr p
      \<Longrightarrow> os_Mkdir (se_env se) (sv_fs w) p 0x1FF = (e, f) \<Longrightarrow> J (w\<lparr>sv_fs := f\<rparr>) \<and> J (set_permissions se c p (w\<lparr>sv_fs := f\<rparr>))"
    and create: "J w \<Longrightarrow> dest d \<Longrightarrow> HasPerm (c_User c) PermUpload \<Longrightarrow> buildPath (se_env se) (sv_fs w) c d = Inr p
      \<Longrightarrow> os_Create (se_env se) (sv_fs w) p = (r, f) \<Longrightarrow> J (w\<lparr>sv_fs := f\<rparr>)
          \<and> (\<forall>fl now. r = Inr fl \<longrightarrow> (case addTransfer (new_transfer c fl p transferUpload True now) (set_permissions se c p (w\<lparr>sv_fs := f\<rparr>)) of
                (i, w') \<Rightarrow> J w' \<and> own w' i))"
    and open_read: "J w \<Longrightarrow> os_Open (se_env se) (sv_fs w) p = (Inr fl, f)
      \<Longrightarrow> case addTransfer (new_transfer c fl p transferDownload False now) w of (i, w') \<Rightarrow> J w' \<and> own w' i"
    and transfers: "J w \<Longrightarrow> own w i \<Longrightarrow> J (snd (Transfer_ReadAt se i n off w)) \<and> own (snd (Transfer_ReadAt se i n off w)) i"
      "J w \<Longrightarrow> own w i \<Longrightarrow> J (snd (Transfer_WriteAt se i b off w)) \<and> own (snd (Transfer_WriteAt se i b off w)) i"
      "J w \<Longrightarrow> own w i \<Longrightarrow> J (snd (Transfer_Close se i w))"
begin

lemma upload_loop_keeps:
  "J (sc_sv s) \<Longrightarrow> own (sc_sv s) i \<Longrightarrow> upload_loop se i t r s = (e, s') \<Longrightarrow> J (sc_sv s') \<and> (e = None \<longrightarrow> own (sc_sv s') i)"
proof (induction "input_left s" arbitrary: r s rule: less_induct)
  case less
  show ?case
  proof (cases "r \<le> 0")
    case True
    then show ?thesis using less.prems by (simp add: upload_loop.simps [of se i t r s])
  next
    case False
    obtain x s1 where x: "chan_Read (nat (min 32768 r)) s = (x, s1)" by fastforce
    have k: "sc_sv s1 = sc_sv s" using x chan_keeps(5) [of "nat (min 32768 r)" s] by simp
    show ?thesis
    proof (cases x)
      case (Inl e1)
      then show ?thesis using less.prems False x k transfers(3) [of "sc_sv s" i] by (auto simp: upload_loop.simps [of se i t r s])
    next
      case (Inr b)
      obtain y s2 where y: "on_serv (Transfer_WriteAt se i b (t - r)) s1 = (y, s2)" by fastforce
      have 2: "sc_ch s2 = sc_ch s1" "sc_sv s2 = snd (Transfer_WriteAt se i b (t - r) (sc_sv s))"
        using on_serv_keeps [of "Transfer_WriteAt se i b (t - r)" s1] y k by simp_all
      obtain n where "nat (min 32768 r) = Suc n" using False by (metis Suc_pred min_less_iff_conj not_le zero_less_nat_eq zero_less_numeral)
      then have "input_left s2 < input_left s" using Read_shorter [of n s b s1] x Inr 2(1) by simp
      moreover have "upload_loop se i t (r - int (length b)) s2 = (e, s')"
        using less.prems(3) False x y Inr by (simp add: upload_loop.simps [of se i t r s])
      ultimately show ?thesis using less.hyps transfers(2) [OF less.prems(1,2)] 2(2) by metis
    qed
  qed
qed

lemma upload_data_keeps: "J (sc_sv s) \<Longrightarrow> own (sc_sv s) i \<Longrightarrow> J (sc_sv (snd (getUploadFileData se n i s)))"
proof -
  assume J: "J (sc_sv s)" "own (sc_sv s) i"
  obtain e1 s1 where 1: "sendConfirmationMessage s = (e1, s1)" by fastforce
  have k1: "sc_sv s1 = sc_sv s" using 1 sendConfirmation_keeps(2) [of s] by simp
  obtain e2 s2 where 2: "upload_loop se i n n s1 = (e2, s2)" by fastforce
  have k2: "J (sc_sv s2) \<and> (e2 = None \<longrightarrow> own (sc_sv s2) i)" using upload_loop_keeps [OF _ _ 2] J k1 by simp
  obtain e3 s3 where 3: "readConfirmationMessage s2 = (e3, s3)" by fastforce
  have k3: "sc_sv s3 = sc_sv s2" using 3 confirmation_serv [of s2] by simp
  obtain e4 s4 where 4: "on_serv (Transfer_Close se i) s3 = (e4, s4)" by fastforce
  have k4: "sc_sv s4 = snd (Transfer_Close se i (sc_sv s2))" using 4 on_serv_keeps(2) [of "Transfer_Close se i" s3] k3 by simp
  show ?thesis using transfers(3) [OF J] transfers(3) [of "sc_sv s2" i] J k1 k2 k3 k4
    by (cases e1; cases e2; cases e3; cases e4) (simp_all add: getUploadFileData_def 1 2 3 4)
qed

lemma create_dir_keeps:
  assumes "J (sc_sv s)" and "dest d" and "handleCreateDir se c d s = Some (err, s')"
  shows "J (sc_sv s')"
proof -
  let ?w = "updateConnectionActivity (c_ID c) (sc_sv s)"
  have J: "J ?w" using bookkeeping(1) assms(1) .
  show ?thesis
  proof (cases "HasPerm (c_User c) PermCreateDirs")
    case True
    show ?thesis
    proof (cases "buildPath (se_env se) (sv_fs ?w) c d")
      case (Inl x)
      then show ?thesis using assms(3) J True by (auto simp: handleCreateDir_def Let_def dest!: fail_serv)
    next
      case (Inr p)
      obtain e f where m: "os_Mkdir (se_env se) (sv_fs ?w) p 0x1FF = (e, f)" by fastforce
      from mkdir [OF J assms(2) True Inr m] show ?thesis using assms(3) True Inr m
        by (auto simp: handleCreateDir_def createDir_def Let_def on_serv_def on_fs_def case_prod_unfold split: option.splits dest!: fail_serv)
    qed
  next
    case False
    then show ?thesis using assms(3) J by (auto simp: handleCreateDir_def Let_def dest!: fail_serv)
  qed
qed

lemma upload_file_keeps:
  assumes "J (sc_sv s)" and "dest d" and "HasPerm (c_User c) PermUpload" and "buildPath (se_env se) (sv_fs (sc_sv s)) c d = Inr p"
    and "handleUploadFile se c p p n s = Some (err, s')"
  shows "J (sc_sv s')"
proof -
  obtain r f where o: "os_Create (se_env se) (sv_fs (sc_sv s)) p = (r, f)" by fastforce
  note new = create [OF assms(1-4) o]
  have data: "J (sc_sv s')" if "r = Inr fl" "getUploadFileData se n (fst (addTransfer (new_transfer c fl p transferUpload True now) w))
      (s\<lparr>sc_sv := snd (addTransfer (new_transfer c fl p transferUpload True now) w)\<rparr>) = (err, s')"
      "w = set_permissions se c p ((sc_sv s)\<lparr>sv_fs := f\<rparr>)" for fl now w
    using new that upload_data_keeps [of "s\<lparr>sc_sv := snd (addTransfer (new_transfer c fl p transferUpload True now) w)\<rparr>"
        "fst (addTransfer (new_transfer c fl p transferUpload True now) w)" n] by (auto simp: case_prod_unfold)
  show ?thesis using assms(1,5) new data o
    by (auto simp: handleUploadFile_def Let_def on_serv_def on_fs_def case_prod_unfold split: if_splits sum.splits dest!: fail_serv)
qed

lemma upload_keeps:
  assumes "J (sc_sv s)" and "dest d" and "handleUpload se c d n s = Some (err, s')"
  shows "J (sc_sv s')"
proof (cases "HasPerm (c_User c) PermUpload")
  case True
  let ?w = "updateConnectionActivity (c_ID c) (sc_sv s)"
  have J: "J ?w" using bookkeeping(1) assms(1) .
  have failed: "J (sc_sv s')" if "fail e (active c s) = Some (err, s')" for e using fail_serv [OF that] J by simp
  show ?thesis
  proof (cases "buildPath (se_env se) (sv_fs ?w) c d")
    case (Inl x)
    then show ?thesis using assms(3) failed True by (auto simp: handleUpload_def Let_def)
  next
    case (Inr p)
    have act: "(active c s)\<lparr>sc_sv := ?w\<rparr> = active c s" by (simp add: active_def)
    note new = upload_file_keeps [of "active c s" d p n err s', OF _ assms(2) True]
      upload_file_keeps [of "(active c s)\<lparr>sc_sv := update_quota se (c_User c) 0 k ?w\<rparr>" d p n err s' for k, OF _ assms(2) True]
    show ?thesis using assms(3) True Inr mode [OF J True] failed new J bookkeeping(4) [OF J]
      by (auto simp: handleUpload_def Let_def act split: sum.splits if_splits)
  qed
next
  case False
  then show ?thesis using assms bookkeeping(1) by (auto simp: handleUpload_def Let_def dest!: fail_serv)
qed

lemma dest_kept: "dest d \<Longrightarrow> dest (getFileUploadDestPath se args c d x w)"
  using joined by (auto simp: getFileUploadDestPath_def split: sum.split)

lemma message_keeps:
  assumes "J (sc_sv s)" and "dest d" and "upload_message se args c m k d s = Some (r, s')"
  shows "J (sc_sv s') \<and> (\<forall>k' d'. r = Inr (k', d') \<longrightarrow> dest d')"
proof (cases "prefix ''E'' m")
  case True
  obtain e u where u: "sendConfirmationMessage s = (e, u)" by fastforce
  have "sc_sv u = sc_sv s" using u sendConfirmation_keeps(2) [of s] by simp
  then show ?thesis using assms joined True by (auto simp: upload_message_def u Let_def split: if_splits option.splits)
next
  case False
  obtain q t where q: "parseUploadMessage args c m s = (q, t)" by fastforce
  have t: "sc_sv t = sc_sv s" using q parse_keeps(2) [of args c m s] by simp
  show ?thesis
  proof (cases q)
    case (Inl e)
    then show ?thesis using assms False q t by (auto simp: upload_message_def)
  next
    case (Inr y)
    obtain n x where y: "y = (n, x)" by fastforce
    have up: "J (sc_sv v)" if "handleUpload se c (getFileUploadDestPath se args c d x w) n t = Some (e, v)" for e v w
      using upload_keeps [OF _ dest_kept that] assms(1,2) t by simp
    have mk: "J (sc_sv v)" if "handleCreateDir se c (path_Join [d, x]) t = Some (e, v)" for e v
      using create_dir_keeps [OF _ joined that] assms(1,2) t by simp
    show ?thesis using assms False q t Inr y joined
      by (auto simp: upload_message_def Let_def split: if_splits option.splits dest!: up mk)
  qed
qed

lemma recursive_upload_keeps:
  "J (sc_sv s) \<Longrightarrow> dest d \<Longrightarrow> recursive_upload se args c k d s = Some (err, s') \<Longrightarrow> J (sc_sv s')"
proof (induction "input_left s" arbitrary: k d s rule: less_induct)
  case less
  obtain e1 s1 where 1: "sendConfirmationMessage s = (e1, s1)" by fastforce
  have k1: "ch_in (sc_ch s1) = ch_in (sc_ch s)" "sc_sv s1 = sc_sv s" using 1 sendConfirmation_keeps [of s] by simp_all
  obtain m e2 s2 where 2: "getNextUploadProtocolMessage s1 = (m, e2, s2)" by (rule prod_cases3)
  have k2: "sc_sv s2 = sc_sv s1" by (rule next_serv [OF 2])
  show ?case
  proof (cases "e1 = None \<and> e2 = None \<and> upload_message se args c m k d s2 \<noteq> None")
    case True
    then obtain r s3 where 3: "upload_message se args c m k d s2 = Some (r, s3)" by auto
    have k3: "J (sc_sv s3)" "\<And>k' d'. r = Inr (k', d') \<Longrightarrow> dest d'" using message_keeps [OF _ less.prems(2) 3] less.prems(1) k1 k2 by auto
    have less3: "input_left s3 < input_left s" using next_consumes [of s1 m s2] 2 upload_message_in [OF 3] True k1 by simp
    show ?thesis using less.prems(3) True 1 2 3 k3 less.hyps [OF less3 k3(1)]
      by (auto simp: recursive_upload.simps [of se args c k d s] split: sum.splits if_splits)
  next
    case False
    then show ?thesis using less.prems 1 2 k1 k2 by (auto simp: recursive_upload.simps [of se args c k d s] split: option.splits)
  qed
qed

lemma download_loop_keeps: "J (sc_sv s) \<Longrightarrow> own (sc_sv s) i \<Longrightarrow> J (sc_sv (download_loop se i off s)) \<and> own (sc_sv (download_loop se i off s)) i"
proof (induction se\<equiv>se i off s rule: download_loop.induct)
  case (1 i off s)
  obtain b err s1 where r: "on_serv (Transfer_ReadAt se i 32768 off) s = ((b, err), s1)" by (metis surj_pair)
  have s1: "J (sc_sv s1)" "own (sc_sv s1) i"
    using transfers(1) [OF 1(2,3), of 32768 off] on_serv_keeps(2) [of "Transfer_ReadAt se i 32768 off" s] r by simp_all
  obtain e2 s2 where c: "(if (err = None \<or> err = Some IoEOF) \<and> b \<noteq> [] then chan_Write b s1 else (err, s1)) = (e2, s2)" by fastforce
  have k2: "sc_sv s2 = sc_sv s1" using c by (auto split: if_splits dest!: write_keeps)
  show ?case using 1(1) [OF r [symmetric] refl c [symmetric]] s1 k2 by (cases e2) (simp_all add: download_loop.simps [of se i off s] r c)
qed

lemma send_file_keeps:
  assumes "J (sc_sv s)" and "own (sc_sv s) i"
  shows "J (sc_sv (snd (sendDownloadFileData se args p st i s))) \<and> own (sc_sv (snd (sendDownloadFileData se args p st i s))) i"
proof -
  obtain e1 s1 where 1: "(if sendFileTime args then ask (mtime_message st) s else (None, s)) = (e1, s1)" by fastforce
  define m where "m = ''C'' @ getFileModeAsString (fi_mode st) (fi_IsDir st) @ '' '' @ itoa_int (sint (fi_size st)) @ '' '' @ path_Base p @ [CHR 0x0A]"
  obtain e2 s2 where 2: "ask m s1 = (e2, s2)" by fastforce
  obtain e3 s3 where 3: "sendConfirmationMessage (download_loop se i 0 s2) = (e3, s3)" by fastforce
  have k1: "sc_sv s1 = sc_sv s" using 1 by (auto split: if_splits dest!: ask_in)
  have k2: "sc_sv s2 = sc_sv s1" using ask_in [OF 2] by simp
  have k3: "sc_sv s3 = sc_sv (download_loop se i 0 s2)" using 3 sendConfirmation_keeps(2) [of "download_loop se i 0 s2"] by simp
  show ?thesis using download_loop_keeps [of s2 i 0] assms k1 k2 k3 unfolding sendDownloadFileData_def 1 m_def [symmetric]
    by (cases e1; cases e2; cases e3) (simp_all add: 2 3)
qed

lemma each_keeps:
  assumes "\<And>p s err s'. J (sc_sv s) \<Longrightarrow> dl p s = Some (err, s') \<Longrightarrow> J (sc_sv s')"
  shows "J (sc_sv s) \<Longrightarrow> download_each dl ps s = Some (err, s') \<Longrightarrow> J (sc_sv s')"
proof (induction ps arbitrary: s)
  case (Cons p ps)
  then show ?case using assms by (fastforce split: option.splits)
qed simp

lemma recursive_download_keeps:
  assumes "\<And>p s err s'. J (sc_sv s) \<Longrightarrow> dl p s = Some (err, s') \<Longrightarrow> J (sc_sv s')"
    and "J (sc_sv s)" and "handleRecursiveDownload dl se args c p st s = Some (err, s')"
  shows "J (sc_sv s')"
proof (cases "isRecursive args")
  case True
  obtain e1 s1 where 1: "sendDownloadProtocolMessages args p st s = (e1, s1)" by fastforce
  have k: "J (sc_sv s1)" using titles_keep [OF 1] assms(2) by simp
  have each: "download_each dl ps t = Some (e, t') \<Longrightarrow> J (sc_sv t) \<longrightarrow> J (sc_sv t')" for ps t e t'
    using each_keeps assms(1) by blast
  show ?thesis using assms(3) k True unfolding handleRecursiveDownload_def 1
    by (auto simp: Let_def split: option.splits sum.splits prod.splits dest!: each fail_serv ask_in)
next
  case False
  then show ?thesis using assms(2,3) fail_serv by (fastforce simp: handleRecursiveDownload_def)
qed

lemma download_keeps: "J (sc_sv s) \<Longrightarrow> download_fuel n se args c p s = Some (err, s') \<Longrightarrow> J (sc_sv s')"
proof (induction n arbitrary: p s err s')
  case (Suc n)
  let ?s = "active c s"
  have J: "J (sc_sv ?s)" using bookkeeping(1) [OF Suc.prems(1)] by simp
  show ?case
  proof (cases "HasPerm (c_User c) PermDownload")
    case True
    show ?thesis
    proof (cases "buildPath (se_env se) (sv_fs (sc_sv ?s)) c p")
      case (Inl e)
      then show ?thesis using Suc.prems True J by (auto simp: Let_def dest!: fail_serv)
    next
      case (Inr q)
      obtain r where o: "os_Open (se_env se) (sv_fs (sc_sv ?s)) q = (r, sv_fs (sc_sv ?s))"
        using Open_tree [of "se_env se" "sv_fs (sc_sv ?s)" q] by (metis prod.collapse)
      have on: "on_serv (\<lambda>w. on_fs (os_Open (se_env se) (sv_fs w) q) w) ?s = (r, ?s)"
        using o by (simp add: on_serv_def on_fs_def)
      have sent: "J (snd (Transfer_Close se i (sc_sv (snd (sendDownloadFileData se args q st i (?s\<lparr>sc_sv := w\<rparr>))))))"
        if "r = Inr fl" "addTransfer (new_transfer c fl q transferDownload False now) (sc_sv ?s) = (i, w)" for fl now i w st
      proof -
        have "J w \<and> own w i" using open_read [OF J, of q fl "sv_fs (sc_sv ?s)" now] o that by simp
        then show ?thesis using send_file_keeps [of "?s\<lparr>sc_sv := w\<rparr>" i args q st] transfers(3) by simp
      qed
      have rec: "J (sc_sv s')" if "handleRecursiveDownload (download_fuel n se args c) se args c q st ?s = Some (err, s')" for st
        by (rule recursive_download_keeps [OF Suc.IH J that])
      show ?thesis using Suc.prems(2) True Inr on J sent
        by (auto simp: Let_def case_prod_unfold split: sum.splits if_splits dest!: rec fail_serv)
    qed
  next
    case False
    then show ?thesis using Suc.prems J by (auto simp: Let_def dest!: fail_serv)
  qed
qed simp

lemma handle_keeps:
  assumes "J (sc_sv s)" and "\<And>d. getDestPath args = Some d \<Longrightarrow> dest d" and "handle_scp se args c s = Some (err, s')"
  shows "J (sc_sv s')"
proof -
  let ?s = "s\<lparr>sc_sv := addConnection (c_ID c) c (sc_sv s)\<rparr>"
  have J: "J (sc_sv ?s)" using bookkeeping(2) [OF assms(1)] by simp
  have up: "J (removeConnection (c_ID c) (sc_sv t))" if "handleRecursiveUpload se args c ?s = Some (e, t)" for e t
    using that recursive_upload_keeps [OF J] assms(2) bookkeeping(3) by (auto simp: handleRecursiveUpload_def split: option.splits)
  obtain e1 s1 where 1: "readConfirmationMessage ?s = (e1, s1)" by fastforce
  have k1: "J (sc_sv s1)" using 1 confirmation_serv [of ?s] J by simp
  have down: "J (removeConnection (c_ID c) (sc_sv t))" if "handleDownload se args c d s1 = Some (e, t)" for e t d
    using that download_keeps [OF k1] bookkeeping(3) unfolding handleDownload_def by blast
  show ?thesis using assms(3) J up down 1 bookkeeping(3) [OF J] bookkeeping(3) [OF k1]
    by (auto simp: handle_scp_def Let_def split: option.splits if_splits)
qed

end

end
