(* ===== verification/Serv_ScpClaims.thy ===== *)
theory Serv_ScpClaims
  imports Serv_Scp
begin

text \<open>
  What holds of the scp command of \<^verbatim>\<open>src/serv/scp.go\<close>: the contracts of \<open>Serv_Scp\<close> for confinement and for
  users who may not write, and a whole upload of one file, from the message to the exit status.
\<close>

section \<open>The contracts hold\<close>

text \<open>A joined path is clean, also when the one it is joined to is not.\<close>

lemma Join_clean: "\<exists>x. path_Join [cleanPath d, e] = cleanPath x"
proof -
  have "path_Join [cleanPath d, e] = path_Clean (if e = [] then cleanPath d else cleanPath d @ slash # e)"
    using cleanPath_abs [of d] by (auto simp: path_Join_def path_IsAbs_def)
  also have "\<dots> = cleanPath (if e = [] then cleanPath d else cleanPath d @ slash # e)"
    using cleanPath_abs [of d] by (auto simp: cleanPath_def path_IsAbs_def Let_def hd_append)
  finally show ?thesis by blast
qed

lemma connection_steps: "fs_step hl s (addConnection z k s)" "fs_step hl s (removeConnection z s)"
  by (simp_all add: fs_step_def addConnection_def removeConnection_def)

lemma made_dir_step:
  assumes "linkless hl (sv_fs s)" and "home_path hl p" and "os_Mkdir env (sv_fs s) p perm = (e, f)"
  shows "fs_step hl s (s\<lparr>sv_fs := f\<rparr>)"
  using Mkdir_inside [of env "sv_fs s" p "prefix hl" perm] home_resolve [OF assms(1,2)] Mkdir_links [of "sv_fs s" env p perm] assms(3)
  by (intro fs_step_fs) auto

interpretation scp_session: kept_by_scp se c "\<lambda>w. confined_user se c hl \<and> session_inv hl f0 n0 w" "own_transfer n0" "\<lambda>d. \<exists>x. d = cleanPath x"
  for se :: "'p settings" and c hl f0 n0
proof (unfold_locales, goal_cases)
  case (1 w z) then show ?case using fs_step_inv fs_step_frame(3) by blast
next
  case (2 w z k) then show ?case using fs_step_inv connection_steps(1) by blast
next
  case (3 w z) then show ?case using fs_step_inv connection_steps(2) by blast
next
  case (4 w u files bytes) then show ?case using fs_step_inv fs_step_frame(2) by blast
next
  case (5 d x) then show ?case using Join_clean by blast
next
  case (6 w) then show ?case by (simp add: confined_user_def)
next
  case (7 w d p e f)
  then have p: "home_path hl p" and ll: "linkless hl (sv_fs w)" and inv: "session_inv hl f0 n0 w"
    using buildPath_home by (auto simp: confined_user_def session_inv_def)
  have step: "fs_step hl w (w\<lparr>sv_fs := f\<rparr>)" by (rule made_dir_step [OF ll p 7(5)])
  have inv1: "session_inv hl f0 n0 (w\<lparr>sv_fs := f\<rparr>)" by (rule fs_step_inv [OF inv step])
  then have "fs_step hl (w\<lparr>sv_fs := f\<rparr>) (set_permissions se c p (w\<lparr>sv_fs := f\<rparr>))"
    using p by (intro set_permissions_step) (auto simp: session_inv_def)
  then show ?case using inv1 fs_step_inv 7(1) by blast
next
  case (8 w d p r f)
  then have p: "home_path hl p" and ll: "linkless hl (sv_fs w)" and inv: "session_inv hl f0 n0 w"
    using buildPath_home by (auto simp: confined_user_def session_inv_def)
  have o: "os_OpenFile (se_env se) (sv_fs w) p (O_RDWR OR O_CREATE OR O_TRUNC) 0x1B6 = (r, f)" using 8(5) by (simp add: os_Create_def)
  have step: "fs_step hl w (w\<lparr>sv_fs := f\<rparr>)" using OpenFile_step [OF ll p, of "se_env se" "O_RDWR OR O_CREATE OR O_TRUNC" "0x1B6"] o by simp
  have inv1: "session_inv hl f0 n0 (w\<lparr>sv_fs := f\<rparr>)" by (rule fs_step_inv [OF inv step])
  then have "fs_step hl (w\<lparr>sv_fs := f\<rparr>) (set_permissions se c p (w\<lparr>sv_fs := f\<rparr>))"
    using p by (intro set_permissions_step) (auto simp: session_inv_def)
  then have inv2: "session_inv hl f0 n0 (set_permissions se c p (w\<lparr>sv_fs := f\<rparr>))" using fs_step_inv [OF inv1] by blast
  show ?case using inv1 8(1) session_inv_add [OF inv2 opened_transfer_ok [OF inv p]] o by (auto simp: case_prod_unfold)
next
  case (9 w p fl f now)
  have "transfer_ok hl f0 (new_transfer c fl p transferDownload False now)"
    using Open_flags [OF 9(2)] by (simp add: transfer_ok_def new_transfer_def writable_def O_RDONLY_def)
  then show ?case using session_inv_add [of hl f0 n0 w] 9(1) by (auto simp: case_prod_unfold)
next
  case (10 w i n off) then show ?case using ReadAt_step [of hl f0 n0 w i] by (simp add: transfer_step_def)
next
  case (11 w i b off) then show ?case using WriteAt_step [of hl f0 n0 w i] by (simp add: transfer_step_def)
next
  case (12 w i) then show ?case using Close_step [of hl f0 n0 w i] by (simp add: transfer_step_def)
qed

lemma read_inv_kept: "read_inv f0 n0 s \<Longrightarrow> sv_fs s' = sv_fs s \<Longrightarrow> sv_heap s' = sv_heap s \<Longrightarrow> sv_next s' = sv_next s \<Longrightarrow> read_inv f0 n0 s'"
  using read_inv_frame [of f0 n0 s s'] by simp

interpretation scp_reading: kept_by_scp se c
  "\<lambda>w. \<not> HasPerm (c_User c) PermUpload \<and> \<not> HasPerm (c_User c) PermCreateDirs \<and> read_inv f0 n0 w" "own_transfer n0" "\<lambda>d. True"
  for se :: "'p settings" and c f0 n0
proof (unfold_locales, goal_cases)
  case (1 w z) then show ?case by (auto elim!: read_inv_kept)
next
  case (2 w z k) then show ?case by (auto elim!: read_inv_kept simp: addConnection_def)
next
  case (3 w z) then show ?case by (auto elim!: read_inv_kept simp: removeConnection_def)
next
  case (4 w u files bytes) then show ?case by (auto elim!: read_inv_kept)
next
  case (9 w p fl f now)
  have "\<not> writable (fl_flags fl)" using Open_flags [OF 9(2)] by (simp add: writable_def O_RDONLY_def)
  then show ?case using 9(1) by (auto simp: addTransfer_def read_inv_def own_transfer_def new_transfer_def)
next
  case (10 w i n off) then show ?case using read_only_transfer(1) [of f0 n0 w i] by (simp add: transfer_step_def)
next
  case (11 w i b off) then show ?case using read_only_transfer(2) [of f0 n0 w i] by (simp add: transfer_step_def)
next
  case (12 w i) then show ?case using read_only_transfer(3) [of f0 n0 w i] by (simp add: transfer_step_def)
qed simp_all
lemma start_inv: "linkless hl (sv_fs s) \<Longrightarrow> session_inv hl (sv_fs s) (sv_next s) s"
  by (auto simp add: session_inv_def)

section \<open>What an upload stores\<close>

lemma write_at_end: "write_bytes old (length old) b = old @ b"
  by (simp add: write_bytes_def)

definition receiving :: "'p settings \<Rightarrow> nat \<Rightarrow> nat \<Rightarrow> 'p serv \<Rightarrow> bool" where
  "receiving se i k w \<longleftrightarrow> (let fl = t_file (sv_heap w i)
     in fl_inode fl = Some k \<and> writable (fl_flags fl) \<and> fl_flags fl AND O_APPEND = 0 \<and> \<not> fl_closed fl
        \<and> env_op_fault (se_env se) ''write'' (fl_Name fl) = None)"

definition same_transfer :: "Transfer \<Rightarrow> Transfer \<Rightarrow> bool" where
  "same_transfer t t' \<longleftrightarrow> t_file t' = t_file t \<and> t_path t' = t_path t \<and> t_transferType t' = t_transferType t"

lemma WriteAt_stores:
  assumes "receiving se i k w" and "fs_data (sv_fs w) k = got" and "b \<noteq> []" and "Transfer_WriteAt se i b (int (length got)) w = (r, w')"
  shows "fs_data (sv_fs w') k = got @ b \<and> at (sv_fs w') = at (sv_fs w) \<and> receiving se i k w' \<and> same_transfer (sv_heap w i) (sv_heap w' i)"
  using assms by (auto simp: Transfer_WriteAt_def file_WriteAt_def receiving_def same_transfer_def handleThrottle_def set_transfer_def
      Let_def write_at_end at_def fun_eq_iff split: prod.splits)

lemma upload_loop_stores:
  assumes "receiving se i k (sc_sv s)" and "fs_data (sv_fs (sc_sv s)) k = got" and "ch_in (sc_ch s) = d @ rest"
  shows "\<exists>s'. upload_loop se i (int (length got) + int (length d)) (int (length d)) s = (None, s')
      \<and> fs_data (sv_fs (sc_sv s')) k = got @ d \<and> at (sv_fs (sc_sv s')) = at (sv_fs (sc_sv s)) \<and> receiving se i k (sc_sv s') \<and> same_transfer (sv_heap (sc_sv s) i) (sv_heap (sc_sv s') i)
      \<and> (\<exists>n. sc_ch s' = (sc_ch s)\<lparr>ch_in := rest, ch_reads := n\<rparr>)"
  using assms
proof (induction "length d" arbitrary: d got s rule: less_induct)
  case less
  show ?case
  proof (cases d)
    case Nil
    have "\<exists>n. sc_ch s = (sc_ch s)\<lparr>ch_in := rest, ch_reads := n\<rparr>" using less.prems(3) Nil by (intro exI [of _ "ch_reads (sc_ch s)"]) simp
    then show ?thesis using less.prems Nil by (intro exI [of _ s]) (simp add: upload_loop.simps same_transfer_def)
  next
    case (Cons x xs)
    define n where "n = min (nat (min 32768 (int (length d)))) (max 1 (ch_size (sc_ch s) (ch_reads (sc_ch s))))"
    have n: "0 < n" "n \<le> length d" using Cons by (auto simp: n_def)
    define b where "b = take n d"
    define d' where "d' = drop n d"
    have d: "d = b @ d'" "b \<noteq> []" "length d' < length d" using n Cons by (auto simp: b_def d'_def)
    define s1 where "s1 = s\<lparr>sc_ch := (sc_ch s)\<lparr>ch_in := d' @ rest, ch_reads := Suc (ch_reads (sc_ch s))\<rparr>\<rparr>"
    have read: "chan_Read (nat (min 32768 (int (length d)))) s = (Inr b, s1)"
      unfolding chan_Read_def Let_def n_def [symmetric] using less.prems(3) n by (cases "d = []") (simp_all add: s1_def b_def d'_def)
    obtain r w where w: "Transfer_WriteAt se i b (int (length got)) (sc_sv s) = (r, w)" by fastforce
    note stored = WriteAt_stores [OF less.prems(1,2) d(2) w]
    define s2 where "s2 = s1\<lparr>sc_sv := w\<rparr>"
    have wrote: "on_serv (Transfer_WriteAt se i b (int (length got))) s1 = (r, s2)" using w by (simp add: on_serv_def s1_def s2_def)
    have s2: "receiving se i k (sc_sv s2)" "fs_data (sv_fs (sc_sv s2)) k = got @ b" "ch_in (sc_ch s2) = d' @ rest"
      using stored by (simp_all add: s2_def s1_def)
    have same: "same_transfer (sv_heap (sc_sv s) i) (sv_heap (sc_sv s2) i)" "at (sv_fs (sc_sv s2)) = at (sv_fs (sc_sv s))" using stored by (simp_all add: s2_def)
    from less.hyps [OF d(3) s2] obtain s' m where s':
      "upload_loop se i (int (length (got @ b)) + int (length d')) (int (length d')) s2 = (None, s')"
      "fs_data (sv_fs (sc_sv s')) k = (got @ b) @ d' \<and> at (sv_fs (sc_sv s')) = at (sv_fs (sc_sv s2))" "receiving se i k (sc_sv s')"
      "same_transfer (sv_heap (sc_sv s2) i) (sv_heap (sc_sv s') i)" "sc_ch s' = (sc_ch s2)\<lparr>ch_in := rest, ch_reads := m\<rparr>" by blast
    have "upload_loop se i (int (length got) + int (length d)) (int (length d)) s
        = upload_loop se i (int (length (got @ b)) + int (length d')) (int (length d')) s2"
    proof -
      have total: "int (length (got @ b)) + int (length d') = int (length got) + int (length d)"
        and left: "int (length d) - int (length b) = int (length d')" using d(1) by simp_all
      have "\<not> int (length d) \<le> 0" using Cons by simp
      then show ?thesis unfolding total using read wrote left by (simp add: upload_loop.simps [of se i _ "int (length d)" s])
    qed
    moreover have "sc_ch s' = (sc_ch s)\<lparr>ch_in := rest, ch_reads := m\<rparr>" using s'(5) by (simp add: s2_def s1_def)
    ultimately show ?thesis using s' d(1) same by (auto simp: same_transfer_def)
  qed
qed

lemma Create_new:
  assumes "resolve env f True p = Inr l" and "at f l = None" and "env_op_fault env = (\<lambda>_ _. None)"
  shows "\<exists>fl f'. os_Create env f p = (Inr fl, f') \<and> fl_Name fl = p \<and> fl_inode fl = Some (fs_next f) \<and> fl_flags fl = (O_RDWR OR O_CREATE OR O_TRUNC)
    \<and> \<not> fl_closed fl \<and> at f' l = Some (File (fs_next f)) \<and> fs_data f' (fs_next f) = []"
proof -
  have "l \<noteq> []" using assms(2) by auto
  then have "at (put l (File (fs_next f)) f) l = Some (File (fs_next f))" by (simp add: at_put)
  then show ?thesis using assms \<open>l \<noteq> []\<close>
    by (auto simp: os_Create_def os_OpenFile_def resolve_op_def open_flag_defs Let_def at_def)
qed

lemma Close_stored:
  assumes "same_transfer (new_transfer c fl p transferUpload True now) (sv_heap w i)" and "fl_Name fl = p" and "\<not> fl_closed fl"
    and "env_op_fault (se_env se) = (\<lambda>_ _. None)"
  shows "fst (Transfer_Close se i w) = None \<and> sv_fs (snd (Transfer_Close se i w)) = sv_fs w"
proof -
  let ?t = "sv_heap w i"
  have t: "t_file ?t = fl" "t_path ?t = p" "t_transferType ?t = transferUpload" using assms(1) by (simp_all add: same_transfer_def new_transfer_def)
  have c: "file_Close (se_env se) fl = (None, fl\<lparr>fl_closed := True\<rparr>)" using assms(3,4) by (simp add: file_Close_def)
  show ?thesis using assms(2) by (simp add: Transfer_Close_def t c Let_def set_transfer_def)
qed

lemma chan_says: "\<not> ch_closed (sc_ch s) \<Longrightarrow> ch_fault (sc_ch s) = (\<lambda>_. None) \<Longrightarrow> sendConfirmationMessage s =
    (None, s\<lparr>sc_ch := (sc_ch s)\<lparr>ch_out := ch_out (sc_ch s) @ [0], ch_writes := Suc (ch_writes (sc_ch s))\<rparr>\<rparr>)"
  by (simp add: sendConfirmationMessage_def chan_Write_def Let_def)

lemma confirmed: "ch_in (sc_ch s) = 0 # rest \<Longrightarrow> readConfirmationMessage s =
    (None, s\<lparr>sc_ch := (sc_ch s)\<lparr>ch_in := rest, ch_reads := Suc (ch_reads (sc_ch s))\<rparr>\<rparr>)"
  by (simp add: readConfirmationMessage_def chan_Read_def Let_def)

text \<open>The channel is open, no write fails, and \<open>b\<close> is what still arrives.\<close>

definition ready :: "bytes \<Rightarrow> 'p scp \<Rightarrow> bool" where
  "ready b s \<longleftrightarrow> ch_in (sc_ch s) = b \<and> \<not> ch_closed (sc_ch s) \<and> ch_fault (sc_ch s) = (\<lambda>_. None)"

lemma data_stored:
  assumes t: "sv_heap (sc_sv s) i = new_transfer c fl p transferUpload True now" and fl: "fl_Name fl = p" "\<not> fl_closed fl" "fl_inode fl = Some k"
      "fl_flags fl = (O_RDWR OR O_CREATE OR O_TRUNC)" and nf: "env_op_fault (se_env se) = (\<lambda>_ _. None)" and emp: "fs_data (sv_fs (sc_sv s)) k = []"
    and ch: "ch_in (sc_ch s) = data @ 0 # rest" "\<not> ch_closed (sc_ch s)" "ch_fault (sc_ch s) = (\<lambda>_. None)"
  shows "\<exists>s'. getUploadFileData se (int (length data)) i s = (None, s') \<and> at (sv_fs (sc_sv s')) = at (sv_fs (sc_sv s))
    \<and> fs_data (sv_fs (sc_sv s')) k = data \<and> ready rest s' \<and> ch_out (sc_ch s') = ch_out (sc_ch s) @ [0, 0]"
proof -
  obtain s1 where 1: "sendConfirmationMessage s = (None, s1)" "sc_sv s1 = sc_sv s" "ch_in (sc_ch s1) = data @ 0 # rest"
      "\<not> ch_closed (sc_ch s1)" "ch_fault (sc_ch s1) = (\<lambda>_. None)" "ch_out (sc_ch s1) = ch_out (sc_ch s) @ [0]"
    using chan_says [OF ch(2,3)] ch by simp
  have r: "receiving se i k (sc_sv s1)" using t fl nf 1(2) by (simp add: receiving_def new_transfer_def writable_def open_flag_defs)
  from upload_loop_stores [OF r _ 1(3), of "[]"] emp 1(2) obtain s2 n where 2:
    "upload_loop se i (int (length data)) (int (length data)) s1 = (None, s2)" "fs_data (sv_fs (sc_sv s2)) k = data"
    "at (sv_fs (sc_sv s2)) = at (sv_fs (sc_sv s))" "same_transfer (sv_heap (sc_sv s) i) (sv_heap (sc_sv s2) i)"
    "sc_ch s2 = (sc_ch s1)\<lparr>ch_in := 0 # rest, ch_reads := n\<rparr>" by auto
  obtain s3 where 3: "readConfirmationMessage s2 = (None, s3)" "sc_sv s3 = sc_sv s2" "ch_in (sc_ch s3) = rest"
      "\<not> ch_closed (sc_ch s3)" "ch_fault (sc_ch s3) = (\<lambda>_. None)" "ch_out (sc_ch s3) = ch_out (sc_ch s) @ [0]"
    using confirmed [of s2 rest] 1 2(5) by simp
  have cl: "fst (Transfer_Close se i (sc_sv s3)) = None \<and> sv_fs (snd (Transfer_Close se i (sc_sv s3))) = sv_fs (sc_sv s3)"
    using Close_stored [OF _ fl(1,2) nf, of c now "sc_sv s3" i] 2(4) 3(2) t by simp
  define s4 where "s4 = s3\<lparr>sc_sv := snd (Transfer_Close se i (sc_sv s3))\<rparr>"
  have 4: "on_serv (Transfer_Close se i) s3 = (None, s4)" using cl by (simp add: on_serv_def case_prod_unfold s4_def)
  have "getUploadFileData se (int (length data)) i s = sendConfirmationMessage s4" by (simp add: getUploadFileData_def 1(1) 2(1) 3(1) 4)
  then show ?thesis using chan_says [of s4] cl 2(2,3) 3 by (simp add: s4_def ready_def)
qed

lemma permissions_same: "same_files (sv_fs w) (sv_fs (set_permissions se c p w))"
  by (simp add: set_permissions_def SetPathPermissions_def os_Chown_def change_meta_same)

lemma permissions_file:
  assumes "at (sv_fs w) l = Some (File k)"
  shows "at (sv_fs (set_permissions se c p w)) l = Some (File k)" "fs_data (sv_fs (set_permissions se c p w)) = fs_data (sv_fs w)"
proof -
  have "at (sv_fs (set_permissions se c p w)) l = at (sv_fs w) l \<or> is_dir (at (sv_fs w) l)" and
      d: "fs_data (sv_fs (set_permissions se c p w)) = fs_data (sv_fs w)"
    using permissions_same [of w se c p] unfolding same_files_def by auto
  then show "at (sv_fs (set_permissions se c p w)) l = Some (File k)" using assms by (auto simp: is_dir_def)
  show "fs_data (sv_fs (set_permissions se c p w)) = fs_data (sv_fs w)" by (rule d)
qed

lemma upload_file_stored:
  assumes "hasSpace se c True (sc_sv s)" and "resolve (se_env se) (sv_fs (sc_sv s)) True p = Inr l" and "at (sv_fs (sc_sv s)) l = None"
    and "os_Stat (se_env se) (sv_fs (sc_sv s)) (path_Dir p) = Inr dir" and "env_op_fault (se_env se) = (\<lambda>_ _. None)"
    and "ch_in (sc_ch s) = data @ 0 # rest" and "\<not> ch_closed (sc_ch s)" and "ch_fault (sc_ch s) = (\<lambda>_. None)"
  shows "\<exists>s' k. handleUploadFile se c p p (int (length data)) s = Some (None, s') \<and> at (sv_fs (sc_sv s')) l = Some (File k)
    \<and> fs_data (sv_fs (sc_sv s')) k = data \<and> ready rest s' \<and> ch_out (sc_ch s') = ch_out (sc_ch s) @ [0, 0]"
proof -
  let ?k = "fs_next (sv_fs (sc_sv s))"
  obtain fl f where o: "os_Create (se_env se) (sv_fs (sc_sv s)) p = (Inr fl, f)" and fl: "fl_Name fl = p" "\<not> fl_closed fl" "fl_inode fl = Some ?k"
      "fl_flags fl = (O_RDWR OR O_CREATE OR O_TRUNC)" and f: "at f l = Some (File ?k)" "fs_data f ?k = []"
    using Create_new [OF assms(2,3,5)] by auto
  define w where "w = set_permissions se c p ((sc_sv s)\<lparr>sv_fs := f\<rparr>)"
  have w: "at (sv_fs w) l = Some (File ?k)" "fs_data (sv_fs w) ?k = []"
    using permissions_file [of "(sc_sv s)\<lparr>sv_fs := f\<rparr>" l ?k se c p] f by (simp_all add: w_def)
  define t where "t = new_transfer c fl p transferUpload True (sv_now w)"
  obtain i w1 where a: "addTransfer t w = (i, w1)" by fastforce
  have w1: "sv_fs w1 = sv_fs w" "sv_heap w1 i = t" using a by (auto simp: addTransfer_def)
  have "handleUploadFile se c p p (int (length data)) s = Some (getUploadFileData se (int (length data)) i (s\<lparr>sc_sv := w1\<rparr>))"
    using assms(1,4) o a by (simp add: handleUploadFile_def on_serv_def on_fs_def Let_def w_def [symmetric] t_def [symmetric])
  moreover from data_stored [of "s\<lparr>sc_sv := w1\<rparr>" i c fl p "sv_now w" ?k se data rest] w w1 fl assms(5-8)
  obtain s' where "getUploadFileData se (int (length data)) i (s\<lparr>sc_sv := w1\<rparr>) = (None, s')" "at (sv_fs (sc_sv s')) l = Some (File ?k)"
    "fs_data (sv_fs (sc_sv s')) ?k = data" "ready rest s'" "ch_out (sc_ch s') = ch_out (sc_ch s) @ [0, 0]"
    by (auto simp: t_def)
  ultimately show ?thesis by simp
qed

section \<open>One file\<close>

lemma digits_itoa: "list_all is_digit (itoa n)"
proof (induction n rule: itoa.induct)
  case (1 n)
  have "is_digit (char_of (48 + m))" if "m < 10" for m :: nat using that by (simp add: is_digit_def of_char_of)
  then show ?case using 1 by (auto simp: itoa.simps [of n])
qed

lemma sign_itoa: "take_sign (itoa n) = (False, itoa n)"
proof -
  obtain x xs where i: "itoa n = x # xs" using itoa_not_Nil [of n] by (cases "itoa n") auto
  then have "is_digit x" using digits_itoa [of n] by simp
  then show ?thesis unfolding i take_sign_def by (auto simp: is_digit_def split: list.split char.split bool.split)
qed

lemma size_parsed: "int n < 2 ^ 63 \<Longrightarrow> signed_value False (itoa n) = Some (int n)"
  by (simp add: signed_value_def atoi_itoa)

definition file_message :: "string \<Rightarrow> nat \<Rightarrow> string" where
  "file_message name n = ''C0644 '' @ itoa n @ '' '' @ name"

lemma file_message_parsed:
  assumes "int n < 2 ^ 63" and "name \<noteq> []" and "CHR '' '' \<notin> set name"
  shows "parseUploadMessage args c (file_message name n) s = (Inr (int n, name), s)"
proof -
  have "CHR '' '' \<notin> set (itoa n)" using digits_itoa [of n] by (auto simp: list_all_iff is_digit_def)
  then have "split_on (CHR '' '') (file_message name n) = [''C0644'', itoa n, name]"
    using split_on_append_sep [of "CHR '' ''" "''C0644''" "itoa n @ '' '' @ name"] split_on_append_sep [of "CHR '' ''" "itoa n" name]
      split_on_no_sep [OF assms(3)] by (simp add: file_message_def)
  moreover have "prefix ''C'' (file_message name n)" by (simp add: file_message_def)
  ultimately show ?thesis using assms digits_itoa sign_itoa size_parsed by (simp add: parseUploadMessage_def Let_def)
qed

lemma line_read:
  "ch_in (sc_ch s) = bytes_of m @ newLine # rest \<Longrightarrow> CHR 0x0A \<notin> set m
    \<Longrightarrow> \<exists>n. read_line s = (m, None, s\<lparr>sc_ch := (sc_ch s)\<lparr>ch_in := rest, ch_reads := n\<rparr>\<rparr>)"
proof (induction m arbitrary: s)
  case Nil
  then show ?case by (auto simp: read_line.simps [of s] chan_Read_def Let_def)
next
  case (Cons x m)
  let ?b = "word_of_nat (of_char x) :: u8"
  let ?s = "s\<lparr>sc_ch := (sc_ch s)\<lparr>ch_in := bytes_of m @ newLine # rest, ch_reads := Suc (ch_reads (sc_ch s))\<rparr>\<rparr>"
  have x: "string_of [?b] = [x]" using string_of_bytes_of [of "[x]"] by (simp add: bytes_of_def)
  have "?b \<noteq> newLine"
  proof
    assume "?b = newLine"
    then have "[x] = string_of [newLine]" using x by simp
    moreover have "string_of [newLine] = [CHR 0x0A]" by code_simp
    ultimately show False using Cons.prems(2) by simp
  qed
  moreover have "chan_Read 1 s = (Inr [?b], ?s)" using Cons.prems(1) by (simp add: chan_Read_def Let_def bytes_of_def)
  moreover obtain n where "read_line ?s = (m, None, ?s\<lparr>sc_ch := (sc_ch ?s)\<lparr>ch_in := rest, ch_reads := n\<rparr>\<rparr>)"
    using Cons.IH [of ?s] Cons.prems(2) by auto
  ultimately show ?case using x by (auto simp: read_line.simps [of s])
qed

lemma upload_started:
  assumes "ready (bytes_of m @ newLine # rest) s" and "CHR 0x0A \<notin> set m" and "\<not> prefix ''T'' m"
  shows "\<exists>s2. sc_sv s2 = sc_sv s \<and> ready rest s2 \<and> ch_out (sc_ch s2) = ch_out (sc_ch s) @ [0]
    \<and> recursive_upload se args c k d s =
        (case upload_message se args c m k d s2 of
           None \<Rightarrow> None
         | Some (Inl e, s) \<Rightarrow> Some (Some e, s)
         | Some (Inr (k, d), s3) \<Rightarrow> if k = 0 then Some (None, s3) else recursive_upload se args c k d s3)"
proof -
  obtain s1 where 1: "sendConfirmationMessage s = (None, s1)" "sc_sv s1 = sc_sv s" "ready (bytes_of m @ newLine # rest) s1"
      "ch_out (sc_ch s1) = ch_out (sc_ch s) @ [0]"
    using chan_says [of s] assms(1) by (simp add: ready_def)
  obtain n where "read_line s1 = (m, None, s1\<lparr>sc_ch := (sc_ch s1)\<lparr>ch_in := rest, ch_reads := n\<rparr>\<rparr>)"
    using line_read [of s1 m rest] 1(3) assms(2) by (auto simp: ready_def)
  then have "getNextUploadProtocolMessage s1 = (m, None, s1\<lparr>sc_ch := (sc_ch s1)\<lparr>ch_in := rest, ch_reads := n\<rparr>\<rparr>)"
    using assms(3) by (simp add: getNextUploadProtocolMessage.simps [of s1] readProtocolMessage_def)
  then show ?thesis using 1
    by (intro exI [of _ "s1\<lparr>sc_ch := (sc_ch s1)\<lparr>ch_in := rest, ch_reads := n\<rparr>\<rparr>"])
      (simp add: recursive_upload.simps [of se args c k d s] ready_def)
qed

lemma hasSpace_db: "sv_db w' = sv_db w \<Longrightarrow> hasSpace se c b w' = hasSpace se c b w"
  by (simp only: hasSpace_def)

lemma dest_fs: "sv_fs w' = sv_fs w \<Longrightarrow> getFileUploadDestPath se args c d x w' = getFileUploadDestPath se args c d x w"
  by (simp only: getFileUploadDestPath_def)

lemma upload_stored:
  assumes "HasPerm (c_User c) PermUpload" and "se_uploadMode se = uploadModeStandard" and "hasSpace se c True (sc_sv s)"
    and "buildPath (se_env se) (sv_fs (sc_sv s)) c path = Inr p" and "resolve (se_env se) (sv_fs (sc_sv s)) True p = Inr l"
    and "at (sv_fs (sc_sv s)) l = None" and "os_Stat (se_env se) (sv_fs (sc_sv s)) (path_Dir p) = Inr dir"
    and "env_op_fault (se_env se) = (\<lambda>_ _. None)" and "ready (data @ 0 # rest) s"
  shows "\<exists>s' k. handleUpload se c path (int (length data)) s = Some (None, s') \<and> at (sv_fs (sc_sv s')) l = Some (File k)
    \<and> fs_data (sv_fs (sc_sv s')) k = data \<and> ready rest s' \<and> ch_out (sc_ch s') = ch_out (sc_ch s) @ [0, 0]"
proof -
  have stat: "os_Stat (se_env se) (sv_fs (sc_sv s)) p = Inl (PathError ''stat'' p (SysErrno ENOENT))"
    using assms(5,6) by (simp add: os_Stat_def stat_with_def)
  have space: "hasSpace se c True (updateConnectionActivity (c_ID c) (sc_sv s))" using assms(3) hasSpace_db by (metis activity_frame(2))
  have same: "(active c s)\<lparr>sc_sv := updateConnectionActivity (c_ID c) (sc_sv s)\<rparr> = active c s" by (simp add: active_def)
  have "handleUpload se c path (int (length data)) s = handleUploadFile se c p p (int (length data)) (active c s)"
    using assms(1,2,4) stat by (simp add: handleUpload_def Let_def os_IsNotExist_def underlyingError_def same)
  then show ?thesis using upload_file_stored [of se c "active c s" p l dir data rest] space assms(5-9) by (simp add: ready_def)
qed

text \<open>A whole command that copies one file, to a new place.\<close>

lemma command_stored:
  assumes "HasPerm (c_User c) PermUpload" and "se_uploadMode se = uploadModeStandard" and "hasSpace se c True (sc_sv s)"
    and "getDestPath args = Some d" and "getCommandType args = Some ''-t''" and "getFileUploadDestPath se args c d name (sc_sv s) = path"
    and "buildPath (se_env se) (sv_fs (sc_sv s)) c path = Inr p" and "resolve (se_env se) (sv_fs (sc_sv s)) True p = Inr l"
    and "at (sv_fs (sc_sv s)) l = None" and "os_Stat (se_env se) (sv_fs (sc_sv s)) (path_Dir p) = Inr dir"
    and "env_op_fault (se_env se) = (\<lambda>_ _. None)"
    and "name \<noteq> []" and "set name \<inter> {CHR '' '', CHR 0x0A} = {}" and "int (length data) < 2 ^ 63"
    and "ready (bytes_of (file_message name (length data)) @ newLine # data @ [0]) s"
  shows "\<exists>s' k. handle_scp se args c s = Some (None, s') \<and> at (sv_fs (sc_sv s')) l = Some (File k)
    \<and> fs_data (sv_fs (sc_sv s')) k = data \<and> ch_out (sc_ch s') = ch_out (sc_ch s) @ [0, 0, 0] \<and> ch_exit (sc_ch s') = Some 0"
proof -
  let ?m = "file_message name (length data)"
  let ?s = "s\<lparr>sc_sv := addConnection (c_ID c) c (sc_sv s)\<rparr>"
  have w: "sv_fs (addConnection (c_ID c) c (sc_sv s)) = sv_fs (sc_sv s)" "hasSpace se c True (addConnection (c_ID c) c (sc_sv s))"
    "getFileUploadDestPath se args c d name (addConnection (c_ID c) c (sc_sv s)) = path"
    using assms(3,6) hasSpace_db [of "addConnection (c_ID c) c (sc_sv s)" "sc_sv s" se c True]
      dest_fs [of "addConnection (c_ID c) c (sc_sv s)" "sc_sv s" se args c d name] by (simp_all add: addConnection_def)
  have m: "CHR 0x0A \<notin> set ?m" "\<not> prefix ''T'' ?m" "prefix ''C'' ?m" "\<not> prefix ''D'' ?m" "\<not> prefix ''E'' ?m"
    using assms(13) digits_itoa [of "length data"] by (auto simp: file_message_def list_all_iff is_digit_def)
  from upload_started [OF _ m(1,2), of "data @ [0]" ?s se args c 0 d] assms(15)
  obtain s2 where s2: "sc_sv s2 = sc_sv ?s" "ready (data @ [0]) s2" "ch_out (sc_ch s2) = ch_out (sc_ch s) @ [0]"
    and r: "recursive_upload se args c 0 d ?s = (case upload_message se args c ?m 0 d s2 of
           None \<Rightarrow> None
         | Some (Inl e, s) \<Rightarrow> Some (Some e, s)
         | Some (Inr (k, d), s3) \<Rightarrow> if k = 0 then Some (None, s3) else recursive_upload se args c k d s3)" by (auto simp: ready_def)
  from upload_stored [of c se s2 path p l dir data "[]"] assms(1,2,7-11) w s2
  obtain s3 k where s3: "handleUpload se c path (int (length data)) s2 = Some (None, s3)" "at (sv_fs (sc_sv s3)) l = Some (File k)"
    "fs_data (sv_fs (sc_sv s3)) k = data" "ready [] s3" "ch_out (sc_ch s3) = ch_out (sc_ch s) @ [0, 0, 0]" by auto
  have "upload_message se args c ?m 0 d s2 = Some (Inr (0, d), s3)"
    using file_message_parsed [of "length data" name args c s2] assms(12-14) m s3(1) w(3) s2(1) by (simp add: upload_message_def)
  then have "handleRecursiveUpload se args c ?s = Some (None, s3)" using r assms(4) by (simp add: handleRecursiveUpload_def)
  then show ?thesis using assms(4,5) s3(2-5)
    by (simp add: handle_scp_def Let_def sendExitStatus_def chan_Close_def removeConnection_def ready_def)
qed

lemma command_denied:
  assumes "\<not> HasPerm (c_User c) PermUpload" and "getDestPath args = Some d" and "getCommandType args = Some ''-t''"
    and "name \<noteq> []" and "set name \<inter> {CHR '' '', CHR 0x0A} = {}" and "int n < 2 ^ 63"
    and "ready (bytes_of (file_message name n) @ newLine # rest) s"
  shows "\<exists>s'. handle_scp se args c s = Some (Some denied, s')"
proof -
  let ?m = "file_message name n"
  let ?s = "s\<lparr>sc_sv := addConnection (c_ID c) c (sc_sv s)\<rparr>"
  have m: "CHR 0x0A \<notin> set ?m" "\<not> prefix ''T'' ?m" "prefix ''C'' ?m" "\<not> prefix ''D'' ?m" "\<not> prefix ''E'' ?m"
    using assms(5) digits_itoa [of n] by (auto simp: file_message_def list_all_iff is_digit_def)
  from upload_started [OF _ m(1,2), of rest ?s se args c 0 d] assms(7)
  obtain s2 where r: "recursive_upload se args c 0 d ?s = (case upload_message se args c ?m 0 d s2 of
           None \<Rightarrow> None
         | Some (Inl e, s) \<Rightarrow> Some (Some e, s)
         | Some (Inr (k, d), s3) \<Rightarrow> if k = 0 then Some (None, s3) else recursive_upload se args c k d s3)" by (auto simp: ready_def)
  have "\<exists>s3. upload_message se args c ?m 0 d s2 = Some (Inl denied, s3)"
    using file_message_parsed [of n name args c s2] assms(1,4-6) m by (simp add: upload_message_def handleUpload_def fail_def Let_def)
  then show ?thesis using r assms(2,3) by (auto simp: handle_scp_def handleRecursiveUpload_def Let_def)
qed

section \<open>Claims\<close>

definition sample_chan :: "bytes \<Rightarrow> scp_chan" where
  "sample_chan b = \<lparr>ch_in = b, ch_end = IoEOF, ch_size = (\<lambda>_. 2), ch_reads = 0, ch_out = [], ch_fault = (\<lambda>_. None),
     ch_writes = 0, ch_closed = False, ch_exit = None\<rparr>"

text \<open>The input sends three bytes as the file \<open>b\<close>.\<close>

definition sample_data :: bytes where "sample_data = [65, 66, 67]"

definition sample_copy :: "memdb scp" where
  "sample_copy = \<lparr>sc_ch = sample_chan (bytes_of (file_message ''b'' (length sample_data)) @ newLine # sample_data @ [0]), sc_sv = tidy_serv\<rparr>"

lemma sample_copy_parts: "sc_sv sample_copy = tidy_serv" "ready (bytes_of (file_message ''b'' (length sample_data)) @ newLine # sample_data @ [0]) sample_copy"
  by (simp_all add: sample_copy_def sample_chan_def ready_def)

lemma sample_env: "env_op_fault (se_env sample_settings) = (\<lambda>_ _. None)" "se_uploadMode sample_settings = uploadModeStandard"
  by (simp_all add: sample_settings_def no_faults_def)

lemma sample_uploader: "confined_user sample_settings (sample_conn [''upload'']) [''home'', ''alice'']"
    "HasPerm (c_User (sample_conn [''upload''])) PermUpload" "hasSpace sample_settings (sample_conn [''upload'']) True tidy_serv"
  by code_simp+

lemma stat_dir: "\<not> isl (os_Stat env f p) \<Longrightarrow> \<exists>dir. os_Stat env f p = Inr dir"
  by (cases "os_Stat env f p") auto

lemma sample_message: "''b'' \<noteq> []" "set ''b'' \<inter> {CHR '' '', CHR 0x0A} = {}" "int (length sample_data) < 2 ^ 63"
  by (simp_all add: sample_data_def)

lemma sample_paths:
  "getDestPath [''-t'', ''/x''] = Some (cleanPath ''x'')" "getCommandType [''-t'', ''/x''] = Some ''-t''"
  "getFileUploadDestPath sample_settings [''-t'', ''/x''] (sample_conn [''upload'']) (cleanPath ''x'') ''b'' tidy_serv = ''/x''"
  "buildPath (se_env sample_settings) (sv_fs tidy_serv) (sample_conn [''upload'']) ''/x'' = Inr ''/home/alice/x''"
  "resolve (se_env sample_settings) (sv_fs tidy_serv) True ''/home/alice/x'' = Inr [''home'', ''alice'', ''x'']"
  "at (sv_fs tidy_serv) [''home'', ''alice'', ''x''] = None"
  "\<not> isl (os_Stat (se_env sample_settings) (sv_fs tidy_serv) (path_Dir ''/home/alice/x''))"
  by code_simp+

lemma sibling_paths:
  "getDestPath [''-t'', ''/../alice2/x''] = Some ''/../alice2/x''" "getCommandType [''-t'', ''/../alice2/x''] = Some ''-t''"
  "getFileUploadDestPath sample_settings [''-t'', ''/../alice2/x''] (sample_conn [''upload'']) ''/../alice2/x'' ''b'' tidy_serv = ''/../alice2/x''"
  "buildPath (se_env sample_settings) (sv_fs tidy_serv) (sample_conn [''upload'']) ''/../alice2/x'' = Inr ''/home/alice2/x''"
  "resolve (se_env sample_settings) (sv_fs tidy_serv) True ''/home/alice2/x'' = Inr [''home'', ''alice2'', ''x'']"
  "at (sv_fs tidy_serv) [''home'', ''alice2'', ''x''] = None"
  "\<not> isl (os_Stat (se_env sample_settings) (sv_fs tidy_serv) (path_Dir ''/home/alice2/x''))"
  by code_simp+



text \<open>
  C7. Without the permissions to upload and to create directories an scp command adds, removes
  or replaces no entry of the file tree and alters no file, whatever it is given and whatever the client sends.
\<close>

theorem scp_readonly:
  assumes "\<not> HasPerm (c_User c) PermUpload" and "\<not> HasPerm (c_User c) PermCreateDirs" and "handle_scp se args c s = Some (err, s')"
  shows "same_files (sv_fs (sc_sv s)) (sv_fs (sc_sv s'))"
proof -
  have "read_inv (sv_fs (sc_sv s)) (sv_next (sc_sv s)) (sc_sv s)" by (auto simp: read_inv_def own_transfer_def)
  then have "read_inv (sv_fs (sc_sv s)) (sv_next (sc_sv s)) (sc_sv s')"
    using scp_reading.handle_keeps [of c "sv_fs (sc_sv s)" "sv_next (sc_sv s)" s args se err s', OF _ _ assms(3)] assms(1,2) by auto
  then show ?thesis by (simp add: read_inv_def)
qed

theorem scp_readonly_witness:
  "\<exists>s'. handle_scp sample_settings [''-t'', ''/x''] (sample_conn [''list'']) sample_copy = Some (Some denied, s')
     \<and> same_files (sv_fs tidy_serv) (sv_fs (sc_sv s'))"
proof -
  have p: "\<not> HasPerm (c_User (sample_conn [''list''])) PermUpload" "\<not> HasPerm (c_User (sample_conn [''list''])) PermCreateDirs" by code_simp+
  obtain s' where r: "handle_scp sample_settings [''-t'', ''/x''] (sample_conn [''list'']) sample_copy = Some (Some denied, s')"
    using command_denied [OF p(1) sample_paths(1,2) sample_message sample_copy_parts(2)] by blast
  show ?thesis using r scp_readonly [OF p r, unfolded sample_copy_parts(1)] by blast
qed

text \<open>
  C8. A command that copies one file to a new place stores exactly the bytes that were announced, however the
  channel divides them; it confirms the start, the message and the data, and exits with status 0. The
  directory exists, there is space, and neither the file system nor the channel fails.
\<close>

theorem scp_upload_stores:
  assumes "HasPerm (c_User c) PermUpload" and "se_uploadMode se = uploadModeStandard" and "hasSpace se c True (sc_sv s)"
    and "getDestPath args = Some d" and "getCommandType args = Some ''-t''" and "getFileUploadDestPath se args c d name (sc_sv s) = path"
    and "buildPath (se_env se) (sv_fs (sc_sv s)) c path = Inr p" and "resolve (se_env se) (sv_fs (sc_sv s)) True p = Inr l"
    and "at (sv_fs (sc_sv s)) l = None" and "os_Stat (se_env se) (sv_fs (sc_sv s)) (path_Dir p) = Inr dir"
    and "env_op_fault (se_env se) = (\<lambda>_ _. None)"
    and "name \<noteq> []" and "set name \<inter> {CHR '' '', CHR 0x0A} = {}" and "int (length data) < 2 ^ 63"
    and "ready (bytes_of (file_message name (length data)) @ newLine # data @ [0]) s"
  shows "\<exists>s' k. handle_scp se args c s = Some (None, s') \<and> at (sv_fs (sc_sv s')) l = Some (File k)
    \<and> fs_data (sv_fs (sc_sv s')) k = data \<and> ch_out (sc_ch s') = ch_out (sc_ch s) @ [0, 0, 0] \<and> ch_exit (sc_ch s') = Some 0"
  using command_stored [OF assms] .

theorem scp_upload_stores_witness:
  "\<exists>s' k. handle_scp sample_settings [''-t'', ''/x''] (sample_conn [''upload'']) sample_copy = Some (None, s')
     \<and> at (sv_fs (sc_sv s')) [''home'', ''alice'', ''x''] = Some (File k) \<and> fs_data (sv_fs (sc_sv s')) k = [65, 66, 67]"
proof -
  obtain dir where "os_Stat (se_env sample_settings) (sv_fs tidy_serv) (path_Dir ''/home/alice/x'') = Inr dir" using stat_dir [OF sample_paths(7)] by blast
  from scp_upload_stores [where s = sample_copy, unfolded sample_copy_parts(1), OF sample_uploader(2) sample_env(2) sample_uploader(3) sample_paths(1-6) this
      sample_env(1) sample_message sample_copy_parts(2)]
  show ?thesis unfolding sample_data_def by blast
qed


end
