(* ===== verification/Spec2Isabelle.thy ===== *)
theory Spec2Isabelle
  imports Sftp_Roundtrip Sftp_Ordering Sftp_RequestProps Sftp_Match Serv_Accounts Serv_SessionClaims Serv_Api Serv_ScpClaims
begin

text \<open>
  A verification of the server \<^verbatim>\<open>sshserv\<close>, a daemon that gives the users of its own account
  database sftp, scp and shell access to their home directories, and of the REST interface that
  administers the accounts. All sources are under \<^verbatim>\<open>src/\<close>.

  \<^bold>\<open>The program and the theories.\<close> A connection logs in (\<^verbatim>\<open>serv/server.go\<close>), opens channels and sends
  requests on them (\<^verbatim>\<open>serv/shell_linux.go\<close>). The sftp subsystem reads packets from the channel
  (\<^verbatim>\<open>sftp/packet.go\<close>), hands them to a pool of workers that answer in order (\<^verbatim>\<open>sftp/packet-manager.go\<close>),
  turns them into requests (\<^verbatim>\<open>sftp/request.go\<close>, \<^verbatim>\<open>sftp/request-server.go\<close>) and calls the file handlers of
  the connection (\<^verbatim>\<open>serv/filehandler.go\<close>), which check paths and permissions, work on the file
  system, and report transfers (\<^verbatim>\<open>serv/transfer.go\<close>) to the quota in the account database
  (\<^verbatim>\<open>dataprovider/\<close>). The scp command (\<^verbatim>\<open>serv/scp.go\<close>) uses the same paths, transfers and quota. The REST
  interface (\<^verbatim>\<open>api/\<close>) reads and writes accounts, starts quota scans and closes connections.

  \<^item> \<open>Serv_Prelude\<close>: integers, bytes, errors, the locale \<open>codec\<close>. \<open>Go_Path\<close>, \<open>Go_OS\<close>: the parts of
  Go's packages \<^verbatim>\<open>path\<close>, \<^verbatim>\<open>path/filepath\<close> and \<^verbatim>\<open>os\<close> that the sources use, over a tree of
  directories, files and symbolic links in which any call may fail (\<open>os_env\<close>).
  \<^item> \<open>Sftp_Allocator\<close>: \<^verbatim>\<open>sftp/allocator.go\<close> (\<open>GetPage\<close>, \<open>ReleasePages\<close>, \<open>Free\<close>), locale \<open>page_pool\<close>.
  \<^item> \<open>Sftp_Wire\<close>, \<open>Sftp_Attrs\<close>, \<open>Sftp_Packets\<close>, \<open>Sftp_Roundtrip\<close>: \<^verbatim>\<open>sftp/packet.go\<close>, \<^verbatim>\<open>packet-typing.go\<close>,
  \<^verbatim>\<open>attrs.go\<close>, \<^verbatim>\<open>sftp.go\<close>: every encoder and decoder, \<open>makePacket\<close>, frames.
  \<^item> \<open>Sftp_PacketManager\<close>, \<open>Sftp_Ordering\<close>: \<^verbatim>\<open>sftp/packet-manager.go\<close> with its goroutines as the step
  function \<open>pm_step\<close>.
  \<^item> \<open>Sftp_Status\<close>, \<open>Sftp_Handles\<close>, \<open>Sftp_Request\<close>, \<open>Sftp_RequestServer\<close>, \<open>Sftp_RequestProps\<close>, \<open>Sftp_RequestInv\<close>:
  status codes, extensions, listings, the table of handles (locale \<open>handle_table\<close>), the methods of a
  request, \<open>packetWorker\<close>, \<open>Serve\<close>; what the handlers keep the server keeps (locale \<open>kept_by_handlers\<close>).
  \<^item> \<open>Sftp_Match\<close>: \<^verbatim>\<open>sftp/match.go\<close>, with the language of a pattern as its specification.
  \<^item> \<open>Serv_User\<close>, \<open>Serv_Provider\<close>, \<open>Serv_Bolt\<close>, \<open>Serv_Accounts\<close>: \<^verbatim>\<open>utils/utils.go\<close>,
  \<^verbatim>\<open>dataprovider/user.go\<close>, \<^verbatim>\<open>dataprovider.go\<close>, \<^verbatim>\<open>bolt.go\<close> and the expiry job of \<^verbatim>\<open>cmd/serve.go\<close>. The
  store is a parameter under the locale \<open>bolt_db\<close>; the file handlers see the locale \<open>quota_provider\<close>.
  \<^item> \<open>Serv_State\<close>, \<open>Serv_Paths\<close>, \<open>Serv_Files\<close>: \<^verbatim>\<open>serv/sftpd.go\<close>, \<^verbatim>\<open>filehandler.go\<close>, \<^verbatim>\<open>transfer.go\<close>, \<^verbatim>\<open>lister.go\<close>.
  The state of the process is the record \<open>serv\<close>, what is fixed at start the record \<open>settings\<close>.
  \<^item> \<open>Serv_Confine\<close>, \<open>Serv_HandlerProps\<close>, \<open>Serv_HandlerClaims\<close>, \<open>Serv_Links\<close>, \<open>Serv_Session\<close>, \<open>Serv_SessionClaims\<close>:
  properties of the handlers and of whole sftp sessions (\<open>handleSftpConnection\<close>).
  \<^item> \<open>Serv_Login\<close>: \<^verbatim>\<open>serv/server.go\<close> and \<^verbatim>\<open>serv/shell_linux.go\<close>, what a login gives and what the requests on a channel start.
  \<^item> \<open>Serv_Api\<close>: \<^verbatim>\<open>api/\<close>, the routes, the handlers and the client.
  \<^item> \<open>Serv_Scp\<close>, \<open>Serv_ScpClaims\<close>: \<^verbatim>\<open>serv/scp.go\<close>, and the locale \<open>kept_by_scp\<close> of invariants that its calls keep.

  \<^bold>\<open>What is shown.\<close> Encoding: decoding inverts encoding, through the frames too, and any bytes are
  decoded or rejected in the documented ways. Concurrency: under every interleaving responses leave
  in the order of the requests, each request is answered, a close waits for what was sent before it,
  and a buffer belongs to one request. Request server: one response per packet with its identifier, and a
  served byte stream is the sequence of its packets. Accounts: the bolt provider refines a map
  of accounts; quotas add up in 64 bits; a login gives the account whose hash was checked. Files: a
  whole session, and an scp command with a clean path, change nothing outside the home directory, and nothing at
  all for users without the permissions to write; requests without their permission fail without effect; uploads are
  stored and accounted. Interface: answers hide credentials, failed requests change nothing, an added user is
  found by the client. Some theorems show behaviour that the code does not mean to have: an upload through a
  dangling link and an scp path with dot-dot elements leave the home, and an empty command line
  panics.

  \<^bold>\<open>Errors, panics, fuel.\<close> Errors are values of \<open>goerr\<close>, results \<open>goerr + 'a\<close>; a run-time panic is
  \<open>None\<close>. Loops are total functions with a measure: the bytes that are left (packets, scp messages),
  the length of a path, the entries of the store, the unread part of a file. Fuel is used in two
  places: following symbolic links, where Go itself stops after a fixed number, and the recursion of
  scp over directories, where every directory costs a byte of the input, so that the length of
  the input is enough (\<open>download_fuel_enough\<close>).

  \<^bold>\<open>Not modelled.\<close> Text of log lines; locks (each locked method is one step; the packet manager, which is
  concurrent by design, is modelled with its interleavings); the ssh handshake, hash functions,
  the router library, \<^verbatim>\<open>shlex\<close> and the text of JSON, which are other modules and appear as parameters or
  trees; terminals and processes, of which only the start is recorded; the SQL providers, which
  pass statements to a database server; port forwarding; \<^verbatim>\<open>sftp/client.go\<close> and the stand-alone server of
  \<^verbatim>\<open>sftp/server.go\<close>, which the daemon does not start; \<^verbatim>\<open>hdfs/\<close> and \<^verbatim>\<open>hh/\<close>, a client of a remote file system with
  generated protocol code; the command line tools, configuration files and other platforms.
\<close>

end
